theory Spec2Isabelle
  imports Main
begin

section \<open>The folder upload pipeline of cli-lib (lib/uploadFolder.js)\<close>

text \<open>
  A shallow embedding of \<^verbatim>\<open>packages/cli-lib/lib/uploadFolder.js\<close>: the classifier
  \<^verbatim>\<open>getFilesByType\<close>, the pipeline \<^verbatim>\<open>uploadFolder\<close> with its task factory
  \<^verbatim>\<open>uploadFile\<close>, and \<^verbatim>\<open>hasUploadErrors\<close>.

  The module calls helpers that live in other modules (\<^verbatim>\<open>../path\<close>, \<^verbatim>\<open>./walk\<close>,
  \<^verbatim>\<open>../ignoreRules\<close>, \<^verbatim>\<open>./handleFieldsJs\<close>, \<^verbatim>\<open>../errorHandlers\<close>,
  \<^verbatim>\<open>../api/fileMapper\<close>) and in Node (\<^verbatim>\<open>fs\<close>, \<^verbatim>\<open>path\<close>, \<^verbatim>\<open>p-queue\<close>). They are the
  fields of the record \<open>env\<close>: every theorem holds for whatever these helpers compute.
  Logging calls have no effect on the values computed and are left out.
\<close>

subsection \<open>Data\<close>

type_synonym path = string

text \<open>\<^verbatim>\<open>FileUploadResultType\<close> (lines 26-29).\<close>

datatype FileUploadResultType = SUCCESS | FAILURE

text \<open>
  The objects returned by the retry tasks (lines 165-169 and 183-187):
  \<^verbatim>\<open>{ resultType, error, file }\<close>, where \<^verbatim>\<open>error\<close> is \<^verbatim>\<open>null\<close> on success.
\<close>

record 'e uploadResult =
  resultType :: FileUploadResultType
  error :: "'e option"
  "file" :: path

text \<open>
  An entry \<^verbatim>\<open>{ file, destPath }\<close> of the \<^verbatim>\<open>failures\<close> array, which is also all a task
  closure built by \<^verbatim>\<open>uploadFile\<close> captures: a pair (file, destPath).
\<close>

type_synonym uploadTask = "path \<times> path"

text \<open>A \<^verbatim>\<open>fs.Dirent\<close> as far as line 74-75 reads it: its name and \<^verbatim>\<open>isDirectory()\<close>.\<close>

record dirent =
  name :: string
  isDirectory :: bool

text \<open>
  An upload of a file is attempted at most twice by one run: by the task that
  \<^verbatim>\<open>uploadFile\<close> builds (line 128) and by the retry task (line 163).
\<close>

datatype attempt = First | Retry

text \<open>
  What a run throws, tagged with the call that raised it: \<^verbatim>\<open>walk\<close> (line 105),
  \<^verbatim>\<open>convertFieldsJs\<close> (line 58, rethrown at line 61), \<^verbatim>\<open>fs.readdirSync\<close> (line 73)
  or \<^verbatim>\<open>upload\<close> (rethrown at lines 132 and 173).
\<close>

datatype 'e thrown = WalkError 'e | FieldsError 'e | ReaddirError 'e | UploadError 'e

text \<open>
  The collaborators. \<open>createIgnoreFilter\<close> is the predicate that
  \<^verbatim>\<open>createIgnoreFilter()\<close> returns (true keeps the file). \<open>pathJoin\<close> and \<open>dirname\<close> are
  Node's \<^verbatim>\<open>path.join\<close> and \<^verbatim>\<open>path.dirname\<close>, which depend on the host's separator.

  \<open>upload a f d\<close> is the reply of the remote store to attempt \<open>a\<close> at uploading file
  \<open>f\<close> to \<open>d\<close>: \<open>None\<close> when the promise resolves, \<open>Some err\<close> when it rejects with
  \<open>err\<close>. \<open>settledAt a f d\<close> is the instant at which that promise settles, counted from
  the submission of its batch: the tasks of a batch run concurrently in the queue and
  settle in the order of these instants, tasks with equal instants in the order of
  submission. Both are arbitrary functions, so the tasks of a batch may settle in any
  order; the ceiling of ten tasks in flight (line 32) only rules some orders out. A
  reply depends on the attempt and on the task: when no path is queued twice, a run
  makes each attempt at a task at most once, and any course of replies is such a
  function.
\<close>

record 'e env =
  walk :: "path \<Rightarrow> 'e + path list"
  isAllowedExtension :: "path \<Rightarrow> bool"
  createIgnoreFilter :: "path \<Rightarrow> bool"
  splitLocalPath :: "path \<Rightarrow> string list"
  getExt :: "path \<Rightarrow> string"
  convertFieldsJs :: "path \<Rightarrow> 'e + path"
  dirname :: "path \<Rightarrow> path"
  readdirSync :: "path \<Rightarrow> 'e + dirent list"
  pathJoin :: "path \<Rightarrow> path \<Rightarrow> path"
  convertToUnixPath :: "path \<Rightarrow> path"
  upload :: "attempt \<Rightarrow> path \<Rightarrow> path \<Rightarrow> 'e option"
  settledAt :: "attempt \<Rightarrow> path \<Rightarrow> path \<Rightarrow> nat"
  isFatalError :: "'e \<Rightarrow> bool"

subsection \<open>getFilesByType (lines 35-95)\<close>

text \<open>\<^verbatim>\<open>String.prototype.endsWith\<close>.\<close>

definition endsWith :: "string \<Rightarrow> string \<Rightarrow> bool" where
  "endsWith s suffix =
     (length suffix \<le> length s \<and> drop (length s - length suffix) s = suffix)"

text \<open>The five arrays declared at lines 36-40.\<close>

record buckets =
  moduleFiles :: "path list"
  cssAndJsFiles :: "path list"
  otherFiles :: "path list"
  templateFiles :: "path list"
  jsonFiles :: "path list"

definition noFiles :: buckets where
  "noFiles = \<lparr>moduleFiles = [], cssAndJsFiles = [], otherFiles = [],
     templateFiles = [], jsonFiles = []\<rparr>"

text \<open>
  Line 46: \<^verbatim>\<open>parts.find(part => part.endsWith('.module'))\<close>, \<open>None\<close> for
  \<^verbatim>\<open>undefined\<close>.
\<close>

definition moduleFolder :: "'e env \<Rightarrow> path \<Rightarrow> string option" where
  "moduleFolder env f = find (\<lambda>part. endsWith part ''.module'') (splitLocalPath env f)"

text \<open>
  The callback of \<^verbatim>\<open>files.forEach\<close> (lines 42-93), on the arrays \<open>b\<close>. A part that
  ends with \<^verbatim>\<open>.module\<close> is a non-empty string, so \<^verbatim>\<open>if (moduleFolder)\<close> holds exactly
  when \<^verbatim>\<open>parts.find\<close> finds one; then \<open>parts\<close> is not empty and
  \<^verbatim>\<open>parts[parts.length - 1]\<close> is its last element.
\<close>

definition classifyFile :: "'e env \<Rightarrow> buckets \<Rightarrow> path \<Rightarrow> 'e thrown + buckets" where
  "classifyFile env b f =
     (let parts = splitLocalPath env f;
          extension = getExt env f
      in if moduleFolder env f \<noteq> None then
           (let fileName = last parts
            in if fileName = ''fields.js'' then
                 (case convertFieldsJs env f of
                    Inl e \<Rightarrow> Inl (FieldsError e)
                  | Inr converted \<Rightarrow> Inr (b\<lparr>moduleFiles := moduleFiles b @ [converted]\<rparr>))
               else if getExt env f = ''json'' then
                 (let b1 = (if fileName = ''meta.json''
                            then b\<lparr>moduleFiles := moduleFiles b @ [f]\<rparr> else b)
                  in if fileName = ''fields.json'' then
                       (case readdirSync env (dirname env f) of
                          Inl e \<Rightarrow> Inl (ReaddirError e)
                        | Inr items \<Rightarrow>
                            (let dir = map name (filter (\<lambda>item. \<not> isDirectory item) items)
                             in if ''fields.js'' \<notin> set dir
                                then Inr (b1\<lparr>moduleFiles := moduleFiles b1 @ [f]\<rparr>)
                                else Inr b1))
                     else Inr b1)
               else Inr (b\<lparr>moduleFiles := moduleFiles b @ [f]\<rparr>))
         else if extension = ''js'' \<or> extension = ''css'' then
           Inr (b\<lparr>cssAndJsFiles := cssAndJsFiles b @ [f]\<rparr>)
         else if extension = ''html'' then
           Inr (b\<lparr>templateFiles := templateFiles b @ [f]\<rparr>)
         else if extension = ''json'' then
           Inr (b\<lparr>jsonFiles := jsonFiles b @ [f]\<rparr>)
         else Inr (b\<lparr>otherFiles := otherFiles b @ [f]\<rparr>))"

text \<open>\<^verbatim>\<open>files.forEach\<close>: a throw of the callback ends the loop.\<close>

fun forEachFile :: "'e env \<Rightarrow> buckets \<Rightarrow> path list \<Rightarrow> 'e thrown + buckets" where
  "forEachFile env b [] = Inr b"
| "forEachFile env b (f # files) =
     (case classifyFile env b f of
        Inl e \<Rightarrow> Inl e
      | Inr b' \<Rightarrow> forEachFile env b' files)"

definition getFilesByType :: "'e env \<Rightarrow> path list \<Rightarrow> 'e thrown + path list list" where
  "getFilesByType env files =
     (case forEachFile env noFiles files of
        Inl e \<Rightarrow> Inl e
      | Inr b \<Rightarrow>
          Inr [otherFiles b, moduleFiles b, cssAndJsFiles b, templateFiles b, jsonFiles b])"

subsection \<open>uploadFolder (lines 103-193)\<close>

text \<open>
  Modelled from the spec: \<^verbatim>\<open>escapeRegExp\<close> (\<^verbatim>\<open>./escapeRegExp\<close>) is not among the
  sources. The destination path builder "strips a known source-root prefix from a file
  path", so the pattern \<^verbatim>\<open>new RegExp(`^${escapeRegExp(src)}`)\<close> of line 104 matches the
  text of \<open>src\<close> literally, at the start of the string only. \<open>stripSrc\<close> is
  \<^verbatim>\<open>file.replace(regex, '')\<close> (line 122): the match is removed, and a file that does
  not start with \<open>src\<close> is left as it is.
\<close>

definition stripSrc :: "path \<Rightarrow> path \<Rightarrow> path" where
  "stripSrc src f =
     (if take (length src) f = src then drop (length src) f else f)"

text \<open>
  \<^verbatim>\<open>uploadFile\<close> (lines 121-150) computes \<open>destPath\<close> when the task is built and returns
  the task closure, which holds \<open>file\<close> and \<open>destPath\<close>.
\<close>

definition uploadFile :: "'e env \<Rightarrow> path \<Rightarrow> path \<Rightarrow> path \<Rightarrow> uploadTask" where
  "uploadFile env src dest f =
     (let relativePath = stripSrc src f;
          destPath = convertToUnixPath env (pathJoin env dest relativePath)
      in (f, destPath))"

text \<open>
  What the queue does is observed as a list of events: a task is \<open>Submitted\<close> when
  \<^verbatim>\<open>queue.addAll\<close> adds it, and \<open>Settled\<close>, with the reply of \<^verbatim>\<open>upload\<close>, when the
  \<^verbatim>\<open>await\<close> of line 128 or 163 returns or throws. \<open>Batch i\<close> is the iteration \<open>i\<close> of the
  loop of lines 153-156, \<open>RetryBatch\<close> the \<^verbatim>\<open>addAll\<close> of line 158.
\<close>

datatype phase = Batch nat | RetryBatch

datatype 'e event =
  Submitted phase uploadTask
| Settled phase uploadTask "'e option"

text \<open>The state of a run: the \<^verbatim>\<open>failures\<close> array (line 119) and the events so far.\<close>

record 'e pipeline =
  failures :: "uploadTask list"
  events :: "'e event list"

definition record_event :: "'e event \<Rightarrow> 'e pipeline \<Rightarrow> 'e pipeline" where
  "record_event ev st = st\<lparr>events := events st @ [ev]\<rparr>"

text \<open>
  The tasks of a main batch (lines 125-149), in the order in which they settle. A
  resolved upload leaves nothing behind; a fatal error is rethrown (line 132), which
  rejects the promise of \<^verbatim>\<open>addAll\<close> and so ends the \<^verbatim>\<open>await\<close> of line 155 with that
  error; any other error pushes the task onto \<^verbatim>\<open>failures\<close> (line 144) and the task
  resolves. The result is the state and the error thrown, if any. Once
  \<^verbatim>\<open>uploadFolder\<close> has thrown, the tasks of the batch that are still in the queue go
  on, but nothing they do reaches the caller: the events end with the fatal reply.
\<close>

fun settleMain ::
  "'e env \<Rightarrow> phase \<Rightarrow> uploadTask list \<Rightarrow> 'e pipeline \<Rightarrow> 'e pipeline \<times> 'e option" where
  "settleMain env ph [] st = (st, None)"
| "settleMain env ph (t # ts) st =
     (case upload env First (fst t) (snd t) of
        None \<Rightarrow> settleMain env ph ts (record_event (Settled ph t None) st)
      | Some err \<Rightarrow>
          if isFatalError env err
          then (record_event (Settled ph t (Some err)) st, Some err)
          else settleMain env ph ts
                 (record_event (Settled ph t (Some err))
                    (st\<lparr>failures := failures st @ [t]\<rparr>)))"

text \<open>
  \<^verbatim>\<open>await queue.addAll(filesToUpload.map(uploadFile))\<close> (line 155): every task is built
  and added, then the tasks settle.
\<close>

definition settleOrder :: "'e env \<Rightarrow> attempt \<Rightarrow> uploadTask list \<Rightarrow> uploadTask list" where
  "settleOrder env a tasks = sort_key (\<lambda>t. settledAt env a (fst t) (snd t)) tasks"

definition addAllMain ::
  "'e env \<Rightarrow> path \<Rightarrow> path \<Rightarrow> nat \<Rightarrow> path list \<Rightarrow> 'e pipeline \<Rightarrow> 'e pipeline \<times> 'e option" where
  "addAllMain env src dest i filesToUpload st =
     (let tasks = map (uploadFile env src dest) filesToUpload;
          st1 = st\<lparr>events := events st @ map (Submitted (Batch i)) tasks\<rparr>
      in settleMain env (Batch i) (settleOrder env First tasks) st1)"

text \<open>The loop of lines 153-156 from index \<open>i\<close> on, over the remaining arrays.\<close>

fun mainLoop ::
  "'e env \<Rightarrow> path \<Rightarrow> path \<Rightarrow> nat \<Rightarrow> path list list \<Rightarrow> 'e pipeline \<Rightarrow> 'e pipeline \<times> 'e option" where
  "mainLoop env src dest i [] st = (st, None)"
| "mainLoop env src dest i (filesToUpload # rest) st =
     (case addAllMain env src dest i filesToUpload st of
        (st', Some err) \<Rightarrow> (st', Some err)
      | (st', None) \<Rightarrow> mainLoop env src dest (Suc i) rest st')"

text \<open>
  The retry tasks (lines 160-189), in the order in which they settle: a fatal error is
  rethrown (line 173) and ends the \<^verbatim>\<open>await\<close> of line 158.
\<close>

fun settleRetry ::
  "'e env \<Rightarrow> uploadTask list \<Rightarrow> 'e pipeline \<Rightarrow> 'e pipeline \<times> 'e option" where
  "settleRetry env [] st = (st, None)"
| "settleRetry env (t # ts) st =
     (case upload env Retry (fst t) (snd t) of
        None \<Rightarrow> settleRetry env ts (record_event (Settled RetryBatch t None) st)
      | Some err \<Rightarrow>
          if isFatalError env err
          then (record_event (Settled RetryBatch t (Some err)) st, Some err)
          else settleRetry env ts (record_event (Settled RetryBatch t (Some err)) st))"

text \<open>The value a retry task returns when it does not throw (lines 165-169, 183-187).\<close>

definition retryResult :: "'e env \<Rightarrow> uploadTask \<Rightarrow> 'e uploadResult" where
  "retryResult env t =
     (case upload env Retry (fst t) (snd t) of
        None \<Rightarrow> \<lparr>resultType = SUCCESS, error = None, file = fst t\<rparr>
      | Some err \<Rightarrow> \<lparr>resultType = FAILURE, error = Some err, file = fst t\<rparr>)"

text \<open>
  \<^verbatim>\<open>await queue.addAll(failures.map(...))\<close> (lines 158-191): \<^verbatim>\<open>addAll\<close> is a
  \<^verbatim>\<open>Promise.all\<close>, so the results come in the order of \<^verbatim>\<open>failures\<close>, whatever the
  order in which the tasks settle.
\<close>

definition addAllRetry ::
  "'e env \<Rightarrow> 'e pipeline \<Rightarrow> 'e pipeline \<times> ('e thrown + 'e uploadResult list)" where
  "addAllRetry env st =
     (let tasks = failures st;
          st1 = st\<lparr>events := events st @ map (Submitted RetryBatch) tasks\<rparr>
      in case settleRetry env (settleOrder env Retry tasks) st1 of
           (st2, Some err) \<Rightarrow> (st2, Inl (UploadError err))
         | (st2, None) \<Rightarrow> (st2, Inr (map (retryResult env) tasks)))"

text \<open>Lines 107-114.\<close>

definition allowedFiles :: "'e env \<Rightarrow> path list \<Rightarrow> path list" where
  "allowedFiles env files =
     filter (createIgnoreFilter env) (filter (\<lambda>f. isAllowedExtension env f) files)"

text \<open>
  \<^verbatim>\<open>uploadFolder\<close>: the events of the run, and the error thrown or the array returned.
\<close>

definition uploadFolder ::
  "'e env \<Rightarrow> path \<Rightarrow> path \<Rightarrow> 'e event list \<times> ('e thrown + 'e uploadResult list)" where
  "uploadFolder env src dest =
     (case walk env src of
        Inl e \<Rightarrow> ([], Inl (WalkError e))
      | Inr files \<Rightarrow>
          (case getFilesByType env (allowedFiles env files) of
             Inl e \<Rightarrow> ([], Inl e)
           | Inr filesByType \<Rightarrow>
               (case mainLoop env src dest 0 filesByType \<lparr>failures = [], events = []\<rparr> of
                  (st, Some err) \<Rightarrow> (events st, Inl (UploadError err))
                | (st, None) \<Rightarrow>
                    (case addAllRetry env st of (st', r) \<Rightarrow> (events st', r)))))"

subsection \<open>hasUploadErrors (lines 195-199)\<close>

definition hasUploadErrors :: "'e uploadResult list \<Rightarrow> bool" where
  "hasUploadErrors results =
     list_ex (\<lambda>result. resultType result = FAILURE) results"

section \<open>Notions used to state and prove the properties\<close>

text \<open>The reply to attempt \<open>a\<close> of task \<open>t\<close>, as the \<^verbatim>\<open>catch\<close> blocks judge it.\<close>

definition fatalReply :: "'e env \<Rightarrow> attempt \<Rightarrow> uploadTask \<Rightarrow> bool" where
  "fatalReply env a t =
     (case upload env a (fst t) (snd t) of None \<Rightarrow> False | Some err \<Rightarrow> isFatalError env err)"

definition transientReply :: "'e env \<Rightarrow> attempt \<Rightarrow> uploadTask \<Rightarrow> bool" where
  "transientReply env a t =
     (case upload env a (fst t) (snd t) of None \<Rightarrow> False | Some err \<Rightarrow> \<not> isFatalError env err)"

text \<open>The event that records the settling of attempt \<open>a\<close> of task \<open>t\<close> in phase \<open>ph\<close>.\<close>

definition settled :: "'e env \<Rightarrow> phase \<Rightarrow> attempt \<Rightarrow> uploadTask \<Rightarrow> 'e event" where
  "settled env ph a t = Settled ph t (upload env a (fst t) (snd t))"

definition taskOf :: "'e event \<Rightarrow> uploadTask" where
  "taskOf ev = (case ev of Submitted ph t \<Rightarrow> t | Settled ph t r \<Rightarrow> t)"

text \<open>The tasks added to the queue by the main loop, and by the retry, in order.\<close>

definition mainSubmitted :: "'e event list \<Rightarrow> uploadTask list" where
  "mainSubmitted tr =
     concat (map (\<lambda>ev. case ev of Submitted (Batch k) t \<Rightarrow> [t] | _ \<Rightarrow> []) tr)"

definition retrySubmitted :: "'e event list \<Rightarrow> uploadTask list" where
  "retrySubmitted tr =
     concat (map (\<lambda>ev. case ev of Submitted RetryBatch t \<Rightarrow> [t] | _ \<Rightarrow> []) tr)"

text \<open>How many tasks a run created for the file \<open>f\<close>, in the main loop and in the retry.\<close>

definition mainTasksFor :: "'e event list \<Rightarrow> path \<Rightarrow> nat" where
  "mainTasksFor tr f = length (filter (\<lambda>t. fst t = f) (mainSubmitted tr))"

definition retryTasksFor :: "'e event list \<Rightarrow> path \<Rightarrow> nat" where
  "retryTasksFor tr f = length (filter (\<lambda>t. fst t = f) (retrySubmitted tr))"

text \<open>
  The \<^verbatim>\<open>failures\<close> array after a main loop that did not throw: the tasks whose
  first attempt failed without being fatal, batch after batch, each batch in the order
  in which its tasks settled.
\<close>

definition firstFailures :: "'e env \<Rightarrow> path \<Rightarrow> path \<Rightarrow> path list list \<Rightarrow> uploadTask list" where
  "firstFailures env src dest filesByType =
     concat (map (\<lambda>b. filter (transientReply env First)
       (settleOrder env First (map (uploadFile env src dest) b))) filesByType)"

text \<open>
  \<open>drained \<dots> k tr\<close>: in the events \<open>tr\<close>, every task of the arrays before index \<open>k\<close>
  has been submitted and has resolved (its upload succeeded, or failed with an error
  that is not fatal).
\<close>

definition drained ::
  "'e env \<Rightarrow> path \<Rightarrow> path \<Rightarrow> path list list \<Rightarrow> nat \<Rightarrow> 'e event list \<Rightarrow> bool" where
  "drained env src dest filesByType k tr =
     (\<forall>j<k. \<forall>f\<in>set (filesByType ! j).
        Submitted (Batch j) (uploadFile env src dest f) \<in> set tr
        \<and> settled env (Batch j) First (uploadFile env src dest f) \<in> set tr
        \<and> \<not> fatalReply env First (uploadFile env src dest f))"

text \<open>
  \<open>permitted \<dots> pre ev\<close>: the event \<open>ev\<close> may follow the events \<open>pre\<close>. A task of array
  \<open>k\<close> is submitted only once the arrays before \<open>k\<close> are drained, a retry only once all
  arrays are. \<open>ordered\<close>: every event of a trace is permitted after those before it.
\<close>

definition permitted ::
  "'e env \<Rightarrow> path \<Rightarrow> path \<Rightarrow> path list list \<Rightarrow> 'e event list \<Rightarrow> 'e event \<Rightarrow> bool" where
  "permitted env src dest filesByType pre ev =
     (case ev of
        Settled ph t r \<Rightarrow> True
      | Submitted (Batch k) t \<Rightarrow>
          k < length filesByType \<and> t \<in> uploadFile env src dest ` set (filesByType ! k)
          \<and> drained env src dest filesByType k pre
      | Submitted RetryBatch t \<Rightarrow>
          drained env src dest filesByType (length filesByType) pre)"

definition ordered ::
  "'e env \<Rightarrow> path \<Rightarrow> path \<Rightarrow> path list list \<Rightarrow> 'e event list \<Rightarrow> bool" where
  "ordered env src dest filesByType tr =
     (\<forall>pre ev post. tr = pre @ ev # post \<longrightarrow> permitted env src dest filesByType pre ev)"

text \<open>
  The arrays in the order of line 94, and what the callback of \<^verbatim>\<open>forEach\<close> pushes onto
  array \<open>k\<close> for one file (nothing when it throws).
\<close>

definition bucketList :: "buckets \<Rightarrow> path list list" where
  "bucketList b = [otherFiles b, moduleFiles b, cssAndJsFiles b, templateFiles b, jsonFiles b]"

definition contrib :: "'e env \<Rightarrow> nat \<Rightarrow> path \<Rightarrow> path list" where
  "contrib env k f =
     (case classifyFile env noFiles f of Inl e \<Rightarrow> [] | Inr b \<Rightarrow> bucketList b ! k)"

text \<open>
  \<open>convertedFrom env files p\<close>: the path \<open>p\<close> is what \<^verbatim>\<open>convertFieldsJs\<close> returned at
  line 58 for one of \<open>files\<close>, that is for a file of a module folder named
  \<^verbatim>\<open>fields.js\<close>.
\<close>

definition convertedFrom :: "'e env \<Rightarrow> path list \<Rightarrow> path \<Rightarrow> bool" where
  "convertedFrom env files p =
     (\<exists>g\<in>set files. moduleFolder env g \<noteq> None \<and> last (splitLocalPath env g) = ''fields.js''
        \<and> convertFieldsJs env g = Inr p)"

text \<open>How often the callback pushes the path \<open>f\<close>, over the five arrays, for \<open>files\<close>.\<close>

definition occurrences :: "'e env \<Rightarrow> path \<Rightarrow> path list \<Rightarrow> nat" where
  "occurrences env f files =
     length (filter (\<lambda>p. p = f) (concat (map (contrib env 0) files)))
   + length (filter (\<lambda>p. p = f) (concat (map (contrib env 1) files)))
   + length (filter (\<lambda>p. p = f) (concat (map (contrib env 2) files)))
   + length (filter (\<lambda>p. p = f) (concat (map (contrib env 3) files)))
   + length (filter (\<lambda>p. p = f) (concat (map (contrib env 4) files)))"

section \<open>A host and a tree for the worked examples\<close>

text \<open>
  The examples run the pipeline on a host whose path separator is \<open>sep\<close>: \<open>CHR ''/''\<close>
  for POSIX, the backslash \<open>CHR 0x5C\<close> for Windows. The helpers below stand for the
  collaborators on the paths of the examples: paths are split at the separator, the
  extension is the text after the last dot of the file name, \<^verbatim>\<open>path.join\<close> inserts a
  separator unless the second path starts with one, \<^verbatim>\<open>convertToUnixPath\<close> replaces
  backslashes by slashes, and \<^verbatim>\<open>convertFieldsJs\<close> writes its artifact to the
  \<^verbatim>\<open>fields.json\<close> beside the \<^verbatim>\<open>fields.js\<close> (the destination that line 55 logs) and
  returns that path.
\<close>

fun splitOn :: "char \<Rightarrow> string \<Rightarrow> string list" where
  "splitOn c [] = [[]]"
| "splitOn c (x # xs) =
     (case splitOn c xs of
        [] \<Rightarrow> [[x]]
      | p # ps \<Rightarrow> if x = c then [] # p # ps else (x # p) # ps)"

definition joinWith :: "char \<Rightarrow> string list \<Rightarrow> string" where
  "joinWith c ps = (case ps of [] \<Rightarrow> [] | p # qs \<Rightarrow> foldl (\<lambda>acc q. acc @ c # q) p qs)"

definition hostExt :: "char \<Rightarrow> path \<Rightarrow> string" where
  "hostExt sep p =
     (let segs = splitOn CHR ''.'' (last (splitOn sep p))
      in if length segs < 2 then [] else last segs)"

definition hostDirname :: "char \<Rightarrow> path \<Rightarrow> path" where
  "hostDirname sep p = joinWith sep (butlast (splitOn sep p))"

definition hostJoin :: "char \<Rightarrow> path \<Rightarrow> path \<Rightarrow> path" where
  "hostJoin sep a b = (if take 1 b = [sep] then a @ b else a @ sep # b)"

text \<open>
  The host over the files \<open>tree\<close>: every upload succeeds at once, nothing is ignored,
  and an error is fatal when it is the status \<open>''403''\<close>. The examples change single
  fields of this record.
\<close>

definition hostEnv :: "char \<Rightarrow> path list \<Rightarrow> string env" where
  "hostEnv sep tree =
     \<lparr>walk = (\<lambda>src. Inr tree),
      isAllowedExtension =
        (\<lambda>p. hostExt sep p \<in> set [''css'', ''js'', ''json'', ''html'', ''txt'']),
      createIgnoreFilter = (\<lambda>p. True),
      splitLocalPath = splitOn sep,
      getExt = hostExt sep,
      convertFieldsJs = (\<lambda>p. Inr (hostJoin sep (hostDirname sep p) ''fields.json'')),
      dirname = hostDirname sep,
      readdirSync =
        (\<lambda>d. Inr (map (\<lambda>p. \<lparr>name = last (splitOn sep p), isDirectory = False\<rparr>)
                    (filter (\<lambda>p. hostDirname sep p = d) tree))),
      pathJoin = hostJoin sep,
      convertToUnixPath = map (\<lambda>c. if c = CHR 0x5C then CHR ''/'' else c),
      upload = (\<lambda>a p d. None),
      settledAt = (\<lambda>a p d. 0),
      isFatalError = (\<lambda>e. e = ''403'')\<rparr>"

text \<open>The tree of the scenarios of the specification, under the source root \<open>src\<close>.\<close>

definition scenarioTree :: "path list" where
  "scenarioTree =
     [''src/a.js'', ''src/b.module/meta.json'', ''src/b.module/fields.js'',
      ''src/b.module/fields.json'', ''src/c.html'']"

text \<open>A bundle with a style sheet, a stray JSON file and a static \<^verbatim>\<open>fields.json\<close> only.\<close>

definition staticTree :: "path list" where
  "staticTree =
     [''src/m.module/fields.json'', ''src/m.module/extra.json'', ''src/m.module/module.css'']"

text \<open>The same bundle as in the scenarios, on a Windows host.\<close>

definition windowsTree :: "path list" where
  "windowsTree =
     [''C:'' @ [CHR 0x5C] @ ''site'' @ [CHR 0x5C] @ ''a.js'',
      ''C:'' @ [CHR 0x5C] @ ''site'' @ [CHR 0x5C] @ ''b.module'' @ [CHR 0x5C] @ ''meta.json'']"

text \<open>
  Remote stores: \<open>failsOnce p\<close> rejects the first attempt at \<open>p\<close> with a server error,
  \<open>failsTwice p\<close> both attempts, \<open>forbids p\<close> rejects every attempt at \<open>p\<close> with the
  fatal status.
\<close>

definition failsOnce :: "path \<Rightarrow> attempt \<Rightarrow> path \<Rightarrow> path \<Rightarrow> string option" where
  "failsOnce p a f d = (if f = p \<and> a = First then Some ''500'' else None)"

definition failsTwice :: "path \<Rightarrow> attempt \<Rightarrow> path \<Rightarrow> path \<Rightarrow> string option" where
  "failsTwice p a f d = (if f = p then Some ''500'' else None)"

definition forbids :: "path \<Rightarrow> attempt \<Rightarrow> path \<Rightarrow> path \<Rightarrow> string option" where
  "forbids p a f d = (if f = p then Some ''403'' else None)"

text \<open>
  The hosts of the examples: the scenario tree with a remote store that accepts
  everything; the same with a first attempt at \<^verbatim>\<open>a.js\<close> that fails; the bundle with a
  static \<^verbatim>\<open>fields.json\<close> only; the scenario tree with an ignore rule for the bundle's
  \<^verbatim>\<open>fields.js\<close>, and with one for its \<^verbatim>\<open>fields.json\<close>; the Windows host.
\<close>

definition scenarioEnv :: "string env" where
  "scenarioEnv = hostEnv CHR ''/'' scenarioTree"

definition retriedEnv :: "string env" where
  "retriedEnv = (hostEnv CHR ''/'' scenarioTree)\<lparr>upload := failsOnce ''src/a.js''\<rparr>"

definition staticEnv :: "string env" where
  "staticEnv = hostEnv CHR ''/'' staticTree"

definition ignoredJsEnv :: "string env" where
  "ignoredJsEnv = (hostEnv CHR ''/'' scenarioTree)
     \<lparr>createIgnoreFilter := (\<lambda>p. p \<noteq> ''src/b.module/fields.js'')\<rparr>"

definition ignoredJsonEnv :: "string env" where
  "ignoredJsonEnv = (hostEnv CHR ''/'' scenarioTree)
     \<lparr>createIgnoreFilter := (\<lambda>p. p \<noteq> ''src/b.module/fields.json'')\<rparr>"

definition windowsEnv :: "string env" where
  "windowsEnv = hostEnv (CHR 0x5C) windowsTree"

text \<open>
  More hosts on the scenario tree: both attempts at \<^verbatim>\<open>a.js\<close> fail with a server
  error; every attempt at \<^verbatim>\<open>c.html\<close> is forbidden; the first attempt at \<^verbatim>\<open>a.js\<close>
  fails with a server error and its retry is forbidden; \<^verbatim>\<open>convertFieldsJs\<close> fails on
  a malformed \<^verbatim>\<open>fields.js\<close>. And the host of a tree whose only file is a JSON file of
  a module folder that is neither \<^verbatim>\<open>meta.json\<close> nor \<^verbatim>\<open>fields.json\<close>.
\<close>

definition failedEnv :: "string env" where
  "failedEnv = (hostEnv CHR ''/'' scenarioTree)\<lparr>upload := failsTwice ''src/a.js''\<rparr>"

definition forbiddenEnv :: "string env" where
  "forbiddenEnv = (hostEnv CHR ''/'' scenarioTree)\<lparr>upload := forbids ''src/c.html''\<rparr>"

definition forbiddenRetryEnv :: "string env" where
  "forbiddenRetryEnv = (hostEnv CHR ''/'' scenarioTree)
     \<lparr>upload := (\<lambda>a f d. if f = ''src/a.js''
                           then (if a = First then Some ''500'' else Some ''403'') else None)\<rparr>"

definition malformedEnv :: "string env" where
  "malformedEnv = (hostEnv CHR ''/'' scenarioTree)
     \<lparr>convertFieldsJs := (\<lambda>p. Inl ''fields.js is malformed'')\<rparr>"

definition strayEnv :: "string env" where
  "strayEnv = hostEnv CHR ''/'' [''src/m.module/extra.json'']"

text \<open>
  The scenario with a first attempt at \<^verbatim>\<open>a.js\<close> that fails, where the upload of
  \<^verbatim>\<open>meta.json\<close> takes longer than the others: in the batch of the module files the
  task submitted first settles last.
\<close>

definition racingEnv :: "string env" where
  "racingEnv = (hostEnv CHR ''/'' scenarioTree)
     \<lparr>upload := failsOnce ''src/a.js'',
      settledAt := (\<lambda>a f d. if f = ''src/b.module/meta.json'' then 2 else 1)\<rparr>"

section \<open>Lemmas\<close>

subsection \<open>The classifier\<close>

lemma moduleFolder_iff:
  "(moduleFolder env f \<noteq> None) = (\<exists>part\<in>set (splitLocalPath env f). endsWith part ''.module'')"
  by (auto simp: moduleFolder_def find_None_iff)

lemma classifyFile_contrib:
  assumes "classifyFile env b f = Inr b'"
  shows "otherFiles b' = otherFiles b @ contrib env 0 f"
    and "moduleFiles b' = moduleFiles b @ contrib env (Suc 0) f"
    and "cssAndJsFiles b' = cssAndJsFiles b @ contrib env 2 f"
    and "templateFiles b' = templateFiles b @ contrib env 3 f"
    and "jsonFiles b' = jsonFiles b @ contrib env 4 f"
  using assms
  unfolding classifyFile_def contrib_def bucketList_def noFiles_def Let_def
  by (auto split: if_splits sum.splits)

lemma classifyFile_throws_indep:
  "classifyFile env b f = Inl e \<Longrightarrow> classifyFile env b' f = Inl e"
  unfolding classifyFile_def Let_def
  by (auto split: if_splits sum.splits)

lemma forEachFile_contrib:
  assumes "forEachFile env b files = Inr b'"
  shows "otherFiles b' = otherFiles b @ concat (map (contrib env 0) files)
       \<and> moduleFiles b' = moduleFiles b @ concat (map (contrib env (Suc 0)) files)
       \<and> cssAndJsFiles b' = cssAndJsFiles b @ concat (map (contrib env 2) files)
       \<and> templateFiles b' = templateFiles b @ concat (map (contrib env 3) files)
       \<and> jsonFiles b' = jsonFiles b @ concat (map (contrib env 4) files)"
  using assms
proof (induction files arbitrary: b)
  case Nil
  then show ?case by simp
next
  case (Cons f files)
  from Cons.prems obtain b1 where b1: "classifyFile env b f = Inr b1"
    and rest: "forEachFile env b1 files = Inr b'"
    by (auto split: sum.splits)
  from Cons.IH [OF rest] classifyFile_contrib [OF b1] show ?case by simp
qed

lemma forEachFile_no_throw:
  assumes "forEachFile env b files = Inr b'" and "f \<in> set files"
  shows "\<exists>b1. classifyFile env noFiles f = Inr b1"
  using assms
proof (induction files arbitrary: b)
  case Nil
  then show ?case by simp
next
  case (Cons g files)
  from Cons.prems obtain b1 where b1: "classifyFile env b g = Inr b1"
    and rest: "forEachFile env b1 files = Inr b'"
    by (auto split: sum.splits)
  show ?case
  proof (cases "f = g")
    case True
    show ?thesis
    proof (cases "classifyFile env noFiles f")
      case (Inl e)
      from classifyFile_throws_indep [OF this, of b] b1 True show ?thesis by simp
    next
      case (Inr b2)
      then show ?thesis by blast
    qed
  next
    case False
    with Cons.prems have "f \<in> set files" by simp
    from Cons.IH [OF rest this] show ?thesis .
  qed
qed

lemma forEachFile_throws:
  assumes "f \<in> set files" and "classifyFile env noFiles f = Inl e"
  shows "\<exists>e'. forEachFile env b files = Inl e'"
proof (cases "forEachFile env b files")
  case (Inl e')
  then show ?thesis by blast
next
  case (Inr b')
  from forEachFile_no_throw [OF Inr assms(1)] assms(2) show ?thesis by simp
qed

lemma getFilesByType_contrib:
  assumes "getFilesByType env files = Inr filesByType"
  shows "filesByType = map (\<lambda>k. concat (map (contrib env k) files)) [0, 1, 2, 3, 4]"
proof -
  from assms obtain b where b: "forEachFile env noFiles files = Inr b"
    and fb: "filesByType = [otherFiles b, moduleFiles b, cssAndJsFiles b, templateFiles b, jsonFiles b]"
    by (auto simp: getFilesByType_def split: sum.splits)
  from forEachFile_contrib [OF b] fb show ?thesis by (simp add: noFiles_def)
qed

lemma getFilesByType_length:
  "getFilesByType env files = Inr filesByType \<Longrightarrow> length filesByType = 5"
  by (auto simp: getFilesByType_def split: sum.splits)

lemma getFilesByType_no_throw:
  assumes "getFilesByType env files = Inr filesByType" and "f \<in> set files"
  shows "\<exists>b1. classifyFile env noFiles f = Inr b1"
proof -
  from assms(1) obtain b where "forEachFile env noFiles files = Inr b"
    by (auto simp: getFilesByType_def split: sum.splits)
  from forEachFile_no_throw [OF this assms(2)] show ?thesis .
qed

text \<open>What one file contributes.\<close>

lemma contrib_module_other:
  assumes "moduleFolder env f \<noteq> None"
  shows "contrib env 0 f = []" and "contrib env 2 f = []" and "contrib env 3 f = []" and "contrib env 4 f = []"
  using assms
  unfolding classifyFile_def contrib_def bucketList_def noFiles_def Let_def
  by (auto split: if_splits sum.splits)

lemma contrib_not_module:
  assumes "moduleFolder env f = None"
  shows "contrib env (Suc 0) f = []"
    and "contrib env 0 f = (if getExt env f \<in> {''js'', ''css'', ''html'', ''json''} then [] else [f])"
    and "contrib env 2 f = (if getExt env f \<in> {''js'', ''css''} then [f] else [])"
    and "contrib env 3 f = (if getExt env f = ''html'' then [f] else [])"
    and "contrib env 4 f = (if getExt env f = ''json'' then [f] else [])"
  using assms
  unfolding classifyFile_def contrib_def bucketList_def noFiles_def Let_def
  by (auto split: if_splits sum.splits)

lemma contrib_subset:
  "k < 5 \<Longrightarrow> g \<in> set (contrib env k f) \<Longrightarrow>
     g = f \<or> (moduleFolder env f \<noteq> None \<and> last (splitLocalPath env f) = ''fields.js''
               \<and> convertFieldsJs env f = Inr g \<and> k = 1)"
  unfolding classifyFile_def contrib_def bucketList_def noFiles_def Let_def
  by (auto split: if_splits sum.splits simp: nth_Cons' less_Suc_eq numeral_eq_Suc)

subsection \<open>The tasks of one batch\<close>

lemma settleMain_events:
  "settleMain env ph ts st = (st', r) \<Longrightarrow>
     \<exists>ts1 ts2. ts = ts1 @ ts2 \<and> events st' = events st @ map (settled env ph First) ts1
        \<and> (r = None \<longrightarrow> ts2 = [])"
proof (induction ts arbitrary: st)
  case Nil
  then show ?case by simp
next
  case (Cons t ts)
  show ?case
  proof (cases "fatalReply env First t")
    case True
    then obtain err where "upload env First (fst t) (snd t) = Some err" "isFatalError env err"
      by (auto simp: fatalReply_def split: option.splits)
    with Cons.prems have "st' = record_event (Settled ph t (Some err)) st" and r: "r = Some err"
      by auto
    with \<open>upload env First (fst t) (snd t) = Some err\<close>
    have "events st' = events st @ map (settled env ph First) [t]" and "r \<noteq> None"
      by (simp_all add: record_event_def settled_def)
    then show ?thesis by (metis append_Cons append_Nil)
  next
    case False
    define st1 where "st1 = (if transientReply env First t
       then record_event (settled env ph First t) (st\<lparr>failures := failures st @ [t]\<rparr>)
       else record_event (settled env ph First t) st)"
    from False Cons.prems have "settleMain env ph ts st1 = (st', r)"
      by (auto simp: st1_def fatalReply_def transientReply_def settled_def split: option.splits)
    from Cons.IH [OF this] obtain ts1 ts2 where
      "ts = ts1 @ ts2" "events st' = events st1 @ map (settled env ph First) ts1" "r = None \<longrightarrow> ts2 = []"
      by blast
    moreover have "events st1 = events st @ [settled env ph First t]"
      by (simp add: st1_def record_event_def)
    ultimately have "t # ts = (t # ts1) @ ts2 \<and>
        events st' = events st @ map (settled env ph First) (t # ts1) \<and> (r = None \<longrightarrow> ts2 = [])"
      by simp
    then show ?thesis by blast
  qed
qed

lemma settleMain_failures:
  "settleMain env ph ts st = (st', None) \<Longrightarrow>
     failures st' = failures st @ filter (transientReply env First) ts"
proof (induction ts arbitrary: st)
  case Nil
  then show ?case by simp
next
  case (Cons t ts)
  then show ?case
    by (auto simp: transientReply_def record_event_def split: option.splits if_splits)
qed

lemma settleMain_None_iff:
  "(snd (settleMain env ph ts st) = None) = (\<forall>t\<in>set ts. \<not> fatalReply env First t)"
  by (induction ts arbitrary: st) (auto simp: fatalReply_def split: option.splits)

lemma settleMain_Some:
  "settleMain env ph ts st = (st', Some err) \<Longrightarrow>
     isFatalError env err \<and> (\<exists>t\<in>set ts. upload env First (fst t) (snd t) = Some err)"
  by (induction ts arbitrary: st) (auto split: option.splits if_splits)

lemma settleRetry_events:
  "settleRetry env ts st = (st', r) \<Longrightarrow>
     failures st' = failures st \<and>
     (\<exists>ts1 ts2. ts = ts1 @ ts2 \<and> events st' = events st @ map (settled env RetryBatch Retry) ts1
        \<and> (r = None \<longrightarrow> ts2 = []))"
proof (induction ts arbitrary: st)
  case Nil
  then show ?case by simp
next
  case (Cons t ts)
  show ?case
  proof (cases "fatalReply env Retry t")
    case True
    then obtain err where "upload env Retry (fst t) (snd t) = Some err" "isFatalError env err"
      by (auto simp: fatalReply_def split: option.splits)
    with Cons.prems have "st' = record_event (Settled RetryBatch t (Some err)) st" and r: "r = Some err"
      by auto
    with \<open>upload env Retry (fst t) (snd t) = Some err\<close>
    have "events st' = events st @ map (settled env RetryBatch Retry) [t]"
      and "r \<noteq> None" and "failures st' = failures st"
      by (simp_all add: record_event_def settled_def)
    then show ?thesis by (metis append_Cons append_Nil)
  next
    case False
    define st1 where "st1 = record_event (settled env RetryBatch Retry t) st"
    from False Cons.prems have "settleRetry env ts st1 = (st', r)"
      by (auto simp: st1_def fatalReply_def settled_def split: option.splits)
    from Cons.IH [OF this] obtain ts1 ts2 where
      "failures st' = failures st1"
      "ts = ts1 @ ts2" "events st' = events st1 @ map (settled env RetryBatch Retry) ts1"
      "r = None \<longrightarrow> ts2 = []"
      by blast
    moreover have "events st1 = events st @ [settled env RetryBatch Retry t]"
      and "failures st1 = failures st"
      by (simp_all add: st1_def record_event_def)
    ultimately have "failures st' = failures st \<and> t # ts = (t # ts1) @ ts2 \<and>
        events st' = events st @ map (settled env RetryBatch Retry) (t # ts1) \<and> (r = None \<longrightarrow> ts2 = [])"
      by simp
    then show ?thesis by blast
  qed
qed

lemma settleRetry_None_iff:
  "(snd (settleRetry env ts st) = None) = (\<forall>t\<in>set ts. \<not> fatalReply env Retry t)"
  by (induction ts arbitrary: st) (auto simp: fatalReply_def split: option.splits)

lemma settleRetry_Some:
  "settleRetry env ts st = (st', Some err) \<Longrightarrow>
     isFatalError env err \<and> (\<exists>t\<in>set ts. upload env Retry (fst t) (snd t) = Some err)"
  by (induction ts arbitrary: st) (auto split: option.splits if_splits)

lemma set_settleOrder [simp]: "set (settleOrder env a ts) = set ts"
  by (simp add: settleOrder_def)

lemma distinct_settleOrder [simp]: "distinct (settleOrder env a ts) = distinct ts"
  by (simp add: settleOrder_def)

lemma filter_settleOrder:
  "filter P (settleOrder env a ts) = settleOrder env a (filter P ts)"
  by (simp add: settleOrder_def filter_sort)

subsection \<open>The barrier between batches\<close>

lemma drained_mono:
  "drained env src dest bs k tr \<Longrightarrow> set tr \<subseteq> set tr' \<Longrightarrow> drained env src dest bs k tr'"
  unfolding drained_def by blast

lemma ordered_append:
  "ordered env src dest bs (xs @ ys) =
     (ordered env src dest bs xs \<and>
      (\<forall>pre ev post. ys = pre @ ev # post \<longrightarrow> permitted env src dest bs (xs @ pre) ev))"
proof (intro iffI conjI allI impI)
  assume o: "ordered env src dest bs (xs @ ys)"
  show "ordered env src dest bs xs"
    unfolding ordered_def
  proof (intro allI impI)
    fix pre ev post assume "xs = pre @ ev # post"
    then have "xs @ ys = pre @ ev # (post @ ys)" by simp
    with o show "permitted env src dest bs pre ev" unfolding ordered_def by blast
  qed
  fix pre ev post assume "ys = pre @ ev # post"
  then have "xs @ ys = (xs @ pre) @ ev # post" by simp
  with o show "permitted env src dest bs (xs @ pre) ev" unfolding ordered_def by blast
next
  assume a: "ordered env src dest bs xs \<and>
      (\<forall>pre ev post. ys = pre @ ev # post \<longrightarrow> permitted env src dest bs (xs @ pre) ev)"
  show "ordered env src dest bs (xs @ ys)"
    unfolding ordered_def
  proof (intro allI impI)
    fix pre ev post assume eq: "xs @ ys = pre @ ev # post"
    then obtain us where "(xs = pre @ us \<and> us @ ys = ev # post) \<or> (xs @ us = pre \<and> ys = us @ ev # post)"
      by (auto simp: append_eq_append_conv2)
    then show "permitted env src dest bs pre ev"
    proof
      assume c: "xs = pre @ us \<and> us @ ys = ev # post"
      show ?thesis
      proof (cases us)
        case Nil
        with c have "ys = [] @ ev # post" "pre = xs" by simp_all
        with a show ?thesis by (metis append_Nil2)
      next
        case (Cons u us')
        with c have "xs = pre @ ev # us'" by simp
        with a show ?thesis unfolding ordered_def by blast
      qed
    next
      assume "xs @ us = pre \<and> ys = us @ ev # post"
      with a show ?thesis by blast
    qed
  qed
qed

lemma ordered_Nil [simp]: "ordered env src dest bs []"
  by (simp add: ordered_def)

lemma addAllMain_events:
  assumes "addAllMain env src dest i b st = (st', r)"
  shows "\<exists>ts1 ts2. settleOrder env First (map (uploadFile env src dest) b) = ts1 @ ts2
           \<and> events st' = events st @ map (Submitted (Batch i)) (map (uploadFile env src dest) b)
                @ map (settled env (Batch i) First) ts1
           \<and> (r = None \<longrightarrow> ts2 = [])"
proof -
  let ?tasks = "map (uploadFile env src dest) b"
  let ?st1 = "st\<lparr>events := events st @ map (Submitted (Batch i)) ?tasks\<rparr>"
  from assms have "settleMain env (Batch i) (settleOrder env First ?tasks) ?st1 = (st', r)"
    by (simp add: addAllMain_def Let_def)
  from settleMain_events [OF this] show ?thesis by simp
qed

lemma addAllMain_failures:
  assumes "addAllMain env src dest i b st = (st', None)"
  shows "failures st' = failures st
           @ filter (transientReply env First) (settleOrder env First (map (uploadFile env src dest) b))"
proof -
  let ?tasks = "map (uploadFile env src dest) b"
  let ?st1 = "st\<lparr>events := events st @ map (Submitted (Batch i)) ?tasks\<rparr>"
  from assms have "settleMain env (Batch i) (settleOrder env First ?tasks) ?st1 = (st', None)"
    by (simp add: addAllMain_def Let_def)
  from settleMain_failures [OF this] show ?thesis by simp
qed

lemma addAllMain_None_iff:
  "(snd (addAllMain env src dest i b st) = None)
     = (\<forall>f\<in>set b. \<not> fatalReply env First (uploadFile env src dest f))"
  by (simp add: addAllMain_def Let_def settleMain_None_iff)

lemma addAllMain_Some:
  assumes "addAllMain env src dest i b st = (st', Some err)"
  shows "isFatalError env err"
proof -
  let ?tasks = "map (uploadFile env src dest) b"
  let ?st1 = "st\<lparr>events := events st @ map (Submitted (Batch i)) ?tasks\<rparr>"
  from assms have "settleMain env (Batch i) (settleOrder env First ?tasks) ?st1 = (st', Some err)"
    by (simp add: addAllMain_def Let_def)
  from settleMain_Some [OF this] show ?thesis by simp
qed

lemma mainLoop_failures:
  "mainLoop env src dest i rest st = (st', None) \<Longrightarrow>
     failures st' = failures st @ concat (map (\<lambda>b. filter (transientReply env First)
       (settleOrder env First (map (uploadFile env src dest) b))) rest)"
proof (induction rest arbitrary: i st)
  case Nil
  then show ?case by simp
next
  case (Cons b rest)
  from Cons.prems obtain st1 where a: "addAllMain env src dest i b st = (st1, None)"
    and l: "mainLoop env src dest (Suc i) rest st1 = (st', None)"
    by (auto split: prod.splits option.splits)
  from Cons.IH [OF l] addAllMain_failures [OF a] show ?case by simp
qed

lemma mainLoop_None_iff:
  "(snd (mainLoop env src dest i rest st) = None)
     = (\<forall>b\<in>set rest. \<forall>f\<in>set b. \<not> fatalReply env First (uploadFile env src dest f))"
proof (induction rest arbitrary: i st)
  case Nil
  then show ?case by simp
next
  case (Cons b rest)
  obtain st1 r1 where a: "addAllMain env src dest i b st = (st1, r1)" by (cases "addAllMain env src dest i b st")
  show ?case
  proof (cases r1)
    case None
    with a addAllMain_None_iff [of env src dest i b st]
    have "\<forall>f\<in>set b. \<not> fatalReply env First (uploadFile env src dest f)" by simp
    with a None Cons.IH [of "Suc i" st1] show ?thesis by simp
  next
    case (Some err)
    with a addAllMain_None_iff [of env src dest i b st]
    have "\<not> (\<forall>f\<in>set b. \<not> fatalReply env First (uploadFile env src dest f))" by simp
    with a Some show ?thesis by auto
  qed
qed

lemma mainLoop_Some:
  "mainLoop env src dest i rest st = (st', Some err) \<Longrightarrow> isFatalError env err"
proof (induction rest arbitrary: i st)
  case Nil
  then show ?case by simp
next
  case (Cons b rest)
  then show ?case
    by (auto split: prod.splits option.splits dest: addAllMain_Some)
qed

lemma mainLoop_ordered:
  assumes "mainLoop (env :: 'e env) src dest i (drop i bs) st = (st', r)"
    and "i \<le> length bs"
    and "drained env src dest bs i (events st)"
    and "ordered env src dest bs (events st)"
  shows "ordered env src dest bs (events st') \<and> (r = None \<longrightarrow> drained env src dest bs (length bs) (events st'))"
  using assms
proof (induction "length bs - i" arbitrary: i st)
  case 0
  then show ?case by simp
next
  case (Suc n)
  then have lt: "i < length bs" by simp
  then have d: "drop i bs = bs ! i # drop (Suc i) bs" by (simp add: Cons_nth_drop_Suc)
  let ?tasks = "map (uploadFile env src dest) (bs ! i)"
  obtain st1 r1 where a: "addAllMain env src dest i (bs ! i) st = (st1, r1)"
    by (cases "addAllMain env src dest i (bs ! i) st")
  from addAllMain_events [OF a] obtain ts1 ts2 where
    so: "settleOrder env First ?tasks = ts1 @ ts2"
    and ev1: "events st1 = events st @ map (Submitted (Batch i)) ?tasks @ map (settled env (Batch i) First) ts1"
    and full: "r1 = None \<longrightarrow> ts2 = []"
    by blast
  have o1: "ordered env src dest bs (events st @ map (Submitted (Batch i)) ?tasks)"
    unfolding ordered_append
  proof (intro conjI allI impI)
    show "ordered env src dest bs (events st)" by (rule Suc.prems(4))
    fix pre :: "'e event list" and ev post
    assume eq: "map (Submitted (Batch i)) ?tasks = pre @ ev # post"
    then have "ev \<in> set (map (Submitted (Batch i)) ?tasks)" by simp
    then obtain f where f: "f \<in> set (bs ! i)" "ev = Submitted (Batch i) (uploadFile env src dest f)"
      by auto
    have "drained env src dest bs i (events st @ pre)"
      by (rule drained_mono [OF Suc.prems(3)]) simp
    with f lt show "permitted env src dest bs (events st @ pre) ev"
      by (simp add: permitted_def)
  qed
  have o2: "ordered env src dest bs (events st1)"
    unfolding ev1 append_assoc [symmetric]
    unfolding ordered_append [where ys = "map (settled env (Batch i) First) ts1"]
  proof (intro conjI allI impI)
    show "ordered env src dest bs (events st @ map (Submitted (Batch i)) ?tasks)" by (rule o1)
    fix pre :: "'e event list" and ev post
    assume "map (settled env (Batch i) First) ts1 = pre @ ev # post"
    then have "ev \<in> set (map (settled env (Batch i) First) ts1)" by simp
    then show "permitted env src dest bs ((events st @ map (Submitted (Batch i)) ?tasks) @ pre) ev"
      by (auto simp: permitted_def settled_def)
  qed
  show ?case
  proof (cases r1)
    case (Some err)
    with a d Suc.prems(1) have "st' = st1" "r = Some err" by auto
    with o2 show ?thesis by simp
  next
    case None
    with a d Suc.prems(1) have l: "mainLoop env src dest (Suc i) (drop (Suc i) bs) st1 = (st', r)"
      by simp
    from None full so have ts1: "set ts1 = set ?tasks"
      by (metis append_Nil2 set_settleOrder)
    from None a addAllMain_None_iff [of env src dest i "bs ! i" st]
    have nofatal: "\<forall>f\<in>set (bs ! i). \<not> fatalReply env First (uploadFile env src dest f)" by simp
    have d1: "drained env src dest bs (Suc i) (events st1)"
      unfolding drained_def
    proof (intro allI impI ballI)
      fix j f assume j: "j < Suc i" and f: "f \<in> set (bs ! j)"
      show "Submitted (Batch j) (uploadFile env src dest f) \<in> set (events st1)
            \<and> settled env (Batch j) First (uploadFile env src dest f) \<in> set (events st1)
            \<and> \<not> fatalReply env First (uploadFile env src dest f)"
      proof (cases "j = i")
        case True
        with f ts1 nofatal show ?thesis by (auto simp: ev1)
      next
        case False
        with j have "j < i" by simp
        with Suc.prems(3) f show ?thesis by (auto simp: drained_def ev1)
      qed
    qed
    from Suc.hyps(2) have "n = length bs - Suc i" by simp
    from Suc.hyps(1) [OF this l] lt d1 o2 show ?thesis by simp
  qed
qed

subsection \<open>The tasks a run submits\<close>

lemma mainSubmitted_append [simp]:
  "mainSubmitted (xs @ ys) = mainSubmitted xs @ mainSubmitted ys"
  by (simp add: mainSubmitted_def)

lemma retrySubmitted_append [simp]:
  "retrySubmitted (xs @ ys) = retrySubmitted xs @ retrySubmitted ys"
  by (simp add: retrySubmitted_def)

lemma mainSubmitted_Nil [simp]: "mainSubmitted [] = []"
  by (simp add: mainSubmitted_def)

lemma retrySubmitted_Nil [simp]: "retrySubmitted [] = []"
  by (simp add: retrySubmitted_def)

lemma mainSubmitted_Submitted [simp]:
  "mainSubmitted (map (Submitted (Batch k)) ts) = ts"
  by (induction ts) (simp_all add: mainSubmitted_def)

lemma mainSubmitted_Retry [simp]:
  "mainSubmitted (map (Submitted RetryBatch) ts) = []"
  by (induction ts) (simp_all add: mainSubmitted_def)

lemma mainSubmitted_settled [simp]:
  "mainSubmitted (map (settled env ph a) ts) = []"
  by (induction ts) (simp_all add: mainSubmitted_def settled_def)

lemma retrySubmitted_Submitted [simp]:
  "retrySubmitted (map (Submitted (Batch k)) ts) = []"
  by (induction ts) (simp_all add: retrySubmitted_def)

lemma retrySubmitted_Retry [simp]:
  "retrySubmitted (map (Submitted RetryBatch) ts) = ts"
  by (induction ts) (simp_all add: retrySubmitted_def)

lemma retrySubmitted_settled [simp]:
  "retrySubmitted (map (settled env ph a) ts) = []"
  by (induction ts) (simp_all add: retrySubmitted_def settled_def)

lemma fst_uploadFile [simp]: "fst (uploadFile env src dest f) = f"
  by (simp add: uploadFile_def Let_def)

lemma snd_uploadFile:
  "snd (uploadFile env src dest f) = convertToUnixPath env (pathJoin env dest (stripSrc src f))"
  by (simp add: uploadFile_def Let_def)

lemma map_fst_uploadFile [simp]: "map fst (map (uploadFile env src dest) b) = b"
  by (induction b) simp_all

lemma mainLoop_submitted:
  "mainLoop env src dest i rest st = (st', r) \<Longrightarrow>
     \<exists>r1 r2. rest = r1 @ r2
       \<and> mainSubmitted (events st') = mainSubmitted (events st)
            @ concat (map (map (uploadFile env src dest)) r1)
       \<and> retrySubmitted (events st') = retrySubmitted (events st)
       \<and> (r = None \<longrightarrow> r2 = [])"
proof (induction rest arbitrary: i st)
  case Nil
  then show ?case by simp
next
  case (Cons b rest)
  obtain st1 r1 where a: "addAllMain env src dest i b st = (st1, r1)"
    by (cases "addAllMain env src dest i b st")
  from addAllMain_events [OF a] obtain ts1 ts2 where
    ev1: "events st1 = events st @ map (Submitted (Batch i)) (map (uploadFile env src dest) b)
            @ map (settled env (Batch i) First) ts1"
    by blast
  then have m1: "mainSubmitted (events st1) = mainSubmitted (events st) @ map (uploadFile env src dest) b"
    and q1: "retrySubmitted (events st1) = retrySubmitted (events st)"
    by (simp_all del: map_map)
  show ?case
  proof (cases r1)
    case (Some err)
    with a Cons.prems have "st' = st1" "r = Some err" by auto
    with m1 q1 have "b # rest = [b] @ rest
       \<and> mainSubmitted (events st') = mainSubmitted (events st)
            @ concat (map (map (uploadFile env src dest)) [b])
       \<and> retrySubmitted (events st') = retrySubmitted (events st)
       \<and> (r = None \<longrightarrow> rest = [])" by simp
    then show ?thesis by blast
  next
    case None
    with a Cons.prems have "mainLoop env src dest (Suc i) rest st1 = (st', r)" by simp
    from Cons.IH [OF this] obtain q1' q2 where
      "rest = q1' @ q2"
      "mainSubmitted (events st') = mainSubmitted (events st1)
            @ concat (map (map (uploadFile env src dest)) q1')"
      "retrySubmitted (events st') = retrySubmitted (events st1)"
      "r = None \<longrightarrow> q2 = []" by blast
    with m1 q1 have "b # rest = (b # q1') @ q2
       \<and> mainSubmitted (events st') = mainSubmitted (events st)
            @ concat (map (map (uploadFile env src dest)) (b # q1'))
       \<and> retrySubmitted (events st') = retrySubmitted (events st)
       \<and> (r = None \<longrightarrow> q2 = [])" by simp
    then show ?thesis by blast
  qed
qed

lemma mainLoop_tasks:
  "mainLoop env src dest i rest st = (st', r) \<Longrightarrow> ev \<in> set (events st') \<Longrightarrow>
     ev \<in> set (events st) \<or> taskOf ev \<in> uploadFile env src dest ` set (concat rest)"
proof (induction rest arbitrary: i st)
  case Nil
  then show ?case by simp
next
  case (Cons b rest)
  obtain st1 r1 where a: "addAllMain env src dest i b st = (st1, r1)"
    by (cases "addAllMain env src dest i b st")
  from addAllMain_events [OF a] obtain ts1 ts2 where
    so: "settleOrder env First (map (uploadFile env src dest) b) = ts1 @ ts2"
    and ev1: "events st1 = events st @ map (Submitted (Batch i)) (map (uploadFile env src dest) b)
            @ map (settled env (Batch i) First) ts1"
    by blast
  from so have "set ts1 \<subseteq> set (settleOrder env First (map (uploadFile env src dest) b))" by simp
  then have sub: "set ts1 \<subseteq> uploadFile env src dest ` set b" by simp
  have step: "\<And>e. e \<in> set (events st1) \<Longrightarrow>
      e \<in> set (events st) \<or> taskOf e \<in> uploadFile env src dest ` set b"
    using sub by (auto simp: ev1 taskOf_def settled_def)
  show ?case
  proof (cases r1)
    case (Some err)
    with a Cons.prems have "st' = st1" by auto
    with step [of ev] Cons.prems(2) show ?thesis by auto
  next
    case None
    with a Cons.prems have "mainLoop env src dest (Suc i) rest st1 = (st', r)" by simp
    from Cons.IH [OF this Cons.prems(2)] step [of ev] show ?thesis by auto
  qed
qed

subsection \<open>The retry\<close>

lemma addAllRetry_events:
  assumes "addAllRetry env st = (st', r)"
  shows "\<exists>ts1 ts2. settleOrder env Retry (failures st) = ts1 @ ts2
           \<and> events st' = events st @ map (Submitted RetryBatch) (failures st)
                @ map (settled env RetryBatch Retry) ts1"
proof -
  let ?st1 = "st\<lparr>events := events st @ map (Submitted RetryBatch) (failures st)\<rparr>"
  obtain st2 r2 where s: "settleRetry env (settleOrder env Retry (failures st)) ?st1 = (st2, r2)"
    by (cases "settleRetry env (settleOrder env Retry (failures st)) ?st1")
  with assms have "st' = st2" by (auto simp: addAllRetry_def Let_def split: option.splits)
  with settleRetry_events [OF s] show ?thesis by auto
qed

lemma addAllRetry_Inr:
  assumes "addAllRetry env st = (st', Inr results)"
  shows "results = map (retryResult env) (failures st)
         \<and> (\<forall>t\<in>set (failures st). \<not> fatalReply env Retry t)"
proof -
  let ?st1 = "st\<lparr>events := events st @ map (Submitted RetryBatch) (failures st)\<rparr>"
  obtain st2 r2 where s: "settleRetry env (settleOrder env Retry (failures st)) ?st1 = (st2, r2)"
    by (cases "settleRetry env (settleOrder env Retry (failures st)) ?st1")
  with assms have "r2 = None" and "results = map (retryResult env) (failures st)"
    by (auto simp: addAllRetry_def Let_def split: option.splits)
  with s settleRetry_None_iff [of env "settleOrder env Retry (failures st)" ?st1]
  show ?thesis by simp
qed

lemma addAllRetry_Inl:
  assumes "addAllRetry env st = (st', Inl e)"
  shows "\<exists>err. e = UploadError err \<and> isFatalError env err"
proof -
  let ?st1 = "st\<lparr>events := events st @ map (Submitted RetryBatch) (failures st)\<rparr>"
  obtain st2 r2 where s: "settleRetry env (settleOrder env Retry (failures st)) ?st1 = (st2, r2)"
    by (cases "settleRetry env (settleOrder env Retry (failures st)) ?st1")
  with assms obtain err where "r2 = Some err" and "e = UploadError err"
    by (auto simp: addAllRetry_def Let_def split: option.splits)
  with s settleRetry_Some [of env "settleOrder env Retry (failures st)" ?st1 st2 err]
  show ?thesis by simp
qed

lemma addAllRetry_fatal:
  assumes "t \<in> set (failures st)" and "fatalReply env Retry t"
  shows "\<exists>err. snd (addAllRetry env st) = Inl (UploadError err)"
proof -
  let ?st1 = "st\<lparr>events := events st @ map (Submitted RetryBatch) (failures st)\<rparr>"
  obtain st2 r2 where s: "settleRetry env (settleOrder env Retry (failures st)) ?st1 = (st2, r2)"
    by (cases "settleRetry env (settleOrder env Retry (failures st)) ?st1")
  from assms settleRetry_None_iff [of env "settleOrder env Retry (failures st)" ?st1] s
  have "r2 \<noteq> None" by auto
  with s show ?thesis by (auto simp: addAllRetry_def Let_def)
qed

lemma addAllRetry_no_fatal:
  assumes "\<forall>t\<in>set (failures st). \<not> fatalReply env Retry t"
  shows "snd (addAllRetry env st) = Inr (map (retryResult env) (failures st))"
proof -
  let ?st1 = "st\<lparr>events := events st @ map (Submitted RetryBatch) (failures st)\<rparr>"
  obtain st2 r2 where s: "settleRetry env (settleOrder env Retry (failures st)) ?st1 = (st2, r2)"
    by (cases "settleRetry env (settleOrder env Retry (failures st)) ?st1")
  from assms settleRetry_None_iff [of env "settleOrder env Retry (failures st)" ?st1] s
  have "r2 = None" by auto
  with s show ?thesis by (auto simp: addAllRetry_def Let_def)
qed

subsection \<open>A run of uploadFolder\<close>

text \<open>The two ways a run goes once the files are classified.\<close>

lemma uploadFolder_cases [consumes 2, case_names mainThrow retried]:
  assumes "walk env src = Inr files"
    and "getFilesByType env (allowedFiles env files) = Inr filesByType"
  obtains (mainThrow) st err where
      "mainLoop env src dest 0 filesByType \<lparr>failures = [], events = []\<rparr> = (st, Some err)"
      "uploadFolder env src dest = (events st, Inl (UploadError err))"
  | (retried) st st' r where
      "mainLoop env src dest 0 filesByType \<lparr>failures = [], events = []\<rparr> = (st, None)"
      "addAllRetry env st = (st', r)"
      "uploadFolder env src dest = (events st', r)"
proof -
  obtain st r0 where m: "mainLoop env src dest 0 filesByType \<lparr>failures = [], events = []\<rparr> = (st, r0)"
    by (cases "mainLoop env src dest 0 filesByType \<lparr>failures = [], events = []\<rparr>")
  show thesis
  proof (cases r0)
    case (Some err)
    with m assms have "uploadFolder env src dest = (events st, Inl (UploadError err))"
      by (simp add: uploadFolder_def)
    with m Some mainThrow show ?thesis by blast
  next
    case None
    obtain st' r where a: "addAllRetry env st = (st', r)" by (cases "addAllRetry env st")
    with m None assms have "uploadFolder env src dest = (events st', r)"
      by (simp add: uploadFolder_def)
    with m None a retried show ?thesis by blast
  qed
qed

lemma mainLoop_firstFailures:
  assumes "mainLoop env src dest 0 filesByType \<lparr>failures = [], events = []\<rparr> = (st, None)"
  shows "failures st = firstFailures env src dest filesByType"
  using mainLoop_failures [OF assms] by (simp add: firstFailures_def)

lemma set_firstFailures:
  "set (firstFailures env src dest filesByType)
     = {t \<in> uploadFile env src dest ` set (concat filesByType). transientReply env First t}"
  by (auto simp: firstFailures_def)

lemma uploadFolder_ordered:
  assumes w: "walk (env :: 'e env) src = Inr walked"
    and g: "getFilesByType env (allowedFiles env walked) = Inr filesByType"
  shows "ordered env src dest filesByType (fst (uploadFolder env src dest))
       \<and> ((\<exists>results. snd (uploadFolder env src dest) = Inr results) \<longrightarrow>
            drained env src dest filesByType (length filesByType) (fst (uploadFolder env src dest)))"
  using w g
proof (cases rule: uploadFolder_cases [where dest = dest])
  case (mainThrow st err)
  have "ordered env src dest filesByType (events st)"
    using mainLoop_ordered [of env src dest 0 filesByType "\<lparr>failures = [], events = []\<rparr>" st "Some err"]
      mainThrow(1) by (simp add: drained_def)
  with mainThrow(2) show ?thesis by simp
next
  case (retried st st' r)
  have m: "ordered env src dest filesByType (events st)
      \<and> drained env src dest filesByType (length filesByType) (events st)"
    using mainLoop_ordered [of env src dest 0 filesByType "\<lparr>failures = [], events = []\<rparr>" st None]
      retried(1) by (simp add: drained_def)
  from addAllRetry_events [OF retried(2)] obtain ts1 ts2 where
    ev: "events st' = events st @ map (Submitted RetryBatch) (failures st)
                @ map (settled env RetryBatch Retry) ts1"
    by blast
  have o1: "ordered env src dest filesByType (events st @ map (Submitted RetryBatch) (failures st))"
    unfolding ordered_append
  proof (intro conjI allI impI)
    show "ordered env src dest filesByType (events st)" using m by simp
    fix pre :: "'e event list" and ev post
    assume "map (Submitted RetryBatch) (failures st) = pre @ ev # post"
    then have "ev \<in> set (map (Submitted RetryBatch) (failures st))" by simp
    then obtain t where t: "ev = Submitted RetryBatch t" by auto
    have "drained env src dest filesByType (length filesByType) (events st @ pre)"
      by (rule drained_mono [of _ _ _ _ _ "events st"]) (use m in simp_all)
    with t show "permitted env src dest filesByType (events st @ pre) ev"
      by (simp add: permitted_def)
  qed
  have o2: "ordered env src dest filesByType (events st')"
    unfolding ev append_assoc [symmetric]
    unfolding ordered_append [where ys = "map (settled env RetryBatch Retry) ts1"]
  proof (intro conjI allI impI)
    show "ordered env src dest filesByType (events st @ map (Submitted RetryBatch) (failures st))"
      by (rule o1)
    fix pre :: "'e event list" and ev post
    assume "map (settled env RetryBatch Retry) ts1 = pre @ ev # post"
    then have "ev \<in> set (map (settled env RetryBatch Retry) ts1)" by simp
    then show "permitted env src dest filesByType
        ((events st @ map (Submitted RetryBatch) (failures st)) @ pre) ev"
      by (auto simp: permitted_def settled_def)
  qed
  have "drained env src dest filesByType (length filesByType) (events st')"
    by (rule drained_mono [of _ _ _ _ _ "events st"]) (use m ev in simp_all)
  with o2 retried(3) show ?thesis by simp
qed

subsection \<open>The fields files of a module folder, and where a queued path comes from\<close>

lemma classifyFile_fields_json_sibling:
  assumes "moduleFolder env f \<noteq> None"
    and "last (splitLocalPath env f) = ''fields.json''"
    and "getExt env f = ''json''"
    and "readdirSync env (dirname env f) = Inr items"
    and "''fields.js'' \<in> set (map name (filter (\<lambda>item. \<not> isDirectory item) items))"
  shows "classifyFile env b f = Inr b"
  using assms by (simp add: classifyFile_def Let_def)

lemma classifyFile_fields_json_alone:
  assumes "moduleFolder env f \<noteq> None"
    and "last (splitLocalPath env f) = ''fields.json''"
    and "getExt env f = ''json''"
    and "readdirSync env (dirname env f) = Inr items"
    and "''fields.js'' \<notin> set (map name (filter (\<lambda>item. \<not> isDirectory item) items))"
  shows "classifyFile env b f = Inr (b\<lparr>moduleFiles := moduleFiles b @ [f]\<rparr>)"
  using assms by (simp add: classifyFile_def Let_def)

lemma classifyFile_fields_js:
  assumes "moduleFolder env f \<noteq> None"
    and "last (splitLocalPath env f) = ''fields.js''"
  shows "classifyFile env b f =
     (case convertFieldsJs env f of
        Inl e \<Rightarrow> Inl (FieldsError e)
      | Inr converted \<Rightarrow> Inr (b\<lparr>moduleFiles := moduleFiles b @ [converted]\<rparr>))"
  using assms by (simp add: classifyFile_def Let_def)

lemma forEachFile_removeAll:
  assumes "\<And>b. classifyFile env b f = Inr b"
  shows "forEachFile env b (removeAll f files) = forEachFile env b files"
  using assms by (induction files arbitrary: b) (auto split: sum.splits)

lemma in_getFilesByType:
  assumes "getFilesByType env files = Inr filesByType" and "k < 5"
  shows "set (filesByType ! k) = (\<Union>g\<in>set files. set (contrib env k g))"
proof -
  from assms(2) have "k = 0 \<or> k = 1 \<or> k = 2 \<or> k = 3 \<or> k = 4" by arith
  with getFilesByType_contrib [OF assms(1)] show ?thesis by auto
qed

lemma set_concat_getFilesByType:
  assumes "getFilesByType env files = Inr filesByType"
  shows "set (concat filesByType) = (\<Union>k\<in>{0, 1, 2, 3, 4}. \<Union>g\<in>set files. set (contrib env k g))"
  using getFilesByType_contrib [OF assms] by auto

lemma uploadFolder_tasks:
  assumes w: "walk env src = Inr walked"
    and g: "getFilesByType env (allowedFiles env walked) = Inr filesByType"
    and ev: "ev \<in> set (fst (uploadFolder env src dest))"
  shows "taskOf ev \<in> uploadFile env src dest ` set (concat filesByType)"
  using w g
proof (cases rule: uploadFolder_cases [where dest = dest])
  case (mainThrow st err)
  with ev mainLoop_tasks [OF mainThrow(1), of ev] show ?thesis by simp
next
  case (retried st st' r)
  from addAllRetry_events [OF retried(2)] obtain ts1 ts2 where
    so: "settleOrder env Retry (failures st) = ts1 @ ts2"
    and e: "events st' = events st @ map (Submitted RetryBatch) (failures st)
                @ map (settled env RetryBatch Retry) ts1"
    by blast
  from so have "set ts1 \<subseteq> set (settleOrder env Retry (failures st))" by simp
  then have ts1: "set ts1 \<subseteq> set (failures st)" by simp
  have f: "set (failures st) \<subseteq> uploadFile env src dest ` set (concat filesByType)"
    using mainLoop_firstFailures [OF retried(1)] set_firstFailures [of env src dest filesByType]
    by auto
  from ev retried(3) have "ev \<in> set (events st')" by simp
  then consider "ev \<in> set (events st)" | "taskOf ev \<in> set (failures st)"
    using ts1 by (auto simp: e taskOf_def settled_def)
  then show ?thesis
  proof cases
    case 1
    with mainLoop_tasks [OF retried(1), of ev] show ?thesis by simp
  next
    case 2
    with f show ?thesis by blast
  qed
qed

lemma uploadFolder_no_events:
  "walk env src = Inl e \<Longrightarrow> uploadFolder env src dest = ([], Inl (WalkError e))"
  "walk env src = Inr walked \<Longrightarrow> getFilesByType env (allowedFiles env walked) = Inl e' \<Longrightarrow>
     uploadFolder env src dest = ([], Inl e')"
  by (simp_all add: uploadFolder_def)

lemma uploadFolder_returns:
  assumes "snd (uploadFolder env src dest) = Inr results"
  obtains walked filesByType where "walk env src = Inr walked"
    and "getFilesByType env (allowedFiles env walked) = Inr filesByType"
  using assms by (auto simp: uploadFolder_def split: sum.splits prod.splits option.splits)

lemma contrib_origin:
  assumes "k < 5" and "p \<in> set (contrib env k g)"
  shows "p = g \<or> convertedFrom env [g] p"
  using contrib_subset [OF assms] by (auto simp: convertedFrom_def)

lemma contrib_fields_json_sibling:
  assumes "moduleFolder env f \<noteq> None"
    and "last (splitLocalPath env f) = ''fields.json''"
    and "getExt env f = ''json''"
    and "readdirSync env (dirname env f) = Inr items"
    and "''fields.js'' \<in> set (map name (filter (\<lambda>item. \<not> isDirectory item) items))"
    and "k < 5"
  shows "contrib env k f = []"
proof -
  from \<open>k < 5\<close> have "k = 0 \<or> k = 1 \<or> k = 2 \<or> k = 3 \<or> k = 4" by arith
  with classifyFile_fields_json_sibling [OF assms(1-5), of noFiles] show ?thesis
    by (auto simp: contrib_def bucketList_def noFiles_def)
qed

lemma contrib_fields_js:
  assumes "moduleFolder env f \<noteq> None"
    and "last (splitLocalPath env f) = ''fields.js''"
    and "k < 5" and "p \<in> set (contrib env k f)"
  shows "convertFieldsJs env f = Inr p \<and> k = 1"
proof -
  from \<open>k < 5\<close> have "k = 0 \<or> k = 1 \<or> k = 2 \<or> k = 3 \<or> k = 4" by arith
  with assms(4) classifyFile_fields_js [OF assms(1,2), of noFiles] show ?thesis
    by (auto simp: contrib_def bucketList_def noFiles_def split: sum.splits)
qed

lemma in_concat_getFilesByType:
  assumes "getFilesByType env files = Inr filesByType" and "p \<in> set (concat filesByType)"
  obtains k g where "k < 5" "g \<in> set files" "p \<in> set (contrib env k g)"
proof -
  from assms(2) set_concat_getFilesByType [OF assms(1)]
  obtain k g where "k \<in> {0, 1, 2, 3, 4}" "g \<in> set files" "p \<in> set (contrib env k g)" by blast
  moreover then have "k < 5" by auto
  ultimately show thesis using that by blast
qed

lemma superseded_json_origin:
  assumes g: "getFilesByType env files = Inr filesByType"
    and "moduleFolder env json \<noteq> None"
    and "last (splitLocalPath env json) = ''fields.json''"
    and "getExt env json = ''json''"
    and "readdirSync env (dirname env json) = Inr items"
    and "''fields.js'' \<in> set (map name (filter (\<lambda>item. \<not> isDirectory item) items))"
    and p: "json \<in> set (concat filesByType)"
  shows "convertedFrom env files json"
proof -
  from in_concat_getFilesByType [OF g p] obtain k h where
    kh: "k < 5" "h \<in> set files" "json \<in> set (contrib env k h)" by blast
  from contrib_origin [OF kh(1,3)] show ?thesis
  proof
    assume "json = h"
    with kh(3) contrib_fields_json_sibling [OF assms(2-6) kh(1)] show ?thesis by simp
  next
    assume "convertedFrom env [h] json"
    with kh(2) show ?thesis by (auto simp: convertedFrom_def)
  qed
qed

lemma fields_js_origin:
  assumes g: "getFilesByType env files = Inr filesByType"
    and "moduleFolder env js \<noteq> None"
    and "last (splitLocalPath env js) = ''fields.js''"
    and p: "js \<in> set (concat filesByType)"
  shows "convertedFrom env files js"
proof -
  from in_concat_getFilesByType [OF g p] obtain k h where
    kh: "k < 5" "h \<in> set files" "js \<in> set (contrib env k h)" by blast
  from contrib_origin [OF kh(1,3)] show ?thesis
  proof
    assume "js = h"
    with kh contrib_fields_js [OF assms(2,3) kh(1), of js] assms(2,3) show ?thesis
      by (auto simp: convertedFrom_def)
  next
    assume "convertedFrom env [h] js"
    with kh(2) show ?thesis by (auto simp: convertedFrom_def)
  qed
qed

lemma excluded_origin:
  assumes g: "getFilesByType env files = Inr filesByType"
    and "f \<notin> set files"
    and p: "f \<in> set (concat filesByType)"
  shows "convertedFrom env files f"
proof -
  from in_concat_getFilesByType [OF g p] obtain k h where
    kh: "k < 5" "h \<in> set files" "f \<in> set (contrib env k h)" by blast
  from contrib_origin [OF kh(1,3)] assms(2) kh(2) show ?thesis
    by (auto simp: convertedFrom_def)
qed

lemma uploadFolder_submits_all:
  assumes w: "walk env src = Inr walked"
    and g: "getFilesByType env (allowedFiles env walked) = Inr filesByType"
    and r: "uploadFolder env src dest = (tr, Inr results)"
    and k: "k < 5" and f: "f \<in> set (filesByType ! k)"
  shows "Submitted (Batch k) (uploadFile env src dest f) \<in> set tr"
proof -
  from uploadFolder_ordered [OF w g, of dest] r
  have "drained env src dest filesByType (length filesByType) tr" by simp
  with getFilesByType_length [OF g] k f show ?thesis by (simp add: drained_def)
qed

subsection \<open>Results and first failures\<close>

lemma length_filter_settleOrder:
  "length (filter P (settleOrder env a ts)) = length (filter P ts)"
  by (simp add: filter_settleOrder) (simp add: settleOrder_def)

lemma length_filter_firstFailures:
  "length (filter P (firstFailures env src dest filesByType))
     = length (filter (\<lambda>g. P (uploadFile env src dest g)
                           \<and> transientReply env First (uploadFile env src dest g))
                 (concat filesByType))"
proof (induction filesByType)
  case Nil
  then show ?case by (simp add: firstFailures_def)
next
  case (Cons b bs)
  have "length (filter P (filter (transientReply env First)
            (settleOrder env First (map (uploadFile env src dest) b))))
      = length (filter (\<lambda>t. P t \<and> transientReply env First t)
            (settleOrder env First (map (uploadFile env src dest) b)))"
    by (simp add: conj_commute)
  also have "\<dots> = length (filter (\<lambda>t. P t \<and> transientReply env First t)
            (map (uploadFile env src dest) b))"
    by (rule length_filter_settleOrder)
  also have "\<dots> = length (filter (\<lambda>g. P (uploadFile env src dest g)
                           \<and> transientReply env First (uploadFile env src dest g)) b)"
    by (simp add: filter_map o_def)
  finally show ?case using Cons.IH by (simp add: firstFailures_def)
qed

lemma length_filter_distinct:
  "distinct xs \<Longrightarrow>
     length (filter (\<lambda>g. g = f \<and> R g) xs) = (if f \<in> set xs \<and> R f then 1 else 0)"
  by (induction xs) auto

lemma singleton_list:
  assumes "length xs = 1" and "set xs \<subseteq> {x}"
  shows "xs = [x]"
  using assms by (cases xs) auto

lemma file_retryResult [simp]: "file (retryResult env t) = fst t"
  by (simp add: retryResult_def split: option.splits)

lemma filter_firstFailures_distinct:
  assumes "distinct (concat filesByType)"
  shows "filter (\<lambda>t. fst t = f) (firstFailures env src dest filesByType)
       = (if f \<in> set (concat filesByType) \<and> transientReply env First (uploadFile env src dest f)
          then [uploadFile env src dest f] else [])"
proof -
  let ?F = "filter (\<lambda>t. fst t = f) (firstFailures env src dest filesByType)"
  have len: "length ?F = (if f \<in> set (concat filesByType)
        \<and> transientReply env First (uploadFile env src dest f) then 1 else 0)"
    using length_filter_firstFailures [of "\<lambda>t. fst t = f" env src dest filesByType]
      length_filter_distinct [OF assms, of f "\<lambda>g. transientReply env First (uploadFile env src dest g)"]
    by simp
  have sub: "set ?F \<subseteq> {uploadFile env src dest f}"
    by (auto simp: set_firstFailures)
  show ?thesis
  proof (cases "f \<in> set (concat filesByType) \<and> transientReply env First (uploadFile env src dest f)")
    case True
    with len have "length ?F = 1" by simp
    from singleton_list [OF this sub] True show ?thesis by simp
  next
    case False
    with len have "length ?F = 0" by simp
    with False show ?thesis by simp
  qed
qed

lemma uploadFolder_Inr:
  assumes w: "walk env src = Inr walked"
    and g: "getFilesByType env (allowedFiles env walked) = Inr filesByType"
    and r: "uploadFolder env src dest = (tr, Inr results)"
  shows "results = map (retryResult env) (firstFailures env src dest filesByType)"
    and "\<forall>f\<in>set (concat filesByType). \<not> fatalReply env First (uploadFile env src dest f)"
    and "\<forall>t\<in>set (firstFailures env src dest filesByType). \<not> fatalReply env Retry t"
proof -
  have "results = map (retryResult env) (firstFailures env src dest filesByType)
    \<and> (\<forall>f\<in>set (concat filesByType). \<not> fatalReply env First (uploadFile env src dest f))
    \<and> (\<forall>t\<in>set (firstFailures env src dest filesByType). \<not> fatalReply env Retry t)"
    using w g
  proof (cases rule: uploadFolder_cases [where dest = dest])
    case (mainThrow st err)
    with r show ?thesis by simp
  next
    case (retried st st' r')
    with r have a: "addAllRetry env st = (st', Inr results)" by simp
    from mainLoop_None_iff [of env src dest 0 filesByType "\<lparr>failures = [], events = []\<rparr>"] retried(1)
    have "\<forall>f\<in>set (concat filesByType). \<not> fatalReply env First (uploadFile env src dest f)"
      by auto
    with addAllRetry_Inr [OF a] mainLoop_firstFailures [OF retried(1)] show ?thesis by simp
  qed
  then show "results = map (retryResult env) (firstFailures env src dest filesByType)"
    and "\<forall>f\<in>set (concat filesByType). \<not> fatalReply env First (uploadFile env src dest f)"
    and "\<forall>t\<in>set (firstFailures env src dest filesByType). \<not> fatalReply env Retry t"
    by simp_all
qed

subsection \<open>What a run throws\<close>

lemma classifyFile_Inl:
  "classifyFile env b f = Inl e \<Longrightarrow> (\<exists>x. e = FieldsError x) \<or> (\<exists>x. e = ReaddirError x)"
  unfolding classifyFile_def Let_def
  by (auto split: if_splits sum.splits)

lemma forEachFile_Inl:
  "forEachFile env b files = Inl e \<Longrightarrow> (\<exists>x. e = FieldsError x) \<or> (\<exists>x. e = ReaddirError x)"
proof (induction files arbitrary: b)
  case Nil
  then show ?case by simp
next
  case (Cons f files)
  show ?case
  proof (cases "classifyFile env b f")
    case (Inl e')
    with Cons.prems have "e' = e" by simp
    with classifyFile_Inl [OF Inl] show ?thesis by simp
  next
    case (Inr b')
    with Cons.prems have "forEachFile env b' files = Inl e" by simp
    from Cons.IH [OF this] show ?thesis .
  qed
qed

lemma getFilesByType_Inl:
  "getFilesByType env files = Inl e \<Longrightarrow> (\<exists>x. e = FieldsError x) \<or> (\<exists>x. e = ReaddirError x)"
  by (auto simp: getFilesByType_def split: sum.splits dest: forEachFile_Inl)

lemma uploadFolder_UploadError:
  assumes "snd (uploadFolder env src dest) = Inl (UploadError err)"
  shows "isFatalError env err"
proof (cases "walk env src")
  case (Inl e)
  with assms uploadFolder_no_events(1) [OF Inl, of dest] show ?thesis by simp
next
  case w: (Inr walked)
  show ?thesis
  proof (cases "getFilesByType env (allowedFiles env walked)")
    case (Inl e)
    with assms uploadFolder_no_events(2) [OF w Inl, of dest] getFilesByType_Inl [OF Inl]
    show ?thesis by auto
  next
    case g: (Inr filesByType)
    from w g show ?thesis
    proof (cases rule: uploadFolder_cases [where dest = dest])
      case (mainThrow st err')
      with assms mainLoop_Some [OF mainThrow(1)] show ?thesis by simp
    next
      case (retried st st' r)
      with assms addAllRetry_Inl [of env st st' "UploadError err"] show ?thesis by auto
    qed
  qed
qed

lemma uploadFolder_main_fatal:
  assumes w: "walk env src = Inr walked"
    and g: "getFilesByType env (allowedFiles env walked) = Inr filesByType"
    and f: "f \<in> set (concat filesByType)"
    and fatal: "fatalReply env First (uploadFile env src dest f)"
  shows "\<exists>err. isFatalError env err \<and> snd (uploadFolder env src dest) = Inl (UploadError err)"
  using w g
proof (cases rule: uploadFolder_cases [where dest = dest])
  case (mainThrow st err)
  with mainLoop_Some [OF mainThrow(1)] show ?thesis by auto
next
  case (retried st st' r)
  from mainLoop_None_iff [of env src dest 0 filesByType "\<lparr>failures = [], events = []\<rparr>"] retried(1)
  have "\<forall>f\<in>set (concat filesByType). \<not> fatalReply env First (uploadFile env src dest f)"
    by auto
  with f fatal show ?thesis by blast
qed

lemma uploadFolder_retry_fatal:
  assumes w: "walk env src = Inr walked"
    and g: "getFilesByType env (allowedFiles env walked) = Inr filesByType"
    and f: "f \<in> set (concat filesByType)"
    and tr: "transientReply env First (uploadFile env src dest f)"
    and fatal: "fatalReply env Retry (uploadFile env src dest f)"
  shows "\<exists>err. isFatalError env err \<and> snd (uploadFolder env src dest) = Inl (UploadError err)"
  using w g
proof (cases rule: uploadFolder_cases [where dest = dest])
  case (mainThrow st err)
  with mainLoop_Some [OF mainThrow(1)] show ?thesis by auto
next
  case (retried st st' r)
  from f tr have "uploadFile env src dest f \<in> set (firstFailures env src dest filesByType)"
    unfolding set_firstFailures by blast
  with mainLoop_firstFailures [OF retried(1)] have "uploadFile env src dest f \<in> set (failures st)"
    by simp
  from addAllRetry_fatal [OF this fatal] retried(2) obtain err where
    e: "r = Inl (UploadError err)" by auto
  with retried(2) addAllRetry_Inl [of env st st' "UploadError err"] have "isFatalError env err"
    by auto
  with e retried(3) show ?thesis by simp
qed

lemma uploadFolder_absorbs:
  assumes w: "walk env src = Inr walked"
    and g: "getFilesByType env (allowedFiles env walked) = Inr filesByType"
    and nf: "\<forall>h\<in>set (concat filesByType).
               \<not> fatalReply env First (uploadFile env src dest h)
               \<and> \<not> fatalReply env Retry (uploadFile env src dest h)"
  shows "snd (uploadFolder env src dest)
       = Inr (map (retryResult env) (firstFailures env src dest filesByType))"
  using w g
proof (cases rule: uploadFolder_cases [where dest = dest])
  case (mainThrow st err)
  from mainLoop_None_iff [of env src dest 0 filesByType "\<lparr>failures = [], events = []\<rparr>"]
    mainThrow(1) nf
  show ?thesis by auto
next
  case (retried st st' r)
  have fs: "failures st = firstFailures env src dest filesByType"
    by (rule mainLoop_firstFailures [OF retried(1)])
  have "\<forall>t\<in>set (failures st). \<not> fatalReply env Retry t"
    unfolding fs set_firstFailures using nf by blast
  from addAllRetry_no_fatal [OF this] retried(2,3) fs show ?thesis by simp
qed

subsection \<open>Counting tasks\<close>

lemma uploadFolder_submitted:
  assumes w: "walk env src = Inr walked"
    and g: "getFilesByType env (allowedFiles env walked) = Inr filesByType"
  shows "\<exists>r1 r2. filesByType = r1 @ r2
           \<and> mainSubmitted (fst (uploadFolder env src dest))
                = map (uploadFile env src dest) (concat r1)
           \<and> (retrySubmitted (fst (uploadFolder env src dest)) = []
                \<or> r2 = [] \<and> retrySubmitted (fst (uploadFolder env src dest))
                              = firstFailures env src dest filesByType)
           \<and> ((\<exists>results. snd (uploadFolder env src dest) = Inr results) \<longrightarrow> r2 = [])"
  using w g
proof (cases rule: uploadFolder_cases [where dest = dest])
  case (mainThrow st err)
  from mainLoop_submitted [OF mainThrow(1)] obtain r1 r2 where
    "filesByType = r1 @ r2"
    "mainSubmitted (events st) = concat (map (map (uploadFile env src dest)) r1)"
    "retrySubmitted (events st) = []"
    by auto
  with mainThrow(2) have "filesByType = r1 @ r2
           \<and> mainSubmitted (fst (uploadFolder env src dest))
                = map (uploadFile env src dest) (concat r1)
           \<and> (retrySubmitted (fst (uploadFolder env src dest)) = []
                \<or> r2 = [] \<and> retrySubmitted (fst (uploadFolder env src dest))
                              = firstFailures env src dest filesByType)
           \<and> ((\<exists>results. snd (uploadFolder env src dest) = Inr results) \<longrightarrow> r2 = [])"
    by (simp add: map_concat)
  then show ?thesis by blast
next
  case (retried st st' r)
  from mainLoop_submitted [OF retried(1)] have
    m: "mainSubmitted (events st) = concat (map (map (uploadFile env src dest)) filesByType)"
    and q: "retrySubmitted (events st) = []"
    by auto
  from addAllRetry_events [OF retried(2)] obtain ts1 ts2 where
    e: "events st' = events st @ map (Submitted RetryBatch) (failures st)
                @ map (settled env RetryBatch Retry) ts1"
    by blast
  from e m q mainLoop_firstFailures [OF retried(1)] retried(3)
  have "filesByType = filesByType @ []
           \<and> mainSubmitted (fst (uploadFolder env src dest))
                = map (uploadFile env src dest) (concat filesByType)
           \<and> (retrySubmitted (fst (uploadFolder env src dest)) = []
                \<or> [] = ([] :: path list list) \<and> retrySubmitted (fst (uploadFolder env src dest))
                              = firstFailures env src dest filesByType)
           \<and> ((\<exists>results. snd (uploadFolder env src dest) = Inr results) \<longrightarrow> [] = ([] :: path list list))"
    by (simp add: map_concat)
  then show ?thesis by blast
qed

lemma contrib_total_length:
  "length (contrib env 0 g) + length (contrib env 1 g) + length (contrib env 2 g)
     + length (contrib env 3 g) + length (contrib env 4 g) \<le> 1"
  unfolding classifyFile_def contrib_def bucketList_def noFiles_def Let_def
  by (auto split: if_splits sum.splits)

lemma length_filter_le_conj:
  "length (filter (\<lambda>x. P x \<and> Q x) xs) \<le> length (filter P xs)"
  by (induction xs) auto

lemma count_le_distinct:
  "distinct xs \<Longrightarrow> length (filter (\<lambda>p. p = f) xs) \<le> 1"
  by (induction xs) (auto simp: filter_empty_conv)

lemma count_pos:
  "f \<in> set xs \<Longrightarrow> 1 \<le> length (filter (\<lambda>p. p = f) xs)"
  by (induction xs) auto

lemma contrib_count_one:
  assumes "\<not> convertedFrom env [g] f"
  shows "length (filter (\<lambda>p. p = f) (contrib env 0 g))
       + length (filter (\<lambda>p. p = f) (contrib env 1 g))
       + length (filter (\<lambda>p. p = f) (contrib env 2 g))
       + length (filter (\<lambda>p. p = f) (contrib env 3 g))
       + length (filter (\<lambda>p. p = f) (contrib env 4 g))
       \<le> (if g = f then 1 else 0)"
proof (cases "g = f")
  case True
  have "\<And>k. length (filter (\<lambda>p. p = f) (contrib env k g)) \<le> length (contrib env k g)"
    by simp
  from this [of 0] this [of 1] this [of 2] this [of 3] this [of 4] contrib_total_length [of env g]
  have "length (filter (\<lambda>p. p = f) (contrib env 0 g))
       + length (filter (\<lambda>p. p = f) (contrib env 1 g))
       + length (filter (\<lambda>p. p = f) (contrib env 2 g))
       + length (filter (\<lambda>p. p = f) (contrib env 3 g))
       + length (filter (\<lambda>p. p = f) (contrib env 4 g)) \<le> 1"
    by linarith
  with True show ?thesis by simp
next
  case False
  have "filter (\<lambda>p. p = f) (contrib env k g) = []" if "k < 5" for k
  proof -
    have "f \<notin> set (contrib env k g)"
    proof
      assume "f \<in> set (contrib env k g)"
      from contrib_origin [OF that this] False assms show False by simp
    qed
    then show ?thesis by (auto simp: filter_empty_conv)
  qed
  from this [of 0] this [of 1] this [of 2] this [of 3] this [of 4] False show ?thesis by simp
qed

lemma occurrences_le:
  assumes "\<not> convertedFrom env files f"
  shows "occurrences env f files \<le> length (filter (\<lambda>p. p = f) files)"
  using assms
proof (induction files)
  case Nil
  then show ?case by (simp add: occurrences_def)
next
  case (Cons g files)
  from Cons.prems have a: "\<not> convertedFrom env [g] f" and b: "\<not> convertedFrom env files f"
    by (auto simp: convertedFrom_def)
  have "occurrences env f (g # files)
      = (length (filter (\<lambda>p. p = f) (contrib env 0 g))
       + length (filter (\<lambda>p. p = f) (contrib env 1 g))
       + length (filter (\<lambda>p. p = f) (contrib env 2 g))
       + length (filter (\<lambda>p. p = f) (contrib env 3 g))
       + length (filter (\<lambda>p. p = f) (contrib env 4 g))) + occurrences env f files"
    by (simp add: occurrences_def)
  with contrib_count_one [OF a] Cons.IH [OF b] show ?case by auto
qed

lemma count_getFilesByType:
  assumes "getFilesByType env files = Inr filesByType"
  shows "length (filter (\<lambda>p. p = f) (concat filesByType)) = occurrences env f files"
  using getFilesByType_contrib [OF assms] by (simp add: occurrences_def)

subsection \<open>Uploads of a run that returns, and files that are not queued\<close>

lemma addAllRetry_Inr_events:
  assumes "addAllRetry env st = (st', Inr results)"
  shows "events st' = events st @ map (Submitted RetryBatch) (failures st)
           @ map (settled env RetryBatch Retry) (settleOrder env Retry (failures st))"
proof -
  let ?st1 = "st\<lparr>events := events st @ map (Submitted RetryBatch) (failures st)\<rparr>"
  obtain st2 r2 where s: "settleRetry env (settleOrder env Retry (failures st)) ?st1 = (st2, r2)"
    by (cases "settleRetry env (settleOrder env Retry (failures st)) ?st1")
  with assms have "st' = st2" and "r2 = None"
    by (auto simp: addAllRetry_def Let_def split: option.splits)
  with settleRetry_events [OF s] show ?thesis by auto
qed

lemma uploadFolder_uploads:
  assumes w: "walk env src = Inr walked"
    and g: "getFilesByType env (allowedFiles env walked) = Inr filesByType"
    and r: "uploadFolder env src dest = (tr, Inr results)"
    and k: "k < 5" and f: "f \<in> set (filesByType ! k)"
  shows "Submitted (Batch k) (uploadFile env src dest f) \<in> set tr
       \<and> Settled (Batch k) (uploadFile env src dest f)
            (upload env First f (snd (uploadFile env src dest f))) \<in> set tr
       \<and> \<not> fatalReply env First (uploadFile env src dest f)
       \<and> (transientReply env First (uploadFile env src dest f) \<longrightarrow>
            Submitted RetryBatch (uploadFile env src dest f) \<in> set tr
            \<and> Settled RetryBatch (uploadFile env src dest f)
                 (upload env Retry f (snd (uploadFile env src dest f))) \<in> set tr)"
proof -
  let ?t = "uploadFile env src dest f"
  from uploadFolder_ordered [OF w g, of dest] r
  have "drained env src dest filesByType (length filesByType) tr" by simp
  with getFilesByType_length [OF g] k f
  have main: "Submitted (Batch k) ?t \<in> set tr \<and> settled env (Batch k) First ?t \<in> set tr
      \<and> \<not> fatalReply env First ?t"
    by (simp add: drained_def)
  have retry: "Submitted RetryBatch ?t \<in> set tr \<and> settled env RetryBatch Retry ?t \<in> set tr"
    if tr1: "transientReply env First ?t"
    using w g
  proof (cases rule: uploadFolder_cases [where dest = dest])
    case (mainThrow st err)
    with r show ?thesis by simp
  next
    case (retried st st' r')
    with r have a: "addAllRetry env st = (st', Inr results)" and e: "tr = events st'" by simp_all
    from k f getFilesByType_length [OF g] have "f \<in> set (concat filesByType)"
      by (auto intro: nth_mem)
    with tr1 have "?t \<in> set (firstFailures env src dest filesByType)"
      unfolding set_firstFailures by blast
    with mainLoop_firstFailures [OF retried(1)] have "?t \<in> set (failures st)" by simp
    with addAllRetry_Inr_events [OF a] e show ?thesis by simp
  qed
  from main retry show ?thesis by (simp add: settled_def)
qed

lemma fields_js_artifact_queued:
  assumes g: "getFilesByType env files = Inr filesByType"
    and s: "js \<in> set files"
    and m: "moduleFolder env js \<noteq> None"
    and n: "last (splitLocalPath env js) = ''fields.js''"
  shows "\<exists>converted. convertFieldsJs env js = Inr converted \<and> converted \<in> set (filesByType ! 1)"
proof -
  from getFilesByType_no_throw [OF g s] classifyFile_fields_js [OF m n, of noFiles]
  obtain converted where c: "convertFieldsJs env js = Inr converted"
    by (auto split: sum.splits)
  with classifyFile_fields_js [OF m n, of noFiles]
  have "converted \<in> set (contrib env 1 js)"
    by (simp add: contrib_def bucketList_def noFiles_def)
  moreover have "set (filesByType ! 1) = (\<Union>h\<in>set files. set (contrib env 1 h))"
    by (rule in_getFilesByType [OF g]) simp
  ultimately have "converted \<in> set (filesByType ! 1)" using s by blast
  with c show ?thesis by blast
qed

lemma contrib_dropped_json:
  assumes "moduleFolder env f \<noteq> None"
    and "getExt env f = ''json''"
    and "last (splitLocalPath env f) \<noteq> ''meta.json''"
    and "last (splitLocalPath env f) \<noteq> ''fields.json''"
    and "last (splitLocalPath env f) \<noteq> ''fields.js''"
    and "k < 5"
  shows "contrib env k f = []"
proof -
  from \<open>k < 5\<close> have "k = 0 \<or> k = 1 \<or> k = 2 \<or> k = 3 \<or> k = 4" by arith
  moreover from assms(1-5) have "classifyFile env noFiles f = Inr noFiles"
    by (simp add: classifyFile_def Let_def)
  ultimately show ?thesis by (auto simp: contrib_def bucketList_def noFiles_def)
qed

lemma kept_in_contrib:
  assumes "classifyFile env noFiles f = Inr b1"
    and "moduleFolder env f = None
         \<or> last (splitLocalPath env f) = ''meta.json''
         \<or> last (splitLocalPath env f) \<noteq> ''fields.js'' \<and> getExt env f \<noteq> ''json''
         \<or> last (splitLocalPath env f) = ''fields.json''
            \<and> (\<exists>items. readdirSync env (dirname env f) = Inr items
                  \<and> ''fields.js'' \<notin> set (map name (filter (\<lambda>item. \<not> isDirectory item) items)))"
  shows "f \<in> set (contrib env 0 f) \<or> f \<in> set (contrib env 1 f)
        \<or> f \<in> set (contrib env 2 f) \<or> f \<in> set (contrib env 3 f) \<or> f \<in> set (contrib env 4 f)"
  using assms
  unfolding classifyFile_def contrib_def bucketList_def noFiles_def Let_def
  by (auto split: if_splits sum.splits)

lemma dropped_not_queued:
  assumes g: "getFilesByType env files = Inr filesByType"
    and f: "f \<in> set files"
    and nc: "\<not> convertedFrom env files f"
    and m: "moduleFolder env f \<noteq> None"
    and dropped: "last (splitLocalPath env f) = ''fields.js''
         \<or> getExt env f = ''json'' \<and> last (splitLocalPath env f) \<noteq> ''meta.json''
            \<and> (last (splitLocalPath env f) \<noteq> ''fields.json''
                \<or> (\<exists>items. readdirSync env (dirname env f) = Inr items
                      \<and> ''fields.js'' \<in> set (map name (filter (\<lambda>item. \<not> isDirectory item) items))))"
  shows "f \<notin> set (concat filesByType)"
proof
  assume "f \<in> set (concat filesByType)"
  from in_concat_getFilesByType [OF g this] obtain k h where
    kh: "k < 5" "h \<in> set files" "f \<in> set (contrib env k h)" by blast
  from contrib_origin [OF kh(1,3)] have "f = h"
  proof
    assume "convertedFrom env [h] f"
    with kh(2) nc show ?thesis by (auto simp: convertedFrom_def)
  qed
  with kh(3) have self: "f \<in> set (contrib env k f)" by simp
  show False
  proof (cases "last (splitLocalPath env f) = ''fields.js''")
    case True
    from contrib_fields_js [OF m True kh(1) self] f m True nc show False
      by (auto simp: convertedFrom_def)
  next
    case False
    with dropped have j: "getExt env f = ''json''" "last (splitLocalPath env f) \<noteq> ''meta.json''"
      and d: "last (splitLocalPath env f) \<noteq> ''fields.json''
                \<or> (\<exists>items. readdirSync env (dirname env f) = Inr items
                      \<and> ''fields.js'' \<in> set (map name (filter (\<lambda>item. \<not> isDirectory item) items)))"
      by auto
    show False
    proof (cases "last (splitLocalPath env f) = ''fields.json''")
      case True
      with d obtain items where "readdirSync env (dirname env f) = Inr items"
        "''fields.js'' \<in> set (map name (filter (\<lambda>item. \<not> isDirectory item) items))" by blast
      from contrib_fields_json_sibling [OF m True j(1) this kh(1)] self show False by simp
    next
      case nf: False
      from contrib_dropped_json [OF m j nf False kh(1)] self show False by simp
    qed
  qed
qed

lemma retry_results_tagged:
  assumes nf: "\<forall>h\<in>set (concat filesByType).
               \<not> fatalReply env First (uploadFile env src dest h)
               \<and> \<not> fatalReply env Retry (uploadFile env src dest h)"
  shows "(\<forall>h\<in>set (concat filesByType).
            transientReply env First (uploadFile env src dest h) \<longrightarrow>
            (case upload env Retry h (snd (uploadFile env src dest h)) of
               None \<Rightarrow>
                 \<lparr>resultType = SUCCESS, error = None, file = h\<rparr>
                   \<in> set (map (retryResult env) (firstFailures env src dest filesByType))
             | Some err' \<Rightarrow>
                 \<not> isFatalError env err'
                 \<and> \<lparr>resultType = FAILURE, error = Some err', file = h\<rparr>
                      \<in> set (map (retryResult env) (firstFailures env src dest filesByType))))
       \<and> (\<forall>result\<in>set (map (retryResult env) (firstFailures env src dest filesByType)).
            (case upload env Retry (file result)
                    (snd (uploadFile env src dest (file result))) of
               None \<Rightarrow>
                 result = \<lparr>resultType = SUCCESS, error = None, file = file result\<rparr>
             | Some err' \<Rightarrow>
                 result = \<lparr>resultType = FAILURE, error = Some err', file = file result\<rparr>))"
proof (intro conjI ballI impI)
  fix h assume h: "h \<in> set (concat filesByType)"
    and t: "transientReply env First (uploadFile env src dest h)"
  let ?t = "uploadFile env src dest h"
  from h t have "?t \<in> set (firstFailures env src dest filesByType)"
    unfolding set_firstFailures by blast
  then have m: "retryResult env ?t
      \<in> set (map (retryResult env) (firstFailures env src dest filesByType))"
    by simp
  from nf h have "\<not> fatalReply env Retry ?t" by blast
  with m show "case upload env Retry h (snd ?t) of
               None \<Rightarrow>
                 \<lparr>resultType = SUCCESS, error = None, file = h\<rparr>
                   \<in> set (map (retryResult env) (firstFailures env src dest filesByType))
             | Some err' \<Rightarrow>
                 \<not> isFatalError env err'
                 \<and> \<lparr>resultType = FAILURE, error = Some err', file = h\<rparr>
                      \<in> set (map (retryResult env) (firstFailures env src dest filesByType))"
    by (auto simp: retryResult_def fatalReply_def split: option.splits)
next
  fix result
  assume "result \<in> set (map (retryResult env) (firstFailures env src dest filesByType))"
  then obtain t where t: "t \<in> set (firstFailures env src dest filesByType)"
    and r: "result = retryResult env t" by auto
  from t obtain h where th: "t = uploadFile env src dest h" unfolding set_firstFailures by blast
  show "case upload env Retry (file result)
                    (snd (uploadFile env src dest (file result))) of
               None \<Rightarrow>
                 result = \<lparr>resultType = SUCCESS, error = None, file = file result\<rparr>
             | Some err' \<Rightarrow>
                 result = \<lparr>resultType = FAILURE, error = Some err', file = file result\<rparr>"
    unfolding r th file_retryResult fst_uploadFile
    by (simp add: retryResult_def split: option.splits)
qed

subsection \<open>The examples\<close>

text \<open>The definitions a run on a concrete tree unfolds.\<close>

lemmas host_defs = hostEnv_def hostExt_def hostDirname_def hostJoin_def joinWith_def
  scenarioTree_def staticTree_def windowsTree_def failsOnce_def failsTwice_def forbids_def
  scenarioEnv_def retriedEnv_def staticEnv_def ignoredJsEnv_def ignoredJsonEnv_def windowsEnv_def
  failedEnv_def forbiddenEnv_def forbiddenRetryEnv_def malformedEnv_def strayEnv_def
  racingEnv_def

lemmas run_defs = uploadFolder_def allowedFiles_def getFilesByType_def noFiles_def
  classifyFile_def moduleFolder_def endsWith_def addAllMain_def addAllRetry_def uploadFile_def
  stripSrc_def settleOrder_def record_event_def retryResult_def Let_def

text \<open>The runs of the examples.\<close>

lemma scenario_classified:
  "getFilesByType scenarioEnv (allowedFiles scenarioEnv scenarioTree) =
     Inr [[], [''src/b.module/meta.json'', ''src/b.module/fields.json''], [''src/a.js''],
          [''src/c.html''], []]"
  by (simp add: run_defs host_defs)

lemma scenario_run:
  "uploadFolder scenarioEnv ''src'' ''dest'' =
    ([Submitted (Batch 1) (''src/b.module/meta.json'', ''dest/b.module/meta.json''),
      Submitted (Batch 1) (''src/b.module/fields.json'', ''dest/b.module/fields.json''),
      Settled (Batch 1) (''src/b.module/meta.json'', ''dest/b.module/meta.json'') None,
      Settled (Batch 1) (''src/b.module/fields.json'', ''dest/b.module/fields.json'') None,
      Submitted (Batch 2) (''src/a.js'', ''dest/a.js''),
      Settled (Batch 2) (''src/a.js'', ''dest/a.js'') None,
      Submitted (Batch 3) (''src/c.html'', ''dest/c.html''),
      Settled (Batch 3) (''src/c.html'', ''dest/c.html'') None], Inr [])"
  by (simp add: run_defs host_defs)

lemma retried_classified:
  "getFilesByType retriedEnv (allowedFiles retriedEnv scenarioTree) =
     Inr [[], [''src/b.module/meta.json'', ''src/b.module/fields.json''], [''src/a.js''],
          [''src/c.html''], []]"
  by (simp add: run_defs host_defs)

lemma retried_run:
  "uploadFolder retriedEnv ''src'' ''dest'' =
    ([Submitted (Batch 1) (''src/b.module/meta.json'', ''dest/b.module/meta.json''),
      Submitted (Batch 1) (''src/b.module/fields.json'', ''dest/b.module/fields.json''),
      Settled (Batch 1) (''src/b.module/meta.json'', ''dest/b.module/meta.json'') None,
      Settled (Batch 1) (''src/b.module/fields.json'', ''dest/b.module/fields.json'') None,
      Submitted (Batch 2) (''src/a.js'', ''dest/a.js''),
      Settled (Batch 2) (''src/a.js'', ''dest/a.js'') (Some ''500''),
      Submitted (Batch 3) (''src/c.html'', ''dest/c.html''),
      Settled (Batch 3) (''src/c.html'', ''dest/c.html'') None,
      Submitted RetryBatch (''src/a.js'', ''dest/a.js''),
      Settled RetryBatch (''src/a.js'', ''dest/a.js'') None],
     Inr [\<lparr>resultType = SUCCESS, error = None, file = ''src/a.js''\<rparr>])"
  by (simp add: run_defs host_defs)

lemma static_classified:
  "getFilesByType staticEnv (allowedFiles staticEnv staticTree) =
     Inr [[], [''src/m.module/fields.json'', ''src/m.module/module.css''], [], [], []]"
  by (simp add: run_defs host_defs)

lemma static_run:
  "uploadFolder staticEnv ''src'' ''dest'' =
    ([Submitted (Batch 1) (''src/m.module/fields.json'', ''dest/m.module/fields.json''),
      Submitted (Batch 1) (''src/m.module/module.css'', ''dest/m.module/module.css''),
      Settled (Batch 1) (''src/m.module/fields.json'', ''dest/m.module/fields.json'') None,
      Settled (Batch 1) (''src/m.module/module.css'', ''dest/m.module/module.css'') None],
     Inr [])"
  by (simp add: run_defs host_defs)

lemma ignoredJs_run:
  "uploadFolder ignoredJsEnv ''src'' ''dest'' =
    ([Submitted (Batch 1) (''src/b.module/meta.json'', ''dest/b.module/meta.json''),
      Settled (Batch 1) (''src/b.module/meta.json'', ''dest/b.module/meta.json'') None,
      Submitted (Batch 2) (''src/a.js'', ''dest/a.js''),
      Settled (Batch 2) (''src/a.js'', ''dest/a.js'') None,
      Submitted (Batch 3) (''src/c.html'', ''dest/c.html''),
      Settled (Batch 3) (''src/c.html'', ''dest/c.html'') None], Inr [])"
  by (simp add: run_defs host_defs)

lemma ignoredJson_run:
  "uploadFolder ignoredJsonEnv ''src'' ''dest'' =
    ([Submitted (Batch 1) (''src/b.module/meta.json'', ''dest/b.module/meta.json''),
      Submitted (Batch 1) (''src/b.module/fields.json'', ''dest/b.module/fields.json''),
      Settled (Batch 1) (''src/b.module/meta.json'', ''dest/b.module/meta.json'') None,
      Settled (Batch 1) (''src/b.module/fields.json'', ''dest/b.module/fields.json'') None,
      Submitted (Batch 2) (''src/a.js'', ''dest/a.js''),
      Settled (Batch 2) (''src/a.js'', ''dest/a.js'') None,
      Submitted (Batch 3) (''src/c.html'', ''dest/c.html''),
      Settled (Batch 3) (''src/c.html'', ''dest/c.html'') None], Inr [])"
  by (simp add: run_defs host_defs)

lemma windows_run:
  "uploadFolder windowsEnv (''C:'' @ [CHR 0x5C] @ ''site'') ''dest'' =
    ([Submitted (Batch 1)
        (''C:'' @ [CHR 0x5C] @ ''site'' @ [CHR 0x5C] @ ''b.module'' @ [CHR 0x5C] @ ''meta.json'',
         ''dest/b.module/meta.json''),
      Settled (Batch 1)
        (''C:'' @ [CHR 0x5C] @ ''site'' @ [CHR 0x5C] @ ''b.module'' @ [CHR 0x5C] @ ''meta.json'',
         ''dest/b.module/meta.json'') None,
      Submitted (Batch 2) (''C:'' @ [CHR 0x5C] @ ''site'' @ [CHR 0x5C] @ ''a.js'', ''dest/a.js''),
      Settled (Batch 2) (''C:'' @ [CHR 0x5C] @ ''site'' @ [CHR 0x5C] @ ''a.js'', ''dest/a.js'') None],
     Inr [])"
  by (simp add: run_defs host_defs)

lemma failed_run:
  "uploadFolder failedEnv ''src'' ''dest'' =
    ([Submitted (Batch 1) (''src/b.module/meta.json'', ''dest/b.module/meta.json''),
      Submitted (Batch 1) (''src/b.module/fields.json'', ''dest/b.module/fields.json''),
      Settled (Batch 1) (''src/b.module/meta.json'', ''dest/b.module/meta.json'') None,
      Settled (Batch 1) (''src/b.module/fields.json'', ''dest/b.module/fields.json'') None,
      Submitted (Batch 2) (''src/a.js'', ''dest/a.js''),
      Settled (Batch 2) (''src/a.js'', ''dest/a.js'') (Some ''500''),
      Submitted (Batch 3) (''src/c.html'', ''dest/c.html''),
      Settled (Batch 3) (''src/c.html'', ''dest/c.html'') None,
      Submitted RetryBatch (''src/a.js'', ''dest/a.js''),
      Settled RetryBatch (''src/a.js'', ''dest/a.js'') (Some ''500'')],
     Inr [\<lparr>resultType = FAILURE, error = Some ''500'', file = ''src/a.js''\<rparr>])"
  by (simp add: run_defs host_defs)

lemma failed_classified:
  "getFilesByType failedEnv (allowedFiles failedEnv scenarioTree) =
     Inr [[], [''src/b.module/meta.json'', ''src/b.module/fields.json''], [''src/a.js''],
          [''src/c.html''], []]"
  by (simp add: run_defs host_defs)

lemma forbidden_classified:
  "getFilesByType forbiddenEnv (allowedFiles forbiddenEnv scenarioTree) =
     Inr [[], [''src/b.module/meta.json'', ''src/b.module/fields.json''], [''src/a.js''],
          [''src/c.html''], []]"
  by (simp add: run_defs host_defs)

lemma forbiddenRetry_classified:
  "getFilesByType forbiddenRetryEnv (allowedFiles forbiddenRetryEnv scenarioTree) =
     Inr [[], [''src/b.module/meta.json'', ''src/b.module/fields.json''], [''src/a.js''],
          [''src/c.html''], []]"
  by (simp add: run_defs host_defs)

lemma forbidden_run:
  "uploadFolder forbiddenEnv ''src'' ''dest'' =
    ([Submitted (Batch 1) (''src/b.module/meta.json'', ''dest/b.module/meta.json''),
      Submitted (Batch 1) (''src/b.module/fields.json'', ''dest/b.module/fields.json''),
      Settled (Batch 1) (''src/b.module/meta.json'', ''dest/b.module/meta.json'') None,
      Settled (Batch 1) (''src/b.module/fields.json'', ''dest/b.module/fields.json'') None,
      Submitted (Batch 2) (''src/a.js'', ''dest/a.js''),
      Settled (Batch 2) (''src/a.js'', ''dest/a.js'') None,
      Submitted (Batch 3) (''src/c.html'', ''dest/c.html''),
      Settled (Batch 3) (''src/c.html'', ''dest/c.html'') (Some ''403'')],
     Inl (UploadError ''403''))"
  by (simp add: run_defs host_defs)

lemma forbiddenRetry_run:
  "uploadFolder forbiddenRetryEnv ''src'' ''dest'' =
    ([Submitted (Batch 1) (''src/b.module/meta.json'', ''dest/b.module/meta.json''),
      Submitted (Batch 1) (''src/b.module/fields.json'', ''dest/b.module/fields.json''),
      Settled (Batch 1) (''src/b.module/meta.json'', ''dest/b.module/meta.json'') None,
      Settled (Batch 1) (''src/b.module/fields.json'', ''dest/b.module/fields.json'') None,
      Submitted (Batch 2) (''src/a.js'', ''dest/a.js''),
      Settled (Batch 2) (''src/a.js'', ''dest/a.js'') (Some ''500''),
      Submitted (Batch 3) (''src/c.html'', ''dest/c.html''),
      Settled (Batch 3) (''src/c.html'', ''dest/c.html'') None,
      Submitted RetryBatch (''src/a.js'', ''dest/a.js''),
      Settled RetryBatch (''src/a.js'', ''dest/a.js'') (Some ''403'')],
     Inl (UploadError ''403''))"
  by (simp add: run_defs host_defs)

lemma malformed_run:
  "uploadFolder malformedEnv ''src'' ''dest'' = ([], Inl (FieldsError ''fields.js is malformed''))"
  by (simp add: run_defs host_defs)

lemma stray_run:
  "uploadFolder strayEnv ''src'' ''dest'' = ([], Inr [])"
  by (simp add: run_defs host_defs)

lemma stray_allowed:
  "allowedFiles strayEnv [''src/m.module/extra.json''] = [''src/m.module/extra.json'']"
  by (simp add: run_defs host_defs)

lemma racing_classified:
  "getFilesByType racingEnv (allowedFiles racingEnv scenarioTree) =
     Inr [[], [''src/b.module/meta.json'', ''src/b.module/fields.json''], [''src/a.js''],
          [''src/c.html''], []]"
  by (simp add: run_defs host_defs)

lemma racing_run:
  "uploadFolder racingEnv ''src'' ''dest'' =
    ([Submitted (Batch 1) (''src/b.module/meta.json'', ''dest/b.module/meta.json''),
      Submitted (Batch 1) (''src/b.module/fields.json'', ''dest/b.module/fields.json''),
      Settled (Batch 1) (''src/b.module/fields.json'', ''dest/b.module/fields.json'') None,
      Settled (Batch 1) (''src/b.module/meta.json'', ''dest/b.module/meta.json'') None,
      Submitted (Batch 2) (''src/a.js'', ''dest/a.js''),
      Settled (Batch 2) (''src/a.js'', ''dest/a.js'') (Some ''500''),
      Submitted (Batch 3) (''src/c.html'', ''dest/c.html''),
      Settled (Batch 3) (''src/c.html'', ''dest/c.html'') None,
      Submitted RetryBatch (''src/a.js'', ''dest/a.js''),
      Settled RetryBatch (''src/a.js'', ''dest/a.js'') None],
     Inr [\<lparr>resultType = SUCCESS, error = None, file = ''src/a.js''\<rparr>])"
  by (simp add: run_defs host_defs)

section \<open>The claims\<close>

subsection \<open>C1\<close>

text \<open>
  C1. In a run that returns its list of results, where no path is queued twice in the
  main loop: every result is for a file whose first attempt failed with an error that
  is not fatal; a file whose first attempt succeeded has no result; a file of the main
  loop whose first attempt failed (then with an error that is not fatal, or the run
  would have thrown) has exactly one result, tagged \<open>SUCCESS\<close> with a null error when
  the retry succeeded, and tagged \<open>FAILURE\<close> with the error of the retry when the retry
  failed (again with an error that is not fatal). \<open>d\<close> is the destination path of \<open>f\<close>.
\<close>

theorem one_result_per_first_failure:
  assumes w: "walk env src = Inr walked"
    and g: "getFilesByType env (allowedFiles env walked) = Inr filesByType"
    and r: "uploadFolder env src dest = (tr, Inr results)"
    and dist: "distinct (concat filesByType)"
    and d: "d = snd (uploadFile env src dest f)"
  shows "(\<forall>result\<in>set results. file result \<in> set (concat filesByType)
            \<and> transientReply env First (uploadFile env src dest (file result)))
       \<and> (case upload env First f d of
            None \<Rightarrow> filter (\<lambda>result. file result = f) results = []
          | Some err \<Rightarrow>
              f \<in> set (concat filesByType) \<longrightarrow>
                \<not> isFatalError env err
                \<and> (case upload env Retry f d of
                     None \<Rightarrow> filter (\<lambda>result. file result = f) results
                              = [\<lparr>resultType = SUCCESS, error = None, file = f\<rparr>]
                   | Some err' \<Rightarrow>
                       \<not> isFatalError env err'
                       \<and> filter (\<lambda>result. file result = f) results
                           = [\<lparr>resultType = FAILURE, error = Some err', file = f\<rparr>]))"
proof -
  let ?t = "uploadFile env src dest f"
  let ?fs = "firstFailures env src dest filesByType"
  note R = uploadFolder_Inr [OF w g r]
  have t: "?t = (f, d)" using d by (simp add: prod_eq_iff)
  have sel: "filter (\<lambda>result. file result = f) results
           = map (retryResult env) (filter (\<lambda>t. fst t = f) ?fs)"
    by (simp add: R(1) filter_map o_def)
  have first: "\<forall>result\<in>set results. file result \<in> set (concat filesByType)
            \<and> transientReply env First (uploadFile env src dest (file result))"
  proof
    fix result assume "result \<in> set results"
    with R(1) obtain t' where t': "t' \<in> set ?fs" "result = retryResult env t'" by auto
    from t'(1) obtain g' where "g' \<in> set (concat filesByType)" "t' = uploadFile env src dest g'"
      "transientReply env First t'"
      unfolding set_firstFailures by blast
    with t'(2) show "file result \<in> set (concat filesByType)
            \<and> transientReply env First (uploadFile env src dest (file result))"
      by simp
  qed
  have second: "(case upload env First f d of
            None \<Rightarrow> filter (\<lambda>result. file result = f) results = []
          | Some err \<Rightarrow>
              f \<in> set (concat filesByType) \<longrightarrow>
                \<not> isFatalError env err
                \<and> (case upload env Retry f d of
                     None \<Rightarrow> filter (\<lambda>result. file result = f) results
                              = [\<lparr>resultType = SUCCESS, error = None, file = f\<rparr>]
                   | Some err' \<Rightarrow>
                       \<not> isFatalError env err'
                       \<and> filter (\<lambda>result. file result = f) results
                           = [\<lparr>resultType = FAILURE, error = Some err', file = f\<rparr>]))"
  proof (cases "upload env First f d")
    case None
    then have "\<not> transientReply env First ?t" by (simp add: transientReply_def t)
    with sel filter_firstFailures_distinct [OF dist, of f env src dest] None show ?thesis
      by simp
  next
    case (Some err)
    show ?thesis
    proof (cases "f \<in> set (concat filesByType)")
      case False
      with Some show ?thesis by simp
    next
      case True
      with R(2) have "\<not> fatalReply env First ?t" by blast
      with Some have nf: "\<not> isFatalError env err" by (simp add: fatalReply_def t)
      with Some have tr: "transientReply env First ?t" by (simp add: transientReply_def t)
      with True sel filter_firstFailures_distinct [OF dist, of f env src dest]
      have one: "filter (\<lambda>result. file result = f) results = [retryResult env ?t]" by simp
      from tr True have "?t \<in> set ?fs" by (auto simp: set_firstFailures)
      with R(3) have nr: "\<not> fatalReply env Retry ?t" by blast
      show ?thesis
      proof (cases "upload env Retry f d")
        case None
        with one Some nf True show ?thesis by (simp add: retryResult_def t)
      next
        case r2: (Some err')
        with nr have "\<not> isFatalError env err'" by (simp add: fatalReply_def t)
        with one Some nf True r2 show ?thesis by (simp add: retryResult_def t)
      qed
    qed
  qed
  from first second show ?thesis by blast
qed

theorem one_result_witness:
  "filter (\<lambda>result. file result = ''src/a.js'')
      [\<lparr>resultType = SUCCESS, error = None :: string option, file = ''src/a.js''\<rparr>]
     = [\<lparr>resultType = SUCCESS, error = None, file = ''src/a.js''\<rparr>]
   \<and> filter (\<lambda>result. file result = ''src/c.html'')
      [\<lparr>resultType = SUCCESS, error = None :: string option, file = ''src/a.js''\<rparr>] = []
   \<and> filter (\<lambda>result. file result = ''src/a.js'')
      [\<lparr>resultType = FAILURE, error = Some ''500'', file = ''src/a.js''\<rparr>]
     = [\<lparr>resultType = FAILURE, error = Some ''500'', file = ''src/a.js''\<rparr>]
   \<and> snd (uploadFolder retriedEnv ''src'' ''dest'')
     = Inr [\<lparr>resultType = SUCCESS, error = None, file = ''src/a.js''\<rparr>]
   \<and> snd (uploadFolder failedEnv ''src'' ''dest'')
     = Inr [\<lparr>resultType = FAILURE, error = Some ''500'', file = ''src/a.js''\<rparr>]"
proof -
  let ?X = "[[], [''src/b.module/meta.json'', ''src/b.module/fields.json''], [''src/a.js''],
          [''src/c.html''], []]"
  have w1: "walk retriedEnv ''src'' = Inr scenarioTree" by (simp add: host_defs)
  have r1: "uploadFolder retriedEnv ''src'' ''dest''
     = (fst (uploadFolder retriedEnv ''src'' ''dest''),
        Inr [\<lparr>resultType = SUCCESS, error = None, file = ''src/a.js''\<rparr>])"
    by (simp add: retried_run)
  have w2: "walk failedEnv ''src'' = Inr scenarioTree" by (simp add: host_defs)
  have r2: "uploadFolder failedEnv ''src'' ''dest''
     = (fst (uploadFolder failedEnv ''src'' ''dest''),
        Inr [\<lparr>resultType = FAILURE, error = Some ''500'', file = ''src/a.js''\<rparr>])"
    by (simp add: failed_run)
  have dist: "distinct (concat ?X)" by simp
  have a: "upload retriedEnv First ''src/a.js'' (snd (uploadFile retriedEnv ''src'' ''dest'' ''src/a.js'')) = Some ''500''"
    "upload retriedEnv Retry ''src/a.js'' (snd (uploadFile retriedEnv ''src'' ''dest'' ''src/a.js'')) = None"
    "upload retriedEnv First ''src/c.html'' (snd (uploadFile retriedEnv ''src'' ''dest'' ''src/c.html'')) = None"
    "upload failedEnv First ''src/a.js'' (snd (uploadFile failedEnv ''src'' ''dest'' ''src/a.js'')) = Some ''500''"
    "upload failedEnv Retry ''src/a.js'' (snd (uploadFile failedEnv ''src'' ''dest'' ''src/a.js'')) = Some ''500''"
    by (simp_all add: host_defs)
  from one_result_per_first_failure [OF w1 retried_classified r1 dist refl, of "''src/a.js''"]
    one_result_per_first_failure [OF w1 retried_classified r1 dist refl, of "''src/c.html''"]
    one_result_per_first_failure [OF w2 failed_classified r2 dist refl, of "''src/a.js''"]
    a
  have "filter (\<lambda>result. file result = ''src/a.js'')
      [\<lparr>resultType = SUCCESS, error = None :: string option, file = ''src/a.js''\<rparr>]
     = [\<lparr>resultType = SUCCESS, error = None, file = ''src/a.js''\<rparr>]
   \<and> filter (\<lambda>result. file result = ''src/c.html'')
      [\<lparr>resultType = SUCCESS, error = None :: string option, file = ''src/a.js''\<rparr>] = []
   \<and> filter (\<lambda>result. file result = ''src/a.js'')
      [\<lparr>resultType = FAILURE, error = Some ''500'', file = ''src/a.js''\<rparr>]
     = [\<lparr>resultType = FAILURE, error = Some ''500'', file = ''src/a.js''\<rparr>]"
    by simp
  then show ?thesis by (simp add: retried_run failed_run)
qed

subsection \<open>C2\<close>

text \<open>
  C2. The arrays are processed in the order in which \<^verbatim>\<open>getFilesByType\<close> returns them
  (other files, module files, CSS and JS files, templates, JSON files; line 94). In
  every run, when a task of the array at index \<open>k\<close> is submitted to the queue, every
  task of every array before \<open>k\<close> has been submitted and has resolved; and when a
  retry task is submitted, this holds of all five arrays. The theorem is about any
  position of the events of a run at which a task is submitted: \<open>pre\<close> are the events
  before it. It holds whatever the order in which the tasks of a batch settle.
\<close>

theorem batches_run_in_order:
  assumes "walk env src = Inr walked"
    and "getFilesByType env (allowedFiles env walked) = Inr filesByType"
    and "fst (uploadFolder env src dest) = pre @ Submitted ph t # post"
  shows "(\<exists>b. forEachFile env noFiles (allowedFiles env walked) = Inr b
            \<and> filesByType
                = [otherFiles b, moduleFiles b, cssAndJsFiles b, templateFiles b, jsonFiles b])
       \<and> (case ph of
            Batch k \<Rightarrow> k < 5 \<and> t \<in> uploadFile env src dest ` set (filesByType ! k)
                        \<and> drained env src dest filesByType k pre
          | RetryBatch \<Rightarrow> drained env src dest filesByType 5 pre)"
proof -
  from assms(2) have len: "length filesByType = 5" by (rule getFilesByType_length)
  from uploadFolder_ordered [OF assms(1,2), of dest] assms(3)
  have "permitted env src dest filesByType pre (Submitted ph t)"
    unfolding ordered_def by blast
  with len have "(case ph of
            Batch k \<Rightarrow> k < 5 \<and> t \<in> uploadFile env src dest ` set (filesByType ! k)
                        \<and> drained env src dest filesByType k pre
          | RetryBatch \<Rightarrow> drained env src dest filesByType 5 pre)"
    by (simp add: permitted_def split: phase.splits)
  moreover from assms(2)
  have "\<exists>b. forEachFile env noFiles (allowedFiles env walked) = Inr b
            \<and> filesByType
                = [otherFiles b, moduleFiles b, cssAndJsFiles b, templateFiles b, jsonFiles b]"
    by (auto simp: getFilesByType_def split: sum.splits)
  ultimately show ?thesis by simp
qed

theorem batches_run_in_order_witness:
  "fst (uploadFolder racingEnv ''src'' ''dest'') =
     [Submitted (Batch 1) (''src/b.module/meta.json'', ''dest/b.module/meta.json''),
      Submitted (Batch 1) (''src/b.module/fields.json'', ''dest/b.module/fields.json''),
      Settled (Batch 1) (''src/b.module/fields.json'', ''dest/b.module/fields.json'') None,
      Settled (Batch 1) (''src/b.module/meta.json'', ''dest/b.module/meta.json'') None,
      Submitted (Batch 2) (''src/a.js'', ''dest/a.js''),
      Settled (Batch 2) (''src/a.js'', ''dest/a.js'') (Some ''500''),
      Submitted (Batch 3) (''src/c.html'', ''dest/c.html''),
      Settled (Batch 3) (''src/c.html'', ''dest/c.html'') None]
     @ Submitted RetryBatch (''src/a.js'', ''dest/a.js'')
     # [Settled RetryBatch (''src/a.js'', ''dest/a.js'') None]
   \<and> drained racingEnv ''src'' ''dest''
       [[], [''src/b.module/meta.json'', ''src/b.module/fields.json''], [''src/a.js''],
        [''src/c.html''], []] 5
       [Submitted (Batch 1) (''src/b.module/meta.json'', ''dest/b.module/meta.json''),
        Submitted (Batch 1) (''src/b.module/fields.json'', ''dest/b.module/fields.json''),
        Settled (Batch 1) (''src/b.module/fields.json'', ''dest/b.module/fields.json'') None,
        Settled (Batch 1) (''src/b.module/meta.json'', ''dest/b.module/meta.json'') None,
        Submitted (Batch 2) (''src/a.js'', ''dest/a.js''),
        Settled (Batch 2) (''src/a.js'', ''dest/a.js'') (Some ''500''),
        Submitted (Batch 3) (''src/c.html'', ''dest/c.html''),
        Settled (Batch 3) (''src/c.html'', ''dest/c.html'') None]
   \<and> drained racingEnv ''src'' ''dest''
       [[], [''src/b.module/meta.json'', ''src/b.module/fields.json''], [''src/a.js''],
        [''src/c.html''], []] 2
       [Submitted (Batch 1) (''src/b.module/meta.json'', ''dest/b.module/meta.json''),
        Submitted (Batch 1) (''src/b.module/fields.json'', ''dest/b.module/fields.json''),
        Settled (Batch 1) (''src/b.module/fields.json'', ''dest/b.module/fields.json'') None,
        Settled (Batch 1) (''src/b.module/meta.json'', ''dest/b.module/meta.json'') None]"
proof -
  let ?batch1 = "[Submitted (Batch 1) (''src/b.module/meta.json'', ''dest/b.module/meta.json''),
        Submitted (Batch 1) (''src/b.module/fields.json'', ''dest/b.module/fields.json''),
        Settled (Batch 1) (''src/b.module/fields.json'', ''dest/b.module/fields.json'') None,
        Settled (Batch 1) (''src/b.module/meta.json'', ''dest/b.module/meta.json'') None]
        :: string event list"
  let ?rest = "[Settled (Batch 2) (''src/a.js'', ''dest/a.js'') (Some ''500''),
      Submitted (Batch 3) (''src/c.html'', ''dest/c.html''),
      Settled (Batch 3) (''src/c.html'', ''dest/c.html'') None,
      Submitted RetryBatch (''src/a.js'', ''dest/a.js''),
      Settled RetryBatch (''src/a.js'', ''dest/a.js'') None] :: string event list"
  have w: "walk racingEnv ''src'' = Inr scenarioTree" by (simp add: host_defs)
  have t: "fst (uploadFolder racingEnv ''src'' ''dest'') =
     [Submitted (Batch 1) (''src/b.module/meta.json'', ''dest/b.module/meta.json''),
      Submitted (Batch 1) (''src/b.module/fields.json'', ''dest/b.module/fields.json''),
      Settled (Batch 1) (''src/b.module/fields.json'', ''dest/b.module/fields.json'') None,
      Settled (Batch 1) (''src/b.module/meta.json'', ''dest/b.module/meta.json'') None,
      Submitted (Batch 2) (''src/a.js'', ''dest/a.js''),
      Settled (Batch 2) (''src/a.js'', ''dest/a.js'') (Some ''500''),
      Submitted (Batch 3) (''src/c.html'', ''dest/c.html''),
      Settled (Batch 3) (''src/c.html'', ''dest/c.html'') None]
     @ Submitted RetryBatch (''src/a.js'', ''dest/a.js'')
     # [Settled RetryBatch (''src/a.js'', ''dest/a.js'') None]"
    by (simp add: racing_run)
  have t2: "fst (uploadFolder racingEnv ''src'' ''dest'') =
     ?batch1 @ Submitted (Batch 2) (''src/a.js'', ''dest/a.js'') # ?rest"
    by (simp add: racing_run)
  from batches_run_in_order [OF w racing_classified t]
    batches_run_in_order [OF w racing_classified t2] t
  show ?thesis by simp
qed

subsection \<open>C3\<close>

text \<open>
  C3. In a run whose walk succeeds:
  \<^item> an error of \<^verbatim>\<open>upload\<close> that \<^verbatim>\<open>uploadFolder\<close> throws is fatal, so an error that
    is not fatal never escapes;
  \<^item> when \<^verbatim>\<open>convertFieldsJs\<close> fails on an eligible \<^verbatim>\<open>fields.js\<close> of a module folder,
    \<^verbatim>\<open>uploadFolder\<close> throws before any task is submitted and returns no list;
  \<^item> when the first attempt at a file of the arrays is answered by a fatal error, or
    the first by an error that is not fatal and the retry by a fatal one,
    \<^verbatim>\<open>uploadFolder\<close> throws a fatal error of \<^verbatim>\<open>upload\<close> and returns no list;
  \<^item> when no attempt at a file of the arrays is answered by a fatal error,
    \<^verbatim>\<open>uploadFolder\<close> returns a list, whose results are for exactly the files whose
    first attempt failed. Every such file whose retry failed has a result tagged
    \<open>FAILURE\<close> that carries the error of the retry, an error that is not fatal; every
    such file whose retry succeeded has a result tagged \<open>SUCCESS\<close> with a null error;
    and the list has no other results.
\<close>

theorem fatal_errors_escape_transient_errors_do_not:
  assumes w: "walk env src = Inr walked"
  shows "(snd (uploadFolder env src dest) = Inl (UploadError err) \<longrightarrow> isFatalError env err)
       \<and> (f \<in> set (allowedFiles env walked)
            \<and> (\<exists>part\<in>set (splitLocalPath env f). endsWith part ''.module'')
            \<and> last (splitLocalPath env f) = ''fields.js''
            \<and> convertFieldsJs env f = Inl e \<longrightarrow>
          (\<exists>e'. uploadFolder env src dest = ([], Inl e')))
       \<and> (getFilesByType env (allowedFiles env walked) = Inr filesByType \<longrightarrow>
            (g \<in> set (concat filesByType)
               \<and> fatalReply env First (uploadFile env src dest g) \<longrightarrow>
             (\<exists>err'. isFatalError env err'
                \<and> snd (uploadFolder env src dest) = Inl (UploadError err')))
          \<and> (g \<in> set (concat filesByType)
               \<and> transientReply env First (uploadFile env src dest g)
               \<and> fatalReply env Retry (uploadFile env src dest g) \<longrightarrow>
             (\<exists>err'. isFatalError env err'
                \<and> snd (uploadFolder env src dest) = Inl (UploadError err')))
          \<and> ((\<forall>h\<in>set (concat filesByType).
                 \<not> fatalReply env First (uploadFile env src dest h)
                 \<and> \<not> fatalReply env Retry (uploadFile env src dest h)) \<longrightarrow>
             (\<exists>results. snd (uploadFolder env src dest) = Inr results
                \<and> file ` set results
                    = {h \<in> set (concat filesByType).
                         transientReply env First (uploadFile env src dest h)}
                \<and> (\<forall>h\<in>set (concat filesByType).
                      transientReply env First (uploadFile env src dest h) \<longrightarrow>
                      (case upload env Retry h (snd (uploadFile env src dest h)) of
                         None \<Rightarrow>
                           \<lparr>resultType = SUCCESS, error = None, file = h\<rparr> \<in> set results
                       | Some err' \<Rightarrow>
                           \<not> isFatalError env err'
                           \<and> \<lparr>resultType = FAILURE, error = Some err', file = h\<rparr>
                                \<in> set results))
                \<and> (\<forall>result\<in>set results.
                      (case upload env Retry (file result)
                              (snd (uploadFile env src dest (file result))) of
                         None \<Rightarrow>
                           result = \<lparr>resultType = SUCCESS, error = None, file = file result\<rparr>
                       | Some err' \<Rightarrow>
                           result = \<lparr>resultType = FAILURE, error = Some err',
                                      file = file result\<rparr>)))))"
proof (intro conjI impI)
  assume "snd (uploadFolder env src dest) = Inl (UploadError err)"
  then show "isFatalError env err" by (rule uploadFolder_UploadError)
next
  assume a: "f \<in> set (allowedFiles env walked)
            \<and> (\<exists>part\<in>set (splitLocalPath env f). endsWith part ''.module'')
            \<and> last (splitLocalPath env f) = ''fields.js''
            \<and> convertFieldsJs env f = Inl e"
  with moduleFolder_iff [of env f] have m: "moduleFolder env f \<noteq> None" by blast
  from a classifyFile_fields_js [OF m, of noFiles]
  have "classifyFile env noFiles f = Inl (FieldsError e)" by simp
  with a forEachFile_throws [of f "allowedFiles env walked" env "FieldsError e" noFiles]
  obtain e' where "forEachFile env noFiles (allowedFiles env walked) = Inl e'" by blast
  then have "getFilesByType env (allowedFiles env walked) = Inl e'"
    by (simp add: getFilesByType_def)
  from uploadFolder_no_events(2) [OF w this]
  show "\<exists>e'. uploadFolder env src dest = ([], Inl e')" by blast
next
  assume g: "getFilesByType env (allowedFiles env walked) = Inr filesByType"
    and "g \<in> set (concat filesByType) \<and> fatalReply env First (uploadFile env src dest g)"
  then show "\<exists>err'. isFatalError env err'
                \<and> snd (uploadFolder env src dest) = Inl (UploadError err')"
    using uploadFolder_main_fatal [OF w g] by blast
next
  assume g: "getFilesByType env (allowedFiles env walked) = Inr filesByType"
    and "g \<in> set (concat filesByType)
               \<and> transientReply env First (uploadFile env src dest g)
               \<and> fatalReply env Retry (uploadFile env src dest g)"
  then show "\<exists>err'. isFatalError env err'
                \<and> snd (uploadFolder env src dest) = Inl (UploadError err')"
    using uploadFolder_retry_fatal [OF w g] by blast
next
  assume g: "getFilesByType env (allowedFiles env walked) = Inr filesByType"
    and nf: "\<forall>h\<in>set (concat filesByType).
                 \<not> fatalReply env First (uploadFile env src dest h)
                 \<and> \<not> fatalReply env Retry (uploadFile env src dest h)"
  have b: "file ` set (map (retryResult env) (firstFailures env src dest filesByType))
      = {h \<in> set (concat filesByType). transientReply env First (uploadFile env src dest h)}"
  proof (intro set_eqI iffI)
    fix x assume "x \<in> file ` set (map (retryResult env) (firstFailures env src dest filesByType))"
    then obtain t where "t \<in> set (firstFailures env src dest filesByType)" "x = fst t" by auto
    then show "x \<in> {h \<in> set (concat filesByType).
                         transientReply env First (uploadFile env src dest h)}"
      unfolding set_firstFailures by auto
  next
    fix x assume "x \<in> {h \<in> set (concat filesByType).
                         transientReply env First (uploadFile env src dest h)}"
    then have "uploadFile env src dest x \<in> set (firstFailures env src dest filesByType)"
      unfolding set_firstFailures by blast
    then have "file (retryResult env (uploadFile env src dest x))
        \<in> file ` set (map (retryResult env) (firstFailures env src dest filesByType))"
      by (intro imageI) simp
    then show "x \<in> file ` set (map (retryResult env) (firstFailures env src dest filesByType))"
      by simp
  qed
  have a: "snd (uploadFolder env src dest)
       = Inr (map (retryResult env) (firstFailures env src dest filesByType))"
    by (rule uploadFolder_absorbs [OF w g nf])
  note all = conjI [OF a conjI [OF b retry_results_tagged [OF nf]]]
  show "\<exists>results. snd (uploadFolder env src dest) = Inr results
                \<and> file ` set results
                    = {h \<in> set (concat filesByType).
                         transientReply env First (uploadFile env src dest h)}
                \<and> (\<forall>h\<in>set (concat filesByType).
                      transientReply env First (uploadFile env src dest h) \<longrightarrow>
                      (case upload env Retry h (snd (uploadFile env src dest h)) of
                         None \<Rightarrow>
                           \<lparr>resultType = SUCCESS, error = None, file = h\<rparr> \<in> set results
                       | Some err' \<Rightarrow>
                           \<not> isFatalError env err'
                           \<and> \<lparr>resultType = FAILURE, error = Some err', file = h\<rparr>
                                \<in> set results))
                \<and> (\<forall>result\<in>set results.
                      (case upload env Retry (file result)
                              (snd (uploadFile env src dest (file result))) of
                         None \<Rightarrow>
                           result = \<lparr>resultType = SUCCESS, error = None, file = file result\<rparr>
                       | Some err' \<Rightarrow>
                           result = \<lparr>resultType = FAILURE, error = Some err',
                                      file = file result\<rparr>))"
  proof (rule exI)
    show "snd (uploadFolder env src dest) = Inr (map (retryResult env) (firstFailures env src dest filesByType))
                \<and> file ` set (map (retryResult env) (firstFailures env src dest filesByType))
                    = {h \<in> set (concat filesByType).
                         transientReply env First (uploadFile env src dest h)}
                \<and> (\<forall>h\<in>set (concat filesByType).
                      transientReply env First (uploadFile env src dest h) \<longrightarrow>
                      (case upload env Retry h (snd (uploadFile env src dest h)) of
                         None \<Rightarrow>
                           \<lparr>resultType = SUCCESS, error = None, file = h\<rparr> \<in> set (map (retryResult env) (firstFailures env src dest filesByType))
                       | Some err' \<Rightarrow>
                           \<not> isFatalError env err'
                           \<and> \<lparr>resultType = FAILURE, error = Some err', file = h\<rparr>
                                \<in> set (map (retryResult env) (firstFailures env src dest filesByType))))
                \<and> (\<forall>result\<in>set (map (retryResult env) (firstFailures env src dest filesByType)).
                      (case upload env Retry (file result)
                              (snd (uploadFile env src dest (file result))) of
                         None \<Rightarrow>
                           result = \<lparr>resultType = SUCCESS, error = None, file = file result\<rparr>
                       | Some err' \<Rightarrow>
                           result = \<lparr>resultType = FAILURE, error = Some err',
                                      file = file result\<rparr>))"
      by (rule all)
  qed
qed

theorem fatal_errors_escape_witness:
  "isFatalError forbiddenEnv ''403''
   \<and> (\<exists>e'. uploadFolder malformedEnv ''src'' ''dest'' = ([], Inl e'))
   \<and> (\<exists>err'. isFatalError forbiddenEnv err'
         \<and> snd (uploadFolder forbiddenEnv ''src'' ''dest'') = Inl (UploadError err'))
   \<and> (\<exists>err'. isFatalError forbiddenRetryEnv err'
         \<and> snd (uploadFolder forbiddenRetryEnv ''src'' ''dest'') = Inl (UploadError err'))
   \<and> (\<exists>results. snd (uploadFolder failedEnv ''src'' ''dest'') = Inr results
         \<and> ''src/a.js'' \<in> file ` set results
         \<and> \<lparr>resultType = FAILURE, error = Some ''500'', file = ''src/a.js''\<rparr> \<in> set results)"
proof -
  let ?X = "[[], [''src/b.module/meta.json'', ''src/b.module/fields.json''], [''src/a.js''],
          [''src/c.html''], []]"
  have w1: "walk forbiddenEnv ''src'' = Inr scenarioTree"
    and w2: "walk malformedEnv ''src'' = Inr scenarioTree"
    and w3: "walk forbiddenRetryEnv ''src'' = Inr scenarioTree"
    and w4: "walk failedEnv ''src'' = Inr scenarioTree"
    by (simp_all add: host_defs)
  have r1: "snd (uploadFolder forbiddenEnv ''src'' ''dest'') = Inl (UploadError ''403'')"
    by (simp add: forbidden_run)
  note one = fatal_errors_escape_transient_errors_do_not
      [OF w1, where dest = "''dest''" and err = "''403''", THEN conjunct1, THEN mp, OF r1]
  have a2: "''src/b.module/fields.js'' \<in> set (allowedFiles malformedEnv scenarioTree)
      \<and> (\<exists>part\<in>set (splitLocalPath malformedEnv ''src/b.module/fields.js'').
            endsWith part ''.module'')
      \<and> last (splitLocalPath malformedEnv ''src/b.module/fields.js'') = ''fields.js''
      \<and> convertFieldsJs malformedEnv ''src/b.module/fields.js'' = Inl ''fields.js is malformed''"
    by (simp add: allowedFiles_def endsWith_def host_defs)
  note two = fatal_errors_escape_transient_errors_do_not
      [OF w2, where dest = "''dest''" and f = "''src/b.module/fields.js''"
        and e = "''fields.js is malformed''", THEN conjunct2, THEN conjunct1, THEN mp, OF a2]
  have a3: "''src/c.html'' \<in> set (concat ?X)
      \<and> fatalReply forbiddenEnv First (uploadFile forbiddenEnv ''src'' ''dest'' ''src/c.html'')"
    by (simp add: fatalReply_def uploadFile_def stripSrc_def Let_def host_defs)
  note three = fatal_errors_escape_transient_errors_do_not
      [OF w1, where dest = "''dest''" and filesByType = ?X and g = "''src/c.html''",
        THEN conjunct2, THEN conjunct2, THEN mp, OF forbidden_classified,
        THEN conjunct1, THEN mp, OF a3]
  have a4: "''src/a.js'' \<in> set (concat ?X)
      \<and> transientReply forbiddenRetryEnv First
           (uploadFile forbiddenRetryEnv ''src'' ''dest'' ''src/a.js'')
      \<and> fatalReply forbiddenRetryEnv Retry
           (uploadFile forbiddenRetryEnv ''src'' ''dest'' ''src/a.js'')"
    by (simp add: fatalReply_def transientReply_def uploadFile_def stripSrc_def Let_def host_defs)
  note four = fatal_errors_escape_transient_errors_do_not
      [OF w3, where dest = "''dest''" and filesByType = ?X and g = "''src/a.js''",
        THEN conjunct2, THEN conjunct2, THEN mp, OF forbiddenRetry_classified,
        THEN conjunct2, THEN conjunct1, THEN mp, OF a4]
  have a5: "\<forall>h\<in>set (concat ?X).
      \<not> fatalReply failedEnv First (uploadFile failedEnv ''src'' ''dest'' h)
      \<and> \<not> fatalReply failedEnv Retry (uploadFile failedEnv ''src'' ''dest'' h)"
    by (simp add: fatalReply_def uploadFile_def stripSrc_def Let_def host_defs)
  have m5: "''src/a.js'' \<in> set (concat ?X)"
    by simp
  have t5: "transientReply failedEnv First (uploadFile failedEnv ''src'' ''dest'' ''src/a.js'')"
    by (simp add: transientReply_def uploadFile_def stripSrc_def Let_def host_defs)
  have u5: "upload failedEnv Retry ''src/a.js''
              (snd (uploadFile failedEnv ''src'' ''dest'' ''src/a.js'')) = Some ''500''"
    by (simp add: host_defs)
  note absorbed = fatal_errors_escape_transient_errors_do_not
      [OF w4, where dest = "''dest''" and filesByType = ?X,
        THEN conjunct2, THEN conjunct2, THEN mp, OF failed_classified,
        THEN conjunct2, THEN conjunct2, THEN mp, OF a5]
  have five: "\<exists>results. snd (uploadFolder failedEnv ''src'' ''dest'') = Inr results
         \<and> ''src/a.js'' \<in> file ` set results
         \<and> \<lparr>resultType = FAILURE, error = Some ''500'', file = ''src/a.js''\<rparr> \<in> set results"
    using absorbed
  proof (elim exE conjE)
    fix results
    assume r5: "snd (uploadFolder failedEnv ''src'' ''dest'') = Inr results"
      and f5: "file ` set results = {h \<in> set (concat ?X).
          transientReply failedEnv First (uploadFile failedEnv ''src'' ''dest'' h)}"
      and g5: "\<forall>h\<in>set (concat ?X).
         transientReply failedEnv First (uploadFile failedEnv ''src'' ''dest'' h) \<longrightarrow>
         (case upload failedEnv Retry h (snd (uploadFile failedEnv ''src'' ''dest'' h)) of
            None \<Rightarrow> \<lparr>resultType = SUCCESS, error = None, file = h\<rparr> \<in> set results
          | Some err' \<Rightarrow>
              \<not> isFatalError failedEnv err'
              \<and> \<lparr>resultType = FAILURE, error = Some err', file = h\<rparr> \<in> set results)"
    note c5 = g5 [THEN bspec, OF m5, THEN mp, OF t5]
    have k5: "\<lparr>resultType = FAILURE, error = Some ''500'', file = ''src/a.js''\<rparr> \<in> set results"
      using c5 unfolding u5 by simp
    have "''src/a.js'' \<in> {h \<in> set (concat ?X).
          transientReply failedEnv First (uploadFile failedEnv ''src'' ''dest'' h)}"
      using m5 t5 by (intro CollectI conjI)
    then have i5: "''src/a.js'' \<in> file ` set results"
      unfolding f5 .
    from r5 i5 k5 show ?thesis by (intro exI conjI)
  qed
  from one two three four five show ?thesis by (intro conjI)
qed

subsection \<open>C4\<close>

text \<open>
  C4 as stated fails: not every eligible file gets a task of its own. A JSON file of a
  module folder other than \<^verbatim>\<open>meta.json\<close> and \<^verbatim>\<open>fields.json\<close> is dropped on purpose
  (lines 64-68), and for a \<^verbatim>\<open>fields.js\<close> the path that \<^verbatim>\<open>convertFieldsJs\<close> returns is
  queued in its place (line 58). The run on the tree with the single file
  \<^verbatim>\<open>src/m.module/extra.json\<close> returns the empty list without having submitted a
  task, and the run of the scenario submits no task for \<^verbatim>\<open>src/b.module/fields.js\<close>.
\<close>

theorem eligible_file_without_task_counterexample:
  "allowedFiles strayEnv [''src/m.module/extra.json''] = [''src/m.module/extra.json'']
   \<and> uploadFolder strayEnv ''src'' ''dest'' = ([], Inr [])
   \<and> mainTasksFor (fst (uploadFolder strayEnv ''src'' ''dest'')) ''src/m.module/extra.json'' = 0
   \<and> ''src/b.module/fields.js'' \<in> set (allowedFiles scenarioEnv scenarioTree)
   \<and> mainTasksFor (fst (uploadFolder scenarioEnv ''src'' ''dest'')) ''src/b.module/fields.js'' = 0"
  by (simp add: stray_run stray_allowed scenario_run mainTasksFor_def mainSubmitted_def)
     (simp add: allowedFiles_def host_defs)

text \<open>
  C4, amended. Let the walker list each path once, and let \<open>f\<close> be an eligible file whose
  path is not what \<^verbatim>\<open>convertFieldsJs\<close> returned for an eligible \<^verbatim>\<open>fields.js\<close> of a
  module folder. Then:
  \<^item> at most one task is created for \<open>f\<close> in the main loop, and at most as many in the
    retry as in the main loop: at most one more, and none for a file without a task in
    the main loop, so no file is retried more than once;
  \<^item> exactly one task is created for \<open>f\<close> in the main loop when the run returns its list
    of results and \<open>f\<close> is outside every module folder, or is named \<^verbatim>\<open>meta.json\<close>, or is
    neither named \<^verbatim>\<open>fields.js\<close> nor has the extension \<^verbatim>\<open>json\<close>, or is named
    \<^verbatim>\<open>fields.json\<close> and the files that \<^verbatim>\<open>readdirSync\<close> lists in its directory have no
    \<^verbatim>\<open>fields.js\<close> among them;
  \<^item> no task at all is created for \<open>f\<close>, in the main loop or in the retry, when \<open>f\<close> is in
    a module folder and is named \<^verbatim>\<open>fields.js\<close>, or has the extension \<^verbatim>\<open>json\<close>, is not
    named \<^verbatim>\<open>meta.json\<close>, and is either not named \<^verbatim>\<open>fields.json\<close> or has a \<^verbatim>\<open>fields.js\<close>
    among the files that \<^verbatim>\<open>readdirSync\<close> lists in its directory;
  \<^item> when the run returns its list of results and \<open>f\<close> is a \<^verbatim>\<open>fields.js\<close> of a module
    folder, \<^verbatim>\<open>convertFieldsJs\<close> returned a path for \<open>f\<close>, and at least one task is
    created in the main loop for that path.
\<close>

theorem tasks_per_eligible_file:
  assumes w: "walk env src = Inr walked"
    and dist: "distinct walked"
    and f: "f \<in> set (allowedFiles env walked)"
    and nc: "\<not> convertedFrom env (allowedFiles env walked) f"
    and tr: "tr = fst (uploadFolder env src dest)"
  shows "mainTasksFor tr f \<le> 1
       \<and> retryTasksFor tr f \<le> mainTasksFor tr f
       \<and> ((\<exists>results. snd (uploadFolder env src dest) = Inr results)
            \<and> (moduleFolder env f = None
                \<or> last (splitLocalPath env f) = ''meta.json''
                \<or> last (splitLocalPath env f) \<noteq> ''fields.js'' \<and> getExt env f \<noteq> ''json''
                \<or> last (splitLocalPath env f) = ''fields.json''
                   \<and> (\<exists>items. readdirSync env (dirname env f) = Inr items
                        \<and> ''fields.js'' \<notin> set (map name
                              (filter (\<lambda>item. \<not> isDirectory item) items))))
           \<longrightarrow> mainTasksFor tr f = 1)
       \<and> (moduleFolder env f \<noteq> None
            \<and> (last (splitLocalPath env f) = ''fields.js''
                \<or> getExt env f = ''json'' \<and> last (splitLocalPath env f) \<noteq> ''meta.json''
                   \<and> (last (splitLocalPath env f) \<noteq> ''fields.json''
                       \<or> (\<exists>items. readdirSync env (dirname env f) = Inr items
                            \<and> ''fields.js'' \<in> set (map name
                                  (filter (\<lambda>item. \<not> isDirectory item) items)))))
           \<longrightarrow> mainTasksFor tr f = 0 \<and> retryTasksFor tr f = 0)
       \<and> ((\<exists>results. snd (uploadFolder env src dest) = Inr results)
            \<and> moduleFolder env f \<noteq> None \<and> last (splitLocalPath env f) = ''fields.js''
           \<longrightarrow> (\<exists>converted. convertFieldsJs env f = Inr converted
                 \<and> 1 \<le> mainTasksFor tr converted))"
proof (cases "getFilesByType env (allowedFiles env walked)")
  case (Inl e)
  from uploadFolder_no_events(2) [OF w Inl, of dest] tr show ?thesis
    by (simp add: mainTasksFor_def retryTasksFor_def)
next
  case g: (Inr filesByType)
  let ?files = "allowedFiles env walked"
  let ?n = "length (filter (\<lambda>p. p = f) (concat filesByType))"
  from uploadFolder_submitted [OF w g, of dest] tr obtain r1 r2 where
    split: "filesByType = r1 @ r2"
    and m: "mainSubmitted tr = map (uploadFile env src dest) (concat r1)"
    and q: "retrySubmitted tr = []
              \<or> r2 = [] \<and> retrySubmitted tr = firstFailures env src dest filesByType"
    and full: "(\<exists>results. snd (uploadFolder env src dest) = Inr results) \<longrightarrow> r2 = []"
    by blast
  have main: "mainTasksFor tr x = length (filter (\<lambda>p. p = x) (concat r1))" for x
    by (simp add: mainTasksFor_def m filter_map o_def)
  have "distinct ?files" using dist by (simp add: allowedFiles_def)
  then have "length (filter (\<lambda>p. p = f) ?files) \<le> 1" by (rule count_le_distinct)
  with occurrences_le [OF nc] count_getFilesByType [OF g, of f] have n1: "?n \<le> 1" by simp
  have le: "mainTasksFor tr f \<le> ?n" by (simp add: main split)
  have retry: "retryTasksFor tr f \<le> mainTasksFor tr f"
    using q
  proof
    assume "retrySubmitted tr = []"
    then show ?thesis by (simp add: retryTasksFor_def)
  next
    assume a: "r2 = [] \<and> retrySubmitted tr = firstFailures env src dest filesByType"
    then have "retryTasksFor tr f
        = length (filter (\<lambda>g. g = f \<and> transientReply env First (uploadFile env src dest g))
            (concat filesByType))"
      using length_filter_firstFailures [of "\<lambda>t. fst t = f" env src dest filesByType]
      by (simp add: retryTasksFor_def)
    also have "\<dots> \<le> ?n" by (rule length_filter_le_conj)
    also have "?n = mainTasksFor tr f" using a by (simp add: main split)
    finally show ?thesis .
  qed
  from le n1 have once: "mainTasksFor tr f \<le> 1" by simp
  have exact: "(\<exists>results. snd (uploadFolder env src dest) = Inr results)
                \<and> (moduleFolder env f = None
                    \<or> last (splitLocalPath env f) = ''meta.json''
                    \<or> last (splitLocalPath env f) \<noteq> ''fields.js'' \<and> getExt env f \<noteq> ''json''
                    \<or> last (splitLocalPath env f) = ''fields.json''
                       \<and> (\<exists>items. readdirSync env (dirname env f) = Inr items
                            \<and> ''fields.js'' \<notin> set (map name
                                  (filter (\<lambda>item. \<not> isDirectory item) items))))
               \<longrightarrow> mainTasksFor tr f = 1"
  proof (rule impI)
    assume a: "(\<exists>results. snd (uploadFolder env src dest) = Inr results)
            \<and> (moduleFolder env f = None
                    \<or> last (splitLocalPath env f) = ''meta.json''
                    \<or> last (splitLocalPath env f) \<noteq> ''fields.js'' \<and> getExt env f \<noteq> ''json''
                    \<or> last (splitLocalPath env f) = ''fields.json''
                       \<and> (\<exists>items. readdirSync env (dirname env f) = Inr items
                            \<and> ''fields.js'' \<notin> set (map name
                                  (filter (\<lambda>item. \<not> isDirectory item) items))))"
    with full have "r2 = []" by blast
    then have eq: "mainTasksFor tr f = ?n" by (simp add: main split)
    from getFilesByType_no_throw [OF g f] obtain b1 where b1: "classifyFile env noFiles f = Inr b1"
      by blast
    from kept_in_contrib [OF b1 conjunct2 [OF a]] f set_concat_getFilesByType [OF g]
    have "f \<in> set (concat filesByType)" by blast
    from count_pos [OF this] n1 eq show "mainTasksFor tr f = 1" by simp
  qed
  have none: "moduleFolder env f \<noteq> None
                \<and> (last (splitLocalPath env f) = ''fields.js''
                    \<or> getExt env f = ''json'' \<and> last (splitLocalPath env f) \<noteq> ''meta.json''
                       \<and> (last (splitLocalPath env f) \<noteq> ''fields.json''
                           \<or> (\<exists>items. readdirSync env (dirname env f) = Inr items
                                \<and> ''fields.js'' \<in> set (map name
                                      (filter (\<lambda>item. \<not> isDirectory item) items)))))
               \<longrightarrow> mainTasksFor tr f = 0 \<and> retryTasksFor tr f = 0"
  proof (rule impI)
    assume a: "moduleFolder env f \<noteq> None
            \<and> (last (splitLocalPath env f) = ''fields.js''
                    \<or> getExt env f = ''json'' \<and> last (splitLocalPath env f) \<noteq> ''meta.json''
                       \<and> (last (splitLocalPath env f) \<noteq> ''fields.json''
                           \<or> (\<exists>items. readdirSync env (dirname env f) = Inr items
                                \<and> ''fields.js'' \<in> set (map name
                                      (filter (\<lambda>item. \<not> isDirectory item) items)))))"
    from dropped_not_queued [OF g f nc conjunct1 [OF a] conjunct2 [OF a]]
    have "filter (\<lambda>p. p = f) (concat filesByType) = []"
      by (auto simp: filter_empty_conv)
    with le have "mainTasksFor tr f = 0" by simp
    with retry show "mainTasksFor tr f = 0 \<and> retryTasksFor tr f = 0" by simp
  qed
  have artifact: "(\<exists>results. snd (uploadFolder env src dest) = Inr results)
                \<and> moduleFolder env f \<noteq> None \<and> last (splitLocalPath env f) = ''fields.js''
               \<longrightarrow> (\<exists>converted. convertFieldsJs env f = Inr converted
                     \<and> 1 \<le> mainTasksFor tr converted)"
  proof (rule impI)
    assume a: "(\<exists>results. snd (uploadFolder env src dest) = Inr results)
            \<and> moduleFolder env f \<noteq> None \<and> last (splitLocalPath env f) = ''fields.js''"
    with full have "r2 = []" by blast
    then have eq: "mainTasksFor tr x = length (filter (\<lambda>p. p = x) (concat filesByType))" for x
      by (simp add: main split)
    from a have mf: "moduleFolder env f \<noteq> None" and n: "last (splitLocalPath env f) = ''fields.js''"
      by simp_all
    from fields_js_artifact_queued [OF g f mf n] obtain converted where
      c: "convertFieldsJs env f = Inr converted" and i: "converted \<in> set (filesByType ! 1)"
      by blast
    from getFilesByType_length [OF g] have "filesByType ! 1 \<in> set filesByType" by simp
    with i have "converted \<in> set (concat filesByType)" by auto
    from count_pos [OF this] have "1 \<le> mainTasksFor tr converted" by (simp add: eq)
    with c show "\<exists>converted. convertFieldsJs env f = Inr converted
                 \<and> 1 \<le> mainTasksFor tr converted" by blast
  qed
  show ?thesis
    by (rule conjI [OF once conjI [OF retry conjI [OF exact conjI [OF none artifact]]]])
qed

theorem tasks_per_eligible_file_witness:
  "mainTasksFor (fst (uploadFolder retriedEnv ''src'' ''dest'')) ''src/a.js'' = 1
   \<and> retryTasksFor (fst (uploadFolder retriedEnv ''src'' ''dest'')) ''src/a.js''
       \<le> mainTasksFor (fst (uploadFolder retriedEnv ''src'' ''dest'')) ''src/a.js''
   \<and> retryTasksFor (fst (uploadFolder retriedEnv ''src'' ''dest'')) ''src/a.js'' = 1
   \<and> mainTasksFor (fst (uploadFolder staticEnv ''src'' ''dest'')) ''src/m.module/fields.json'' = 1
   \<and> mainTasksFor (fst (uploadFolder staticEnv ''src'' ''dest'')) ''src/m.module/extra.json'' = 0
   \<and> retryTasksFor (fst (uploadFolder staticEnv ''src'' ''dest'')) ''src/m.module/extra.json'' = 0
   \<and> mainTasksFor (fst (uploadFolder ignoredJsEnv ''src'' ''dest''))
        ''src/b.module/fields.json'' = 0
   \<and> mainTasksFor (fst (uploadFolder scenarioEnv ''src'' ''dest'')) ''src/b.module/fields.js'' = 0
   \<and> (\<exists>converted. convertFieldsJs scenarioEnv ''src/b.module/fields.js'' = Inr converted
         \<and> 1 \<le> mainTasksFor (fst (uploadFolder scenarioEnv ''src'' ''dest'')) converted)"
proof -
  have w: "walk retriedEnv ''src'' = Inr scenarioTree" by (simp add: host_defs)
  have dist: "distinct scenarioTree" by (simp add: host_defs)
  have f: "''src/a.js'' \<in> set (allowedFiles retriedEnv scenarioTree)"
    by (simp add: allowedFiles_def host_defs)
  have nc: "\<not> convertedFrom retriedEnv (allowedFiles retriedEnv scenarioTree) ''src/a.js''"
    by (simp add: convertedFrom_def allowedFiles_def moduleFolder_def endsWith_def host_defs)
  have r: "\<exists>results. snd (uploadFolder retriedEnv ''src'' ''dest'') = Inr results"
    by (simp add: retried_run)
  have m: "moduleFolder retriedEnv ''src/a.js'' = None"
    by (simp add: moduleFolder_def endsWith_def host_defs)
  have q: "retryTasksFor (fst (uploadFolder retriedEnv ''src'' ''dest'')) ''src/a.js'' = 1"
    by (simp add: retried_run retryTasksFor_def retrySubmitted_def)
  note a = tasks_per_eligible_file [OF w dist f nc refl, where dest = "''dest''"]
  from a [THEN conjunct2, THEN conjunct2, THEN conjunct1] r m
  have a1: "mainTasksFor (fst (uploadFolder retriedEnv ''src'' ''dest'')) ''src/a.js'' = 1"
    by blast
  note a2 = a [THEN conjunct2, THEN conjunct1]
  have ws: "walk staticEnv ''src'' = Inr staticTree" by (simp add: host_defs)
  have dists: "distinct staticTree" by (simp add: host_defs)
  have fs: "''src/m.module/fields.json'' \<in> set (allowedFiles staticEnv staticTree)"
    and es: "''src/m.module/extra.json'' \<in> set (allowedFiles staticEnv staticTree)"
    by (simp_all add: allowedFiles_def host_defs)
  have ncs: "\<not> convertedFrom staticEnv (allowedFiles staticEnv staticTree)
                 ''src/m.module/fields.json''"
    and nce: "\<not> convertedFrom staticEnv (allowedFiles staticEnv staticTree)
                 ''src/m.module/extra.json''"
    by (simp_all add: convertedFrom_def allowedFiles_def moduleFolder_def endsWith_def host_defs)
  have rs: "\<exists>results. snd (uploadFolder staticEnv ''src'' ''dest'') = Inr results"
    by (simp add: static_run)
  have ks: "last (splitLocalPath staticEnv ''src/m.module/fields.json'') = ''fields.json''
      \<and> (\<exists>items. readdirSync staticEnv (dirname staticEnv ''src/m.module/fields.json'')
                     = Inr items
            \<and> ''fields.js'' \<notin> set (map name (filter (\<lambda>item. \<not> isDirectory item) items)))"
    by (auto simp: host_defs)
  from tasks_per_eligible_file [OF ws dists fs ncs refl, where dest = "''dest''",
      THEN conjunct2, THEN conjunct2, THEN conjunct1] rs ks
  have b1: "mainTasksFor (fst (uploadFolder staticEnv ''src'' ''dest''))
              ''src/m.module/fields.json'' = 1"
    by blast
  have me: "moduleFolder staticEnv ''src/m.module/extra.json'' \<noteq> None"
    by (simp add: moduleFolder_def endsWith_def host_defs)
  have ke: "getExt staticEnv ''src/m.module/extra.json'' = ''json''
      \<and> last (splitLocalPath staticEnv ''src/m.module/extra.json'') \<noteq> ''meta.json''
      \<and> last (splitLocalPath staticEnv ''src/m.module/extra.json'') \<noteq> ''fields.json''"
    by (simp add: host_defs)
  from tasks_per_eligible_file [OF ws dists es nce refl, where dest = "''dest''",
      THEN conjunct2, THEN conjunct2, THEN conjunct2, THEN conjunct1] me ke
  have b2: "mainTasksFor (fst (uploadFolder staticEnv ''src'' ''dest''))
              ''src/m.module/extra.json'' = 0
      \<and> retryTasksFor (fst (uploadFolder staticEnv ''src'' ''dest''))
              ''src/m.module/extra.json'' = 0"
    by blast
  have wc: "walk scenarioEnv ''src'' = Inr scenarioTree" by (simp add: host_defs)
  have fc: "''src/b.module/fields.js'' \<in> set (allowedFiles scenarioEnv scenarioTree)"
    by (simp add: allowedFiles_def host_defs)
  have ncc: "\<not> convertedFrom scenarioEnv (allowedFiles scenarioEnv scenarioTree)
                 ''src/b.module/fields.js''"
    by (simp add: convertedFrom_def allowedFiles_def moduleFolder_def endsWith_def host_defs)
  have rc: "\<exists>results. snd (uploadFolder scenarioEnv ''src'' ''dest'') = Inr results"
    by (simp add: scenario_run)
  have mc: "moduleFolder scenarioEnv ''src/b.module/fields.js'' \<noteq> None"
    by (simp add: moduleFolder_def endsWith_def host_defs)
  have kc: "last (splitLocalPath scenarioEnv ''src/b.module/fields.js'') = ''fields.js''"
    by (simp add: host_defs)
  note c = tasks_per_eligible_file [OF wc dist fc ncc refl, where dest = "''dest''"]
  from c [THEN conjunct2, THEN conjunct2, THEN conjunct2, THEN conjunct1] mc kc
  have c1: "mainTasksFor (fst (uploadFolder scenarioEnv ''src'' ''dest''))
              ''src/b.module/fields.js'' = 0"
    by blast
  from c [THEN conjunct2, THEN conjunct2, THEN conjunct2, THEN conjunct2] rc mc kc
  have c2: "\<exists>converted. convertFieldsJs scenarioEnv ''src/b.module/fields.js'' = Inr converted
         \<and> 1 \<le> mainTasksFor (fst (uploadFolder scenarioEnv ''src'' ''dest'')) converted"
    by blast
  have wi: "walk ignoredJsEnv ''src'' = Inr scenarioTree" by (simp add: host_defs)
  have fi: "''src/b.module/fields.json'' \<in> set (allowedFiles ignoredJsEnv scenarioTree)"
    by (simp add: allowedFiles_def host_defs)
  have nci: "\<not> convertedFrom ignoredJsEnv (allowedFiles ignoredJsEnv scenarioTree)
                 ''src/b.module/fields.json''"
    by (simp add: convertedFrom_def allowedFiles_def moduleFolder_def endsWith_def host_defs)
  have mi: "moduleFolder ignoredJsEnv ''src/b.module/fields.json'' \<noteq> None"
    by (simp add: moduleFolder_def endsWith_def host_defs)
  let ?items = "[\<lparr>name = ''meta.json'', isDirectory = False\<rparr>,
                 \<lparr>name = ''fields.js'', isDirectory = False\<rparr>,
                 \<lparr>name = ''fields.json'', isDirectory = False\<rparr>]"
  have di: "readdirSync ignoredJsEnv (dirname ignoredJsEnv ''src/b.module/fields.json'')
              = Inr ?items"
    by (simp add: host_defs)
  have si: "''fields.js'' \<in> set (map name (filter (\<lambda>item. \<not> isDirectory item) ?items))"
    by simp
  have ei: "getExt ignoredJsEnv ''src/b.module/fields.json'' = ''json''"
    and li: "last (splitLocalPath ignoredJsEnv ''src/b.module/fields.json'') \<noteq> ''meta.json''"
    by (simp_all add: host_defs)
  have ki: "getExt ignoredJsEnv ''src/b.module/fields.json'' = ''json''
      \<and> last (splitLocalPath ignoredJsEnv ''src/b.module/fields.json'') \<noteq> ''meta.json''
      \<and> (\<exists>items. readdirSync ignoredJsEnv (dirname ignoredJsEnv ''src/b.module/fields.json'')
                     = Inr items
            \<and> ''fields.js'' \<in> set (map name (filter (\<lambda>item. \<not> isDirectory item) items)))"
    using di si ei li by blast
  from tasks_per_eligible_file [OF wi dist fi nci refl, where dest = "''dest''",
      THEN conjunct2, THEN conjunct2, THEN conjunct2, THEN conjunct1] mi ki
  have d1: "mainTasksFor (fst (uploadFolder ignoredJsEnv ''src'' ''dest''))
              ''src/b.module/fields.json'' = 0"
    by blast
  show ?thesis
    by (rule conjI [OF a1 conjI [OF a2 conjI [OF q conjI [OF b1
          conjI [OF conjunct1 [OF b2] conjI [OF conjunct2 [OF b2]
            conjI [OF d1 conjI [OF c1 c2]]]]]]]])
qed

subsection \<open>C5\<close>

text \<open>
  C5. Let \<open>json\<close> be an eligible file of a module folder named \<^verbatim>\<open>fields.json\<close>, in a
  run that returns its list of results, and \<open>items\<close> the listing of its directory.

  If the listing has a file \<^verbatim>\<open>fields.js\<close>, then for an eligible \<^verbatim>\<open>fields.js\<close> of a
  module folder the path that \<^verbatim>\<open>convertFieldsJs\<close> returns is among the module files
  and is uploaded; \<open>json\<close> itself is dropped: \<^verbatim>\<open>getFilesByType\<close> returns the same arrays
  without it, and a task of the run has the path \<open>json\<close> or the path of the
  \<^verbatim>\<open>fields.js\<close> only if that path is what \<^verbatim>\<open>convertFieldsJs\<close> returned for an eligible
  file.

  If the listing has no file \<^verbatim>\<open>fields.js\<close>, then \<open>json\<close> is among the module files
  and is uploaded, with \<open>json\<close> itself as the file of the task.

  That a path is uploaded means here: a task for it is submitted in the batch of the
  module files, \<^verbatim>\<open>upload\<close> is called for it and its reply settles the task in that
  batch, the reply is not a fatal error, and when the reply is an error the task is
  submitted again in the retry and settled by the reply of the second call of
  \<^verbatim>\<open>upload\<close>.
\<close>

theorem fields_js_supersedes_fields_json:
  assumes w: "walk env src = Inr walked"
    and g: "getFilesByType env (allowedFiles env walked) = Inr filesByType"
    and r: "uploadFolder env src dest = (tr, Inr results)"
    and j: "json \<in> set (allowedFiles env walked)"
    and jm: "\<exists>part\<in>set (splitLocalPath env json). endsWith part ''.module''"
    and jn: "last (splitLocalPath env json) = ''fields.json''"
    and je: "getExt env json = ''json''"
    and d: "readdirSync env (dirname env json) = Inr items"
  shows "(''fields.js'' \<in> set (map name (filter (\<lambda>item. \<not> isDirectory item) items))
            \<and> js \<in> set (allowedFiles env walked)
            \<and> (\<exists>part\<in>set (splitLocalPath env js). endsWith part ''.module'')
            \<and> last (splitLocalPath env js) = ''fields.js'' \<longrightarrow>
          (\<exists>converted. convertFieldsJs env js = Inr converted
              \<and> converted \<in> set (filesByType ! 1)
              \<and> Submitted (Batch 1) (uploadFile env src dest converted) \<in> set tr
                 \<and> Settled (Batch 1) (uploadFile env src dest converted)
                      (upload env First converted (snd (uploadFile env src dest converted))) \<in> set tr
                 \<and> \<not> fatalReply env First (uploadFile env src dest converted)
                 \<and> (transientReply env First (uploadFile env src dest converted) \<longrightarrow>
                      Submitted RetryBatch (uploadFile env src dest converted) \<in> set tr
                      \<and> Settled RetryBatch (uploadFile env src dest converted)
                           (upload env Retry converted (snd (uploadFile env src dest converted))) \<in> set tr))
          \<and> getFilesByType env (removeAll json (allowedFiles env walked)) = Inr filesByType
          \<and> (\<forall>ev\<in>set tr. fst (taskOf ev) = js \<or> fst (taskOf ev) = json \<longrightarrow>
                convertedFrom env (allowedFiles env walked) (fst (taskOf ev))))
       \<and> (''fields.js'' \<notin> set (map name (filter (\<lambda>item. \<not> isDirectory item) items)) \<longrightarrow>
            json \<in> set (filesByType ! 1)
            \<and> Submitted (Batch 1) (uploadFile env src dest json) \<in> set tr
               \<and> Settled (Batch 1) (uploadFile env src dest json)
                    (upload env First json (snd (uploadFile env src dest json))) \<in> set tr
               \<and> \<not> fatalReply env First (uploadFile env src dest json)
               \<and> (transientReply env First (uploadFile env src dest json) \<longrightarrow>
                    Submitted RetryBatch (uploadFile env src dest json) \<in> set tr
                    \<and> Settled RetryBatch (uploadFile env src dest json)
                         (upload env Retry json (snd (uploadFile env src dest json))) \<in> set tr))"
proof -
  from jm moduleFolder_iff [of env json] have jm': "moduleFolder env json \<noteq> None" by blast
  have both: "(\<exists>converted. convertFieldsJs env js = Inr converted
              \<and> converted \<in> set (filesByType ! 1)
              \<and> Submitted (Batch 1) (uploadFile env src dest converted) \<in> set tr
                 \<and> Settled (Batch 1) (uploadFile env src dest converted)
                      (upload env First converted (snd (uploadFile env src dest converted))) \<in> set tr
                 \<and> \<not> fatalReply env First (uploadFile env src dest converted)
                 \<and> (transientReply env First (uploadFile env src dest converted) \<longrightarrow>
                      Submitted RetryBatch (uploadFile env src dest converted) \<in> set tr
                      \<and> Settled RetryBatch (uploadFile env src dest converted)
                           (upload env Retry converted (snd (uploadFile env src dest converted))) \<in> set tr))
          \<and> getFilesByType env (removeAll json (allowedFiles env walked)) = Inr filesByType
          \<and> (\<forall>ev\<in>set tr. fst (taskOf ev) = js \<or> fst (taskOf ev) = json \<longrightarrow>
                convertedFrom env (allowedFiles env walked) (fst (taskOf ev)))"
    if a: "''fields.js'' \<in> set (map name (filter (\<lambda>item. \<not> isDirectory item) items))
            \<and> js \<in> set (allowedFiles env walked)
            \<and> (\<exists>part\<in>set (splitLocalPath env js). endsWith part ''.module'')
            \<and> last (splitLocalPath env js) = ''fields.js''"
  proof -
    from a moduleFolder_iff [of env js] have sm': "moduleFolder env js \<noteq> None" by blast
    from a have sib: "''fields.js'' \<in> set (map name (filter (\<lambda>item. \<not> isDirectory item) items))"
      and s: "js \<in> set (allowedFiles env walked)"
      and sn: "last (splitLocalPath env js) = ''fields.js''"
      by simp_all
    from fields_js_artifact_queued [OF g s sm' sn] obtain converted where
      c: "convertFieldsJs env js = Inr converted" and q: "converted \<in> set (filesByType ! 1)"
      by blast
    have "1 < (5::nat)" by simp
    from uploadFolder_uploads [OF w g r this q] c q
    have one: "\<exists>converted. convertFieldsJs env js = Inr converted
              \<and> converted \<in> set (filesByType ! 1)
              \<and> Submitted (Batch 1) (uploadFile env src dest converted) \<in> set tr
                 \<and> Settled (Batch 1) (uploadFile env src dest converted)
                      (upload env First converted (snd (uploadFile env src dest converted))) \<in> set tr
                 \<and> \<not> fatalReply env First (uploadFile env src dest converted)
                 \<and> (transientReply env First (uploadFile env src dest converted) \<longrightarrow>
                      Submitted RetryBatch (uploadFile env src dest converted) \<in> set tr
                      \<and> Settled RetryBatch (uploadFile env src dest converted)
                           (upload env Retry converted (snd (uploadFile env src dest converted))) \<in> set tr)"
      by blast
    have two: "getFilesByType env (removeAll json (allowedFiles env walked)) = Inr filesByType"
      using g forEachFile_removeAll [of env json noFiles "allowedFiles env walked"]
        classifyFile_fields_json_sibling [OF jm' jn je d sib]
      by (simp add: getFilesByType_def)
    have three: "\<forall>ev\<in>set tr. fst (taskOf ev) = js \<or> fst (taskOf ev) = json \<longrightarrow>
                convertedFrom env (allowedFiles env walked) (fst (taskOf ev))"
    proof (intro ballI impI)
      fix ev assume ev: "ev \<in> set tr" and p: "fst (taskOf ev) = js \<or> fst (taskOf ev) = json"
      from ev r have "ev \<in> set (fst (uploadFolder env src dest))" by simp
      from uploadFolder_tasks [OF w g this] have "fst (taskOf ev) \<in> set (concat filesByType)"
        by auto
      with p superseded_json_origin [OF g jm' jn je d sib] fields_js_origin [OF g sm' sn]
      show "convertedFrom env (allowedFiles env walked) (fst (taskOf ev))" by auto
    qed
    from one two three show ?thesis by blast
  qed
  have lone: "json \<in> set (filesByType ! 1)
            \<and> Submitted (Batch 1) (uploadFile env src dest json) \<in> set tr
               \<and> Settled (Batch 1) (uploadFile env src dest json)
                    (upload env First json (snd (uploadFile env src dest json))) \<in> set tr
               \<and> \<not> fatalReply env First (uploadFile env src dest json)
               \<and> (transientReply env First (uploadFile env src dest json) \<longrightarrow>
                    Submitted RetryBatch (uploadFile env src dest json) \<in> set tr
                    \<and> Settled RetryBatch (uploadFile env src dest json)
                         (upload env Retry json (snd (uploadFile env src dest json))) \<in> set tr)"
    if alone: "''fields.js'' \<notin> set (map name (filter (\<lambda>item. \<not> isDirectory item) items))"
  proof -
    from classifyFile_fields_json_alone [OF jm' jn je d alone, of noFiles]
    have "json \<in> set (contrib env 1 json)"
      by (simp add: contrib_def bucketList_def noFiles_def)
    moreover have "set (filesByType ! 1)
        = (\<Union>h\<in>set (allowedFiles env walked). set (contrib env 1 h))"
      by (rule in_getFilesByType [OF g]) simp
    ultimately have in1: "json \<in> set (filesByType ! 1)" using j by blast
    have "1 < (5::nat)" by simp
    from uploadFolder_uploads [OF w g r this in1] in1 show ?thesis by blast
  qed
  from both lone show ?thesis by blast
qed

theorem fields_js_supersedes_witness:
  "convertFieldsJs scenarioEnv ''src/b.module/fields.js'' = Inr ''src/b.module/fields.json''
   \<and> Submitted (Batch 1) (''src/b.module/fields.json'', ''dest/b.module/fields.json'')
        \<in> set (fst (uploadFolder scenarioEnv ''src'' ''dest''))
   \<and> Settled (Batch 1) (''src/b.module/fields.json'', ''dest/b.module/fields.json'') None
        \<in> set (fst (uploadFolder scenarioEnv ''src'' ''dest''))
   \<and> getFilesByType scenarioEnv
        (removeAll ''src/b.module/fields.json'' (allowedFiles scenarioEnv scenarioTree))
      = Inr [[], [''src/b.module/meta.json'', ''src/b.module/fields.json''], [''src/a.js''],
             [''src/c.html''], []]
   \<and> Submitted (Batch 1) (''src/m.module/fields.json'', ''dest/m.module/fields.json'')
        \<in> set (fst (uploadFolder staticEnv ''src'' ''dest''))
   \<and> Settled (Batch 1) (''src/m.module/fields.json'', ''dest/m.module/fields.json'') None
        \<in> set (fst (uploadFolder staticEnv ''src'' ''dest''))"
proof -
  let ?json = "''src/b.module/fields.json''" and ?js = "''src/b.module/fields.js''"
  let ?items = "[\<lparr>name = ''meta.json'', isDirectory = False\<rparr>,
                 \<lparr>name = ''fields.js'', isDirectory = False\<rparr>,
                 \<lparr>name = ''fields.json'', isDirectory = False\<rparr>]"
  have w: "walk scenarioEnv ''src'' = Inr scenarioTree" by (simp add: host_defs)
  have r: "uploadFolder scenarioEnv ''src'' ''dest''
             = (fst (uploadFolder scenarioEnv ''src'' ''dest''), Inr [])"
    by (simp add: scenario_run)
  have j: "?json \<in> set (allowedFiles scenarioEnv scenarioTree)"
    by (simp add: allowedFiles_def host_defs)
  have jm: "\<exists>part\<in>set (splitLocalPath scenarioEnv ?json). endsWith part ''.module''"
    by (simp add: host_defs endsWith_def)
  have jn: "last (splitLocalPath scenarioEnv ?json) = ''fields.json''" by (simp add: host_defs)
  have je: "getExt scenarioEnv ?json = ''json''" by (simp add: host_defs)
  have d: "readdirSync scenarioEnv (dirname scenarioEnv ?json) = Inr ?items"
    by (simp add: host_defs)
  have a: "''fields.js'' \<in> set (map name (filter (\<lambda>item. \<not> isDirectory item) ?items))
            \<and> ?js \<in> set (allowedFiles scenarioEnv scenarioTree)
            \<and> (\<exists>part\<in>set (splitLocalPath scenarioEnv ?js). endsWith part ''.module'')
            \<and> last (splitLocalPath scenarioEnv ?js) = ''fields.js''"
    by (simp add: allowedFiles_def host_defs endsWith_def)
  have c: "convertFieldsJs scenarioEnv ?js = Inr ?json" by (simp add: host_defs)
  from fields_js_supersedes_fields_json [OF w scenario_classified r j jm jn je d, of ?js] a
  have "(\<exists>converted. convertFieldsJs scenarioEnv ?js = Inr converted
            \<and> Submitted (Batch 1) (uploadFile scenarioEnv ''src'' ''dest'' converted)
                 \<in> set (fst (uploadFolder scenarioEnv ''src'' ''dest''))
            \<and> Settled (Batch 1) (uploadFile scenarioEnv ''src'' ''dest'' converted)
                 (upload scenarioEnv First converted
                    (snd (uploadFile scenarioEnv ''src'' ''dest'' converted)))
                 \<in> set (fst (uploadFolder scenarioEnv ''src'' ''dest'')))
        \<and> getFilesByType scenarioEnv (removeAll ?json (allowedFiles scenarioEnv scenarioTree))
            = Inr [[], [''src/b.module/meta.json'', ''src/b.module/fields.json''], [''src/a.js''],
                   [''src/c.html''], []]"
    by blast
  with c have one: "Submitted (Batch 1) (uploadFile scenarioEnv ''src'' ''dest'' ?json)
                 \<in> set (fst (uploadFolder scenarioEnv ''src'' ''dest''))
        \<and> Settled (Batch 1) (uploadFile scenarioEnv ''src'' ''dest'' ?json)
                 (upload scenarioEnv First ?json
                    (snd (uploadFile scenarioEnv ''src'' ''dest'' ?json)))
                 \<in> set (fst (uploadFolder scenarioEnv ''src'' ''dest''))
        \<and> getFilesByType scenarioEnv (removeAll ?json (allowedFiles scenarioEnv scenarioTree))
            = Inr [[], [''src/b.module/meta.json'', ''src/b.module/fields.json''], [''src/a.js''],
                   [''src/c.html''], []]"
    by auto
  let ?sjson = "''src/m.module/fields.json''"
  let ?sitems = "[\<lparr>name = ''fields.json'', isDirectory = False\<rparr>,
                  \<lparr>name = ''extra.json'', isDirectory = False\<rparr>,
                  \<lparr>name = ''module.css'', isDirectory = False\<rparr>]"
  have sw: "walk staticEnv ''src'' = Inr staticTree" by (simp add: host_defs)
  have sr: "uploadFolder staticEnv ''src'' ''dest''
             = (fst (uploadFolder staticEnv ''src'' ''dest''), Inr [])"
    by (simp add: static_run)
  have sj: "?sjson \<in> set (allowedFiles staticEnv staticTree)"
    by (simp add: allowedFiles_def host_defs)
  have sjm: "\<exists>part\<in>set (splitLocalPath staticEnv ?sjson). endsWith part ''.module''"
    by (simp add: host_defs endsWith_def)
  have sjn: "last (splitLocalPath staticEnv ?sjson) = ''fields.json''" by (simp add: host_defs)
  have sje: "getExt staticEnv ?sjson = ''json''" by (simp add: host_defs)
  have sd: "readdirSync staticEnv (dirname staticEnv ?sjson) = Inr ?sitems"
    by (simp add: host_defs)
  have alone: "''fields.js'' \<notin> set (map name (filter (\<lambda>item. \<not> isDirectory item) ?sitems))"
    by simp
  from fields_js_supersedes_fields_json [OF sw static_classified sr sj sjm sjn sje sd] alone
  have two: "Submitted (Batch 1) (uploadFile staticEnv ''src'' ''dest'' ?sjson)
                 \<in> set (fst (uploadFolder staticEnv ''src'' ''dest''))
        \<and> Settled (Batch 1) (uploadFile staticEnv ''src'' ''dest'' ?sjson)
                 (upload staticEnv First ?sjson
                    (snd (uploadFile staticEnv ''src'' ''dest'' ?sjson)))
                 \<in> set (fst (uploadFolder staticEnv ''src'' ''dest''))"
    by blast
  have "uploadFile scenarioEnv ''src'' ''dest'' ?json = (?json, ''dest/b.module/fields.json'')"
    and "uploadFile staticEnv ''src'' ''dest'' ?sjson = (?sjson, ''dest/m.module/fields.json'')"
    and "upload scenarioEnv First ?json ''dest/b.module/fields.json'' = None"
    and "upload staticEnv First ?sjson ''dest/m.module/fields.json'' = None"
    by (simp_all add: uploadFile_def stripSrc_def Let_def host_defs)
  with one two c show ?thesis by simp
qed

subsection \<open>C6\<close>

text \<open>
  C6. A file with a path segment that ends with \<^verbatim>\<open>.module\<close> is never placed in the
  arrays of the other files (index 0), the CSS and JS files (2), the templates (3) or
  the JSON files (4), whatever its extension; and it is placed among the module files
  (index 1) when it is a classified file that is neither named \<^verbatim>\<open>fields.js\<close> nor has
  the extension \<^verbatim>\<open>json\<close>.
\<close>

theorem bundle_folder_wins_over_extension:
  assumes "getFilesByType env files = Inr filesByType"
    and "\<exists>part\<in>set (splitLocalPath env f). endsWith part ''.module''"
  shows "f \<notin> set (filesByType ! 0) \<and> f \<notin> set (filesByType ! 2)
       \<and> f \<notin> set (filesByType ! 3) \<and> f \<notin> set (filesByType ! 4)
       \<and> (f \<in> set files \<and> last (splitLocalPath env f) \<noteq> ''fields.js''
            \<and> getExt env f \<noteq> ''json'' \<longrightarrow> f \<in> set (filesByType ! 1))"
proof -
  from assms(2) moduleFolder_iff [of env f] have m: "moduleFolder env f \<noteq> None" by blast
  have no: "f \<notin> set (filesByType ! k)" if k: "k < 5" "k \<noteq> 1" for k
  proof
    assume "f \<in> set (filesByType ! k)"
    with in_getFilesByType [OF assms(1) k(1)] obtain g where
      g: "g \<in> set files" "f \<in> set (contrib env k g)" by auto
    from contrib_subset [OF k(1) g(2)] k(2) have "f = g" by simp
    with g(2) contrib_module_other [OF m] k show False
      by (auto simp: less_Suc_eq numeral_eq_Suc)
  qed
  have yes: "f \<in> set (filesByType ! 1)"
    if "f \<in> set files" "last (splitLocalPath env f) \<noteq> ''fields.js''" "getExt env f \<noteq> ''json''"
  proof -
    from m that have "classifyFile env noFiles f = Inr (noFiles\<lparr>moduleFiles := moduleFiles noFiles @ [f]\<rparr>)"
      by (simp add: classifyFile_def Let_def)
    then have "f \<in> set (contrib env 1 f)" by (simp add: contrib_def bucketList_def noFiles_def)
    moreover have "set (filesByType ! 1) = (\<Union>g\<in>set files. set (contrib env 1 g))"
      by (rule in_getFilesByType [OF assms(1)]) simp
    ultimately show ?thesis using that(1) by blast
  qed
  from no [of 0] no [of 2] no [of 3] no [of 4] yes show ?thesis by simp
qed

theorem bundle_folder_wins_witness:
  "getFilesByType staticEnv (allowedFiles staticEnv staticTree) =
     Inr [[], [''src/m.module/fields.json'', ''src/m.module/module.css''], [], [], []]
   \<and> ''src/m.module/module.css'' \<notin> set ([] :: path list)
   \<and> ''src/m.module/module.css''
        \<in> set [''src/m.module/fields.json'', ''src/m.module/module.css'']"
proof -
  have m: "\<exists>part\<in>set (splitLocalPath staticEnv ''src/m.module/module.css'').
             endsWith part ''.module''"
    by (simp add: host_defs endsWith_def)
  from bundle_folder_wins_over_extension [OF static_classified m] static_classified
  show ?thesis by simp
qed

subsection \<open>C7\<close>

text \<open>
  C7 as stated fails on the path of a file: the path that \<^verbatim>\<open>convertFieldsJs\<close> returns
  is pushed at line 58 without passing the filters of lines 107-114. On the host of the
  examples, which writes the artifact to the \<^verbatim>\<open>fields.json\<close> beside the
  \<^verbatim>\<open>fields.js\<close>, an ignore rule for \<^verbatim>\<open>src/b.module/fields.json\<close> does not keep that
  path out of the batch of the module files.
\<close>

theorem excluded_path_uploaded_counterexample:
  "walk ignoredJsonEnv ''src'' = Inr scenarioTree
   \<and> ''src/b.module/fields.json'' \<in> set scenarioTree
   \<and> \<not> createIgnoreFilter ignoredJsonEnv ''src/b.module/fields.json''
   \<and> Submitted (Batch 1) (''src/b.module/fields.json'', ''dest/b.module/fields.json'')
        \<in> set (fst (uploadFolder ignoredJsonEnv ''src'' ''dest''))"
  by (simp add: ignoredJson_run) (simp add: host_defs)

text \<open>
  C7, amended. A file that the walker lists and that the extension allow-list or the
  ignore rules exclude is not among the eligible files, and a task of the run, in a
  category batch or in the retry batch, has its path only if that path is what
  \<^verbatim>\<open>convertFieldsJs\<close> returned for an eligible \<^verbatim>\<open>fields.js\<close> of a module folder.
\<close>

theorem excluded_files_get_no_task:
  assumes w: "walk env src = Inr walked"
    and f: "f \<in> set walked"
    and ex: "\<not> isAllowedExtension env f \<or> \<not> createIgnoreFilter env f"
  shows "f \<notin> set (allowedFiles env walked)
       \<and> (\<forall>ev\<in>set (fst (uploadFolder env src dest)).
             fst (taskOf ev) = f \<longrightarrow> convertedFrom env (allowedFiles env walked) f)"
proof (intro conjI ballI impI)
  from ex show no: "f \<notin> set (allowedFiles env walked)" by (auto simp: allowedFiles_def)
  fix ev assume ev: "ev \<in> set (fst (uploadFolder env src dest))" and t: "fst (taskOf ev) = f"
  show "convertedFrom env (allowedFiles env walked) f"
  proof (cases "getFilesByType env (allowedFiles env walked)")
    case (Inl e)
    with ev uploadFolder_no_events(2) [OF w Inl, of dest] show ?thesis by simp
  next
    case g: (Inr filesByType)
    from uploadFolder_tasks [OF w g ev] t have "f \<in> set (concat filesByType)" by auto
    from excluded_origin [OF g no this] show ?thesis .
  qed
qed

theorem excluded_files_get_no_task_witness:
  "''src/b.module/fields.json'' \<notin> set (allowedFiles ignoredJsonEnv scenarioTree)
   \<and> Submitted (Batch 1) (''src/b.module/fields.json'', ''dest/b.module/fields.json'')
        \<in> set (fst (uploadFolder ignoredJsonEnv ''src'' ''dest''))
   \<and> convertedFrom ignoredJsonEnv (allowedFiles ignoredJsonEnv scenarioTree)
        ''src/b.module/fields.json''"
proof -
  let ?ev = "Submitted (Batch 1) (''src/b.module/fields.json'', ''dest/b.module/fields.json'')
               :: string event"
  have w: "walk ignoredJsonEnv ''src'' = Inr scenarioTree" by (simp add: host_defs)
  have f: "''src/b.module/fields.json'' \<in> set scenarioTree" by (simp add: host_defs)
  have ex: "\<not> isAllowedExtension ignoredJsonEnv ''src/b.module/fields.json''
            \<or> \<not> createIgnoreFilter ignoredJsonEnv ''src/b.module/fields.json''"
    by (simp add: host_defs)
  have ev: "?ev \<in> set (fst (uploadFolder ignoredJsonEnv ''src'' ''dest''))"
    by (simp add: ignoredJson_run)
  have t: "fst (taskOf ?ev) = ''src/b.module/fields.json''" by (simp add: taskOf_def)
  from excluded_files_get_no_task [OF w f ex, of "''dest''"] ev t
  show ?thesis by blast
qed

subsection \<open>C8\<close>

text \<open>
  C8. The destination path of every task of a run, submitted or settled, in the main
  loop or in the retry, is \<^verbatim>\<open>convertToUnixPath\<close> of \<^verbatim>\<open>path.join\<close> of the destination
  root and the file's path stripped of the source root. This holds for every
  \<^verbatim>\<open>path.join\<close>, so for every separator of the host; the witness is a run on a
  Windows host.
\<close>

theorem destPath_strips_joins_normalizes:
  assumes "ev \<in> set (fst (uploadFolder env src dest))"
  shows "snd (taskOf ev)
       = convertToUnixPath env (pathJoin env dest (stripSrc src (fst (taskOf ev))))"
proof (cases "walk env src")
  case (Inl e)
  with assms uploadFolder_no_events(1) [OF Inl, of dest] show ?thesis by simp
next
  case (Inr walked)
  show ?thesis
  proof (cases "getFilesByType env (allowedFiles env walked)")
    case (Inl e)
    with assms uploadFolder_no_events(2) [OF Inr Inl, of dest] show ?thesis by simp
  next
    case g: (Inr filesByType)
    from uploadFolder_tasks [OF Inr g assms] obtain f where "taskOf ev = uploadFile env src dest f"
      by blast
    then show ?thesis by (simp add: snd_uploadFile)
  qed
qed

theorem destPath_witness:
  "Submitted (Batch 2) (''C:'' @ [CHR 0x5C] @ ''site'' @ [CHR 0x5C] @ ''a.js'', ''dest/a.js'')
     \<in> set (fst (uploadFolder windowsEnv (''C:'' @ [CHR 0x5C] @ ''site'') ''dest''))
   \<and> ''dest/a.js'' = convertToUnixPath windowsEnv (pathJoin windowsEnv ''dest''
        (stripSrc (''C:'' @ [CHR 0x5C] @ ''site'') (''C:'' @ [CHR 0x5C] @ ''site'' @ [CHR 0x5C] @ ''a.js'')))"
proof -
  have e: "Submitted (Batch 2) (''C:'' @ [CHR 0x5C] @ ''site'' @ [CHR 0x5C] @ ''a.js'', ''dest/a.js'')
     \<in> set (fst (uploadFolder windowsEnv (''C:'' @ [CHR 0x5C] @ ''site'') ''dest''))"
    by (subst windows_run) simp
  from destPath_strips_joins_normalizes [OF e] e show ?thesis by (simp add: taskOf_def)
qed

subsection \<open>C9\<close>

text \<open>
  C9. For every list of outcomes, \<^verbatim>\<open>hasUploadErrors\<close> returns true if and only if at
  least one outcome of the list is tagged \<open>FAILURE\<close>; in particular it is false on the
  empty list.
\<close>

theorem hasUploadErrors_iff_some_failure:
  "(hasUploadErrors results = (\<exists>result\<in>set results. resultType result = FAILURE))
   \<and> \<not> hasUploadErrors []"
  by (simp add: hasUploadErrors_def list_ex_iff)

theorem hasUploadErrors_witness:
  "hasUploadErrors [\<lparr>resultType = SUCCESS, error = None :: string option, file = ''src/a.js''\<rparr>,
                    \<lparr>resultType = FAILURE, error = Some ''500'', file = ''src/c.html''\<rparr>]
   \<and> \<not> hasUploadErrors [\<lparr>resultType = SUCCESS, error = None :: string option, file = ''src/a.js''\<rparr>]"
proof -
  let ?mixed = "[\<lparr>resultType = SUCCESS, error = None :: string option, file = ''src/a.js''\<rparr>,
                 \<lparr>resultType = FAILURE, error = Some ''500'', file = ''src/c.html''\<rparr>]"
  let ?fine = "[\<lparr>resultType = SUCCESS, error = None :: string option, file = ''src/a.js''\<rparr>]"
  have "hasUploadErrors ?mixed = (\<exists>result\<in>set ?mixed. resultType result = FAILURE)"
    using hasUploadErrors_iff_some_failure [of ?mixed] by (rule conjunct1)
  moreover have "hasUploadErrors ?fine = (\<exists>result\<in>set ?fine. resultType result = FAILURE)"
    using hasUploadErrors_iff_some_failure [of ?fine] by (rule conjunct1)
  ultimately show ?thesis by simp
qed

subsection \<open>C10\<close>

text \<open>
  C10. The \<^verbatim>\<open>fields.json\<close> of a module folder is dropped on the listing of its
  directory (line 72-76), not on the eligible files: when the listing has a file
  \<^verbatim>\<open>fields.js\<close>, and the \<^verbatim>\<open>fields.js\<close> that the walker found is excluded by the
  ignore rules, the \<^verbatim>\<open>fields.js\<close> is not among the eligible files, the
  \<^verbatim>\<open>fields.json\<close> contributes nothing to the arrays, and no task of the run uploads
  either of them (neither path being what \<^verbatim>\<open>convertFieldsJs\<close> returned for another,
  eligible file).
\<close>

theorem fields_json_dropped_by_directory_listing:
  assumes w: "walk env src = Inr walked"
    and j: "json \<in> set (allowedFiles env walked)"
    and jm: "\<exists>part\<in>set (splitLocalPath env json). endsWith part ''.module''"
    and jn: "last (splitLocalPath env json) = ''fields.json''"
    and je: "getExt env json = ''json''"
    and d: "readdirSync env (dirname env json) = Inr items"
    and sib: "''fields.js'' \<in> set (map name (filter (\<lambda>item. \<not> isDirectory item) items))"
    and s: "js \<in> set walked" and ign: "\<not> createIgnoreFilter env js"
    and c: "\<not> convertedFrom env (allowedFiles env walked) js"
           "\<not> convertedFrom env (allowedFiles env walked) json"
  shows "js \<notin> set (allowedFiles env walked)
       \<and> getFilesByType env (removeAll json (allowedFiles env walked))
           = getFilesByType env (allowedFiles env walked)
       \<and> (\<forall>ev\<in>set (fst (uploadFolder env src dest)).
             fst (taskOf ev) \<noteq> js \<and> fst (taskOf ev) \<noteq> json)"
proof (intro conjI ballI)
  from jm moduleFolder_iff [of env json] have jm': "moduleFolder env json \<noteq> None" by blast
  from ign show ex: "js \<notin> set (allowedFiles env walked)" by (simp add: allowedFiles_def)
  show "getFilesByType env (removeAll json (allowedFiles env walked))
           = getFilesByType env (allowedFiles env walked)"
    using forEachFile_removeAll [of env json noFiles "allowedFiles env walked"]
      classifyFile_fields_json_sibling [OF jm' jn je d sib]
    by (simp add: getFilesByType_def)
  fix ev assume ev: "ev \<in> set (fst (uploadFolder env src dest))"
  have "fst (taskOf ev) \<noteq> js \<and> fst (taskOf ev) \<noteq> json"
  proof (cases "getFilesByType env (allowedFiles env walked)")
    case (Inl e)
    with ev uploadFolder_no_events(2) [OF w Inl, of dest] show ?thesis by simp
  next
    case g: (Inr filesByType)
    from uploadFolder_tasks [OF w g ev] have "fst (taskOf ev) \<in> set (concat filesByType)"
      by auto
    with c superseded_json_origin [OF g jm' jn je d sib] excluded_origin [OF g ex]
    show ?thesis by auto
  qed
  then show "fst (taskOf ev) \<noteq> js" and "fst (taskOf ev) \<noteq> json" by simp_all
qed

theorem fields_json_dropped_witness:
  "''src/b.module/fields.json'' \<in> set (allowedFiles ignoredJsEnv scenarioTree)
   \<and> \<not> createIgnoreFilter ignoredJsEnv ''src/b.module/fields.js''
   \<and> ''src/b.module/fields.js'' \<notin> set (allowedFiles ignoredJsEnv scenarioTree)
   \<and> getFilesByType ignoredJsEnv
        (removeAll ''src/b.module/fields.json'' (allowedFiles ignoredJsEnv scenarioTree))
      = getFilesByType ignoredJsEnv (allowedFiles ignoredJsEnv scenarioTree)
   \<and> fst (taskOf (Submitted (Batch 1) (''src/b.module/meta.json'', ''dest/b.module/meta.json'')
         :: string event)) \<noteq> ''src/b.module/fields.json''"
proof -
  let ?json = "''src/b.module/fields.json''" and ?js = "''src/b.module/fields.js''"
  let ?items = "[\<lparr>name = ''meta.json'', isDirectory = False\<rparr>,
                 \<lparr>name = ''fields.js'', isDirectory = False\<rparr>,
                 \<lparr>name = ''fields.json'', isDirectory = False\<rparr>]"
  have w: "walk ignoredJsEnv ''src'' = Inr scenarioTree" by (simp add: host_defs)
  have j: "?json \<in> set (allowedFiles ignoredJsEnv scenarioTree)"
    by (simp add: allowedFiles_def host_defs)
  have jm: "\<exists>part\<in>set (splitLocalPath ignoredJsEnv ?json). endsWith part ''.module''"
    by (simp add: host_defs endsWith_def)
  have jn: "last (splitLocalPath ignoredJsEnv ?json) = ''fields.json''" by (simp add: host_defs)
  have je: "getExt ignoredJsEnv ?json = ''json''" by (simp add: host_defs)
  have d: "readdirSync ignoredJsEnv (dirname ignoredJsEnv ?json) = Inr ?items"
    by (simp add: host_defs)
  have sib: "''fields.js'' \<in> set (map name (filter (\<lambda>item. \<not> isDirectory item) ?items))"
    by simp
  have s: "?js \<in> set scenarioTree" by (simp add: host_defs)
  have ign: "\<not> createIgnoreFilter ignoredJsEnv ?js" by (simp add: host_defs)
  have c1: "\<not> convertedFrom ignoredJsEnv (allowedFiles ignoredJsEnv scenarioTree) ?js"
    by (simp add: convertedFrom_def allowedFiles_def moduleFolder_def endsWith_def host_defs)
  have c2: "\<not> convertedFrom ignoredJsEnv (allowedFiles ignoredJsEnv scenarioTree) ?json"
    by (simp add: convertedFrom_def allowedFiles_def moduleFolder_def endsWith_def host_defs)
  have e: "Submitted (Batch 1) (''src/b.module/meta.json'', ''dest/b.module/meta.json'')
             \<in> set (fst (uploadFolder ignoredJsEnv ''src'' ''dest''))"
    by (simp add: ignoredJs_run)
  from fields_json_dropped_by_directory_listing [OF w j jm jn je d sib s ign c1 c2, of "''dest''"]
    e j ign
  show ?thesis by blast
qed

end
